(* ===== verification/HF_Prelude.thy ===== *)
theory HF_Prelude
  imports Main "HOL-Library.Word"
begin

text \<open>
  Shared vocabulary of the development: byte and word types, bit-level extensionality for the
  byte-oriented codecs, generic list lemmas, and the interface \<open>codec\<close> of an encoder with its
  decoder. The codecs of the program (\<^verbatim>\<open>common/base64.c\<close>, \<^verbatim>\<open>common/des.c\<close>) are
  interpretations of that interface.
\<close>

unbundle bit_operations_syntax

type_synonym byte = "8 word"
type_synonym u32 = "32 word"

named_theorems bitwise8 \<open>single bits of the byte operators and of byte masks\<close>

subsection \<open>Words, bit by bit\<close>

lemma less_8_cases:
  "n < 8 \<longleftrightarrow> n = 0 \<or> n = 1 \<or> n = 2 \<or> n = 3 \<or> n = 4 \<or> n = 5 \<or> n = 6 \<or> n = (7::nat)"
  by auto

lemma byte_eqI:
  "(\<And>n. n \<in> {0, 1, 2, 3, 4, 5, 6, 7} \<Longrightarrow> bit a n = bit b n) \<Longrightarrow> a = (b :: byte)"
  by (rule bit_word_eqI) (simp add: less_8_cases)

lemma bit_index_numerals [bitwise8]:
  "Suc (Suc 0) = 2" "Suc 2 = 3"
  by simp_all

lemmas bitwise8_basic [bitwise8] = bit_simps

lemma mask_less: "unat (w AND m) < k" if "unat m < k" for w m :: "'a::len word"
proof -
  have "w AND m \<le> m" by (rule word_and_le1)
  then have "unat (w AND m) \<le> unat m" by (simp add: word_le_nat_alt)
  with that show ?thesis by simp
qed

lemma unat_or_less_64: "unat (a OR b) < 64" if "unat a < 64" "unat b < 64" for a b :: byte
proof -
  have "take_bit 6 (unat a) = unat a" "take_bit 6 (unat b) = unat b"
    using that by (simp_all add: take_bit_eq_mod)
  then have "unat (a OR b) = take_bit 6 (unat a OR unat b)"
    by (simp add: unsigned_or_eq)
  also have "\<dots> < 64" by (simp add: take_bit_eq_mod)
  finally show ?thesis .
qed

subsection \<open>Masks\<close>

lemma mask_6: "0x3f = (mask 6 :: 'l::len word)"
  and mask_8: "0xff = (mask 8 :: 'l::len word)"
  and mask_32: "0xffffffff = (mask 32 :: 'l::len word)"
  by (simp_all add: mask_eq_exp_minus_1)

lemma low_byte: "ucast (w AND 0xff) = (ucast w :: byte)" for w :: u32
  by (rule bit_word_eqI) (simp add: mask_8 bit_simps)

lemma bit_byte_high: "8 \<le> n \<Longrightarrow> \<not> bit b n" for b :: byte
  using bit_imp_le_length [of b n] by auto

lemma xor_cancel: "x XOR (x XOR a) = a" for x a :: "'l::len word"
  by (simp add: xor.assoc [symmetric])

subsection \<open>Blocks of a list\<close>

text \<open>\<open>chunks n xs\<close> cuts a list into consecutive blocks of \<open>n\<close> elements, the last one possibly
  shorter; the block-oriented routines (MD5, DES) are specified over it.\<close>

function chunks :: "nat \<Rightarrow> 'a list \<Rightarrow> 'a list list" where
  "chunks n xs = (if n = 0 \<or> xs = [] then [] else take n xs # chunks n (drop n xs))"
  by pat_completeness auto
termination
  by (relation "measure (\<lambda>(n, xs). length xs)") auto

declare chunks.simps [simp del]

lemma chunks_Nil [simp]: "chunks n [] = []"
  by (simp add: chunks.simps)

lemma chunks_append_block:
  "0 < n \<Longrightarrow> length xs = n \<Longrightarrow> chunks n (xs @ ys) = xs # chunks n ys"
  by (subst chunks.simps) auto

lemma chunks_short: "xs \<noteq> [] \<Longrightarrow> length xs \<le> n \<Longrightarrow> chunks n xs = [xs]"
  by (cases xs; subst chunks.simps) auto

lemma chunks_append:
  "0 < n \<Longrightarrow> n dvd length xs \<Longrightarrow> chunks n (xs @ ys) = chunks n xs @ chunks n ys"
proof (induction n xs rule: chunks.induct)
  case (1 n xs)
  show ?case
  proof (cases "xs = []")
    case False
    with 1 have le: "n \<le> length xs" by (simp add: dvd_imp_le)
    have "chunks n (drop n xs @ ys) = chunks n (drop n xs) @ chunks n ys"
      using 1 False le by (simp add: dvd_diff_nat)
    moreover have "chunks n (xs @ ys) = take n xs # chunks n (drop n xs @ ys)"
    proof -
      have "xs @ ys = take n xs @ (drop n xs @ ys)" by simp
      moreover have "chunks n (take n xs @ (drop n xs @ ys)) = take n xs # chunks n (drop n xs @ ys)"
        by (rule chunks_append_block) (use 1 le in simp_all)
      ultimately show ?thesis by metis
    qed
    ultimately show ?thesis
      using False 1 by (simp add: chunks.simps [of n xs])
  qed simp
qed

lemma concat_chunks: "0 < n \<Longrightarrow> concat (chunks n xs) = xs"
proof (induction n xs rule: chunks.induct)
  case (1 n xs)
  show ?case
  proof (cases "xs = []")
    case False
    with 1 show ?thesis by (simp add: chunks.simps [of n xs])
  qed simp
qed

lemma chunks_lengths: "0 < n \<Longrightarrow> n dvd length xs \<Longrightarrow> \<forall>c \<in> set (chunks n xs). length c = n"
proof (induction n xs rule: chunks.induct)
  case (1 n xs)
  show ?case
  proof (cases "xs = []")
    case False
    with "1.prems" have le: "n \<le> length xs" by (simp add: dvd_imp_le)
    have IH: "\<forall>c \<in> set (chunks n (drop n xs)). length c = n"
      by (rule "1.IH") (use "1.prems" False in simp_all)
    have eq: "chunks n xs = take n xs # chunks n (drop n xs)"
      using "1.prems"(1) False by (subst chunks.simps) simp
    have "length (take n xs) = n" using le by simp
    with IH show ?thesis unfolding eq list.set by blast
  qed simp
qed

lemma chunks_concat:
  "0 < n \<Longrightarrow> \<forall>c \<in> set cs. length c = n \<Longrightarrow> chunks n (concat cs) = cs"
  by (induction cs) (auto simp: chunks_append_block)

text \<open>The whole blocks of a list, and what is left over.\<close>

definition whole :: "nat \<Rightarrow> 'a list \<Rightarrow> 'a list" where
  "whole n xs = take (n * (length xs div n)) xs"

definition tail :: "nat \<Rightarrow> 'a list \<Rightarrow> 'a list" where
  "tail n xs = drop (n * (length xs div n)) xs"

lemma whole_tail: "whole n xs @ tail n xs = xs"
  by (simp add: whole_def tail_def)

lemma dvd_length_whole: "n dvd length (whole n xs)"
  by (simp add: whole_def min.absorb2)

lemma length_tail: "length (tail n xs) = length xs mod n"
  by (simp add: tail_def minus_mult_div_eq_mod)

lemma whole_tail_append:
  assumes "n dvd length xs"
  shows "whole n (xs @ ys) = xs @ whole n ys" and "tail n (xs @ ys) = tail n ys"
proof -
  obtain k where k: "length xs = n * k" using assms by (auto elim: dvdE)
  have "n = 0 \<or> n * ((n * k + length ys) div n) = n * k + n * (length ys div n)"
    by (cases "n = 0") (simp_all add: distrib_left)
  then show "whole n (xs @ ys) = xs @ whole n ys" "tail n (xs @ ys) = tail n ys"
    using k by (auto simp: whole_def tail_def)
qed

lemma whole_append: "whole n (xs @ ys) = whole n xs @ whole n (tail n xs @ ys)"
  using whole_tail_append(1) [OF dvd_length_whole, of n xs "tail n xs @ ys"]
  by (simp add: whole_tail flip: append_assoc)

lemma tail_append: "tail n (xs @ ys) = tail n (tail n xs @ ys)"
  using whole_tail_append(2) [OF dvd_length_whole, of n xs "tail n xs @ ys"]
  by (simp add: whole_tail flip: append_assoc)

lemma whole_short: "length xs < n \<Longrightarrow> whole n xs = []" and tail_short: "length xs < n \<Longrightarrow> tail n xs = xs"
  by (simp_all add: whole_def tail_def)

lemma whole_block: "length xs = n \<Longrightarrow> whole n (xs @ ys) = xs @ whole n ys"
  and tail_block: "length xs = n \<Longrightarrow> tail n (xs @ ys) = tail n ys"
  using whole_tail_append [of n xs ys] by simp_all

subsection \<open>Copying into an array\<close>

text \<open>\<open>memcpy (dst + i, src, length src)\<close> on an array that has room for it.\<close>

definition memcpy_at :: "'a list \<Rightarrow> nat \<Rightarrow> 'a list \<Rightarrow> 'a list" where
  "memcpy_at dst i src = take i dst @ src @ drop (i + length src) dst"

lemma length_memcpy_at [simp]:
  "i + length src \<le> length dst \<Longrightarrow> length (memcpy_at dst i src) = length dst"
  by (simp add: memcpy_at_def)

lemma take_memcpy_at:
  "i + length src \<le> length dst \<Longrightarrow> take (i + length src) (memcpy_at dst i src) = take i dst @ src"
  by (simp add: memcpy_at_def)

lemma memcpy_at_full:
  "i + length src = length dst \<Longrightarrow> memcpy_at dst i src = take i dst @ src"
  by (simp add: memcpy_at_def)

lemma filter_ConsD: "filter P xs = r # rs \<Longrightarrow> r \<in> set xs \<and> P r"
  by (drule arg_cong [where f = set]) auto

subsection \<open>An encoder with its decoder\<close>

locale codec =
  fixes enc :: "'a \<Rightarrow> 'b"
    and dec :: "'b \<Rightarrow> 'a option"
    and ok :: "'a \<Rightarrow> bool"
  assumes dec_enc: "ok x \<Longrightarrow> dec (enc x) = Some x"
begin

text \<open>What a client may use of a codec: different values have different encodings.\<close>

lemma enc_inj: "ok x \<Longrightarrow> ok y \<Longrightarrow> enc x = enc y \<Longrightarrow> x = y"
  by (metis dec_enc option.inject)

lemma enc_inj_on: "inj_on enc {x. ok x}"
  by (rule inj_onI) (rule enc_inj, simp_all)

end

text \<open>Two codecs in a row are a codec.\<close>

locale codec_chain = inner: codec enc1 dec1 ok1 + outer: codec enc2 dec2 ok2
  for enc1 :: "'a \<Rightarrow> 'b" and dec1 ok1 and enc2 :: "'b \<Rightarrow> 'c" and dec2 ok2 +
  assumes ok_chain: "ok1 x \<Longrightarrow> ok2 (enc1 x)"

sublocale codec_chain \<subseteq> chain: codec "\<lambda>x. enc2 (enc1 x)" "\<lambda>y. Option.bind (dec2 y) dec1" ok1
  by unfold_locales (simp add: inner.dec_enc outer.dec_enc ok_chain)

end
