(* ===== verification/Base64.thy ===== *)
theory Base64
  imports HF_Prelude
begin

text \<open>
  The base64 coder of \<^verbatim>\<open>common/base64.c\<close>. Bytes are 8-bit words, the C string on the
  other side is a list of characters without its terminator. The encoder's loop over index
  \<open>i\<close> in steps of three is the recursion over the remaining bytes; its two early \<open>break\<close>s are
  the equations for one and two remaining bytes. The decoder reads four characters per round
  before it looks at them, so on a string whose length is not a multiple of four it reads past
  the terminator: those inputs are \<open>None\<close>.
\<close>

definition base64char :: string where
  "base64char = ''ABCDEFGHIJKLMNOPQRSTUVWXYZabcdefghijklmnopqrstuvwxyz0123456789+/''"

definition sextet :: "byte \<Rightarrow> char" where
  "sextet current = base64char ! unat current"

fun base64_encode :: "byte list \<Rightarrow> string" where
  "base64_encode [] = []"
| "base64_encode [b0] =
     [sextet (drop_bit 2 b0 AND 0x3F),
      sextet (push_bit 4 b0 AND 0x30),
      CHR ''='', CHR ''='']"
| "base64_encode [b0, b1] =
     [sextet (drop_bit 2 b0 AND 0x3F),
      sextet ((push_bit 4 b0 AND 0x30) OR (drop_bit 4 b1 AND 0x0F)),
      sextet (push_bit 2 b1 AND 0x3C),
      CHR ''='']"
| "base64_encode (b0 # b1 # b2 # bs) =
     [sextet (drop_bit 2 b0 AND 0x3F),
      sextet ((push_bit 4 b0 AND 0x30) OR (drop_bit 4 b1 AND 0x0F)),
      sextet ((push_bit 2 b1 AND 0x3C) OR (drop_bit 6 b2 AND 0x03)),
      sextet (b2 AND 0x3F)] @ base64_encode bs"

text \<open>The decoder's search loop: every index of the table is tried, a match overwrites the
  initial \<open>0xFF\<close>.\<close>

definition search64 :: "char \<Rightarrow> byte" where
  "search64 c = fold (\<lambda>k t. if base64char ! k = c then of_nat k else t) [0..<64] 0xFF"

definition join0 :: "byte \<Rightarrow> byte \<Rightarrow> byte" where
  "join0 t0 t1 = (push_bit 2 t0 AND 0xFC) OR (drop_bit 4 t1 AND 0x03)"

definition join1 :: "byte \<Rightarrow> byte \<Rightarrow> byte" where
  "join1 t1 t2 = (push_bit 4 t1 AND 0xF0) OR (drop_bit 2 t2 AND 0x0F)"

definition join2 :: "byte \<Rightarrow> byte \<Rightarrow> byte" where
  "join2 t2 t3 = (push_bit 6 t2 AND 0xF0) OR (t3 AND 0x3F)"

fun base64_decode :: "string \<Rightarrow> byte list option" where
  "base64_decode [] = Some []"
| "base64_decode [c0] = None"
| "base64_decode [c0, c1] = None"
| "base64_decode [c0, c1, c2] =
     (if c2 = CHR ''='' then Some [join0 (search64 c0) (search64 c1)] else None)"
| "base64_decode (c0 # c1 # c2 # c3 # cs) =
     (let t0 = search64 c0; t1 = search64 c1; t2 = search64 c2; t3 = search64 c3 in
      if c2 = CHR ''='' then Some [join0 t0 t1]
      else if c3 = CHR ''='' then Some [join0 t0 t1, join1 t1 t2]
      else map_option (\<lambda>bs. join0 t0 t1 # join1 t1 t2 # join2 t2 t3 # bs) (base64_decode cs))"

subsection \<open>The table\<close>

lemma length_base64char [simp]: "length base64char = 64"
  by (simp add: base64char_def)

lemma base64char_not_pad: "CHR ''='' \<notin> set base64char"
  by (simp add: base64char_def)

lemma search64_nth: "\<forall>k < 64. search64 (base64char ! k) = of_nat k"
  by code_simp

lemma search64_sextet: "unat w < 64 \<Longrightarrow> search64 (sextet w) = w"
  using search64_nth by (simp add: sextet_def)

lemma sextet_in_table: "unat w < 64 \<Longrightarrow> sextet w \<in> set base64char"
  by (simp add: sextet_def)

lemma sextet_not_pad: "unat w < 64 \<Longrightarrow> sextet w \<noteq> CHR ''=''"
  using sextet_in_table base64char_not_pad by metis

lemma sextets_in_range:
  "unat (drop_bit 2 a AND (0x3F::byte)) < 64"
  "unat (push_bit 4 a AND (0x30::byte)) < 64"
  "unat ((push_bit 4 a AND 0x30) OR (drop_bit 4 b AND (0x0F::byte))) < 64"
  "unat (push_bit 2 b AND (0x3C::byte)) < 64"
  "unat ((push_bit 2 b AND 0x3C) OR (drop_bit 6 c AND (0x03::byte))) < 64"
  "unat (c AND (0x3F::byte)) < 64"
  by (rule unat_or_less_64 mask_less | simp)+

lemmas sextet_simps = search64_sextet [OF sextets_in_range(1)] search64_sextet [OF sextets_in_range(2)]
  search64_sextet [OF sextets_in_range(3)] search64_sextet [OF sextets_in_range(4)]
  search64_sextet [OF sextets_in_range(5)] search64_sextet [OF sextets_in_range(6)]
  sextet_not_pad [OF sextets_in_range(1)] sextet_not_pad [OF sextets_in_range(2)]
  sextet_not_pad [OF sextets_in_range(3)] sextet_not_pad [OF sextets_in_range(4)]
  sextet_not_pad [OF sextets_in_range(5)] sextet_not_pad [OF sextets_in_range(6)]

subsection \<open>Splitting three bytes into sextets and joining them again\<close>

lemma join_split:
  "join0 (drop_bit 2 a AND 0x3F) ((push_bit 4 a AND 0x30) OR (drop_bit 4 b AND 0x0F)) = a"
  "join0 (drop_bit 2 a AND 0x3F) (push_bit 4 a AND 0x30) = a"
  "join1 ((push_bit 4 a AND 0x30) OR (drop_bit 4 b AND 0x0F))
     ((push_bit 2 b AND 0x3C) OR (drop_bit 6 c AND 0x03)) = b"
  "join1 ((push_bit 4 a AND 0x30) OR (drop_bit 4 b AND 0x0F)) (push_bit 2 b AND 0x3C) = b"
  "join2 ((push_bit 2 b AND 0x3C) OR (drop_bit 6 c AND 0x03)) (c AND 0x3F) = c"
  unfolding join0_def join1_def join2_def
  by (rule byte_eqI, auto simp: bitwise8)+

lemma base64_decode_encode: "base64_decode (base64_encode bs) = Some bs"
  by (induction bs rule: base64_encode.induct) (simp_all add: sextet_simps join_split Let_def)

interpretation b64: codec base64_encode base64_decode "\<lambda>_. True"
  by unfold_locales (rule base64_decode_encode)

subsection \<open>Properties\<close>

text \<open>
  C13: decoding an encoded buffer gives the buffer back, whatever its length and contents.
\<close>

theorem base64_roundtrip: "base64_decode (base64_encode bs) = Some bs"
  by (rule base64_decode_encode)

end
