(* ===== verification/DES_Cipher.thy ===== *)
theory DES_Cipher
  imports HF_Prelude Base64
begin

text \<open>
  The DES cipher of \<^verbatim>\<open>common/des.c\<close>. The type variable \<open>'l\<close> is the width of the platform's
  \<open>unsigned long\<close>: the program stores subkeys and half blocks in \<open>unsigned long\<close>, so the model is
  parametric in it and \<open>32 word\<close> and \<open>64 word\<close> are the two platforms. Byte arrays are lists, and a
  length argument of the C code is the length of its list. Automatic arrays that the code reads
  before writing are parameters (\<open>junk\<close>, the previous contents of \<open>ek\<close> / \<open>dk\<close>).
\<close>

subsection \<open>Tables\<close>

definition pc1 :: "nat list" where
  "pc1 = [
     56, 48, 40, 32, 24, 16, 8, 0, 57, 49, 41, 33, 25, 17,
     9, 1, 58, 50, 42, 34, 26, 18, 10, 2, 59, 51, 43, 35,
     62, 54, 46, 38, 30, 22, 14, 6, 61, 53, 45, 37, 29, 21,
     13, 5, 60, 52, 44, 36, 28, 20, 12, 4, 27, 19, 11, 3]"

definition pc2 :: "nat list" where
  "pc2 = [
     13, 16, 10, 23, 0, 4, 2, 27, 14, 5, 20, 9,
     22, 18, 11, 3, 25, 7, 15, 6, 26, 19, 12, 1,
     40, 51, 30, 36, 46, 54, 29, 39, 50, 44, 32, 47,
     43, 48, 38, 55, 33, 52, 45, 41, 49, 35, 28, 31]"

definition bytebit :: "byte list" where
  "bytebit = [
     128, 64, 32, 16, 8, 4, 2, 1]"

definition totrot :: "nat list" where
  "totrot = [
     1, 2, 4, 6, 8, 10, 12, 14, 15, 17, 19, 21, 23, 25, 27, 28]"

definition bigbyte :: "'l::len word list" where
  "bigbyte = [
     0x800000, 0x400000, 0x200000, 0x100000, 0x80000, 0x40000, 0x20000, 0x10000,
     0x8000, 0x4000, 0x2000, 0x1000, 0x800, 0x400, 0x200, 0x100,
     0x80, 0x40, 0x20, 0x10, 0x8, 0x4, 0x2, 0x1]"

definition SP1 :: "'l::len word list" where
  "SP1 = [
     0x1010400, 0x0, 0x10000, 0x1010404, 0x1010004, 0x10404, 0x4, 0x10000,
     0x400, 0x1010400, 0x1010404, 0x400, 0x1000404, 0x1010004, 0x1000000, 0x4,
     0x404, 0x1000400, 0x1000400, 0x10400, 0x10400, 0x1010000, 0x1010000, 0x1000404,
     0x10004, 0x1000004, 0x1000004, 0x10004, 0x0, 0x404, 0x10404, 0x1000000,
     0x10000, 0x1010404, 0x4, 0x1010000, 0x1010400, 0x1000000, 0x1000000, 0x400,
     0x1010004, 0x10000, 0x10400, 0x1000004, 0x400, 0x4, 0x1000404, 0x10404,
     0x1010404, 0x10004, 0x1010000, 0x1000404, 0x1000004, 0x404, 0x10404, 0x1010400,
     0x404, 0x1000400, 0x1000400, 0x0, 0x10004, 0x10400, 0x0, 0x1010004]"

definition SP2 :: "'l::len word list" where
  "SP2 = [
     0x80108020, 0x80008000, 0x8000, 0x108020, 0x100000, 0x20, 0x80100020, 0x80008020,
     0x80000020, 0x80108020, 0x80108000, 0x80000000, 0x80008000, 0x100000, 0x20, 0x80100020,
     0x108000, 0x100020, 0x80008020, 0x0, 0x80000000, 0x8000, 0x108020, 0x80100000,
     0x100020, 0x80000020, 0x0, 0x108000, 0x8020, 0x80108000, 0x80100000, 0x8020,
     0x0, 0x108020, 0x80100020, 0x100000, 0x80008020, 0x80100000, 0x80108000, 0x8000,
     0x80100000, 0x80008000, 0x20, 0x80108020, 0x108020, 0x20, 0x8000, 0x80000000,
     0x8020, 0x80108000, 0x100000, 0x80000020, 0x100020, 0x80008020, 0x80000020, 0x100020,
     0x108000, 0x0, 0x80008000, 0x8020, 0x80000000, 0x80100020, 0x80108020, 0x108000]"

definition SP3 :: "'l::len word list" where
  "SP3 = [
     0x208, 0x8020200, 0x0, 0x8020008, 0x8000200, 0x0, 0x20208, 0x8000200,
     0x20008, 0x8000008, 0x8000008, 0x20000, 0x8020208, 0x20008, 0x8020000, 0x208,
     0x8000000, 0x8, 0x8020200, 0x200, 0x20200, 0x8020000, 0x8020008, 0x20208,
     0x8000208, 0x20200, 0x20000, 0x8000208, 0x8, 0x8020208, 0x200, 0x8000000,
     0x8020200, 0x8000000, 0x20008, 0x208, 0x20000, 0x8020200, 0x8000200, 0x0,
     0x200, 0x20008, 0x8020208, 0x8000200, 0x8000008, 0x200, 0x0, 0x8020008,
     0x8000208, 0x20000, 0x8000000, 0x8020208, 0x8, 0x20208, 0x20200, 0x8000008,
     0x8020000, 0x8000208, 0x208, 0x8020000, 0x20208, 0x8, 0x8020008, 0x20200]"

definition SP4 :: "'l::len word list" where
  "SP4 = [
     0x802001, 0x2081, 0x2081, 0x80, 0x802080, 0x800081, 0x800001, 0x2001,
     0x0, 0x802000, 0x802000, 0x802081, 0x81, 0x0, 0x800080, 0x800001,
     0x1, 0x2000, 0x800000, 0x802001, 0x80, 0x800000, 0x2001, 0x2080,
     0x800081, 0x1, 0x2080, 0x800080, 0x2000, 0x802080, 0x802081, 0x81,
     0x800080, 0x800001, 0x802000, 0x802081, 0x81, 0x0, 0x0, 0x802000,
     0x2080, 0x800080, 0x800081, 0x1, 0x802001, 0x2081, 0x2081, 0x80,
     0x802081, 0x81, 0x1, 0x2000, 0x800001, 0x2001, 0x802080, 0x800081,
     0x2001, 0x2080, 0x800000, 0x802001, 0x80, 0x800000, 0x2000, 0x802080]"

definition SP5 :: "'l::len word list" where
  "SP5 = [
     0x100, 0x2080100, 0x2080000, 0x42000100, 0x80000, 0x100, 0x40000000, 0x2080000,
     0x40080100, 0x80000, 0x2000100, 0x40080100, 0x42000100, 0x42080000, 0x80100, 0x40000000,
     0x2000000, 0x40080000, 0x40080000, 0x0, 0x40000100, 0x42080100, 0x42080100, 0x2000100,
     0x42080000, 0x40000100, 0x0, 0x42000000, 0x2080100, 0x2000000, 0x42000000, 0x80100,
     0x80000, 0x42000100, 0x100, 0x2000000, 0x40000000, 0x2080000, 0x42000100, 0x40080100,
     0x2000100, 0x40000000, 0x42080000, 0x2080100, 0x40080100, 0x100, 0x20000000, 0x42080000,
     0x42080100, 0x80100, 0x42000000, 0x42080100, 0x2080000, 0x2000100, 0x40000100, 0x80000,
     0x80100, 0x2000100, 0x40000100, 0x80000, 0x0, 0x40080000, 0x2080100, 0x40000100]"

definition SP6 :: "'l::len word list" where
  "SP6 = [
     0x20000010, 0x20400000, 0x4000, 0x20404010, 0x20400000, 0x10, 0x20404010, 0x400000,
     0x20004000, 0x404010, 0x400000, 0x20000010, 0x400010, 0x20004000, 0x20000000, 0x4010,
     0x0, 0x400010, 0x20004010, 0x4000, 0x404000, 0x20004010, 0x10, 0x20400010,
     0x20400010, 0x0, 0x404010, 0x20404000, 0x4010, 0x404000, 0x20404000, 0x20000000,
     0x20004000, 0x10, 0x20400010, 0x404000, 0x20404010, 0x400000, 0x4010, 0x20000010,
     0x400000, 0x20004000, 0x20000000, 0x4010, 0x20000010, 0x20404010, 0x404000, 0x20400000,
     0x404010, 0x20404000, 0x0, 0x20400010, 0x10, 0x4000, 0x20400000, 0x404010,
     0x4000, 0x400010, 0x20004010, 0x0, 0x20404000, 0x20000000, 0x400010, 0x20004010]"

definition SP7 :: "'l::len word list" where
  "SP7 = [
     0x200000, 0x4200002, 0x4000802, 0x0, 0x800, 0x4000802, 0x200802, 0x4200800,
     0x4200802, 0x200000, 0x0, 0x4000002, 0x2, 0x4000000, 0x4200002, 0x802,
     0x4000800, 0x200802, 0x200002, 0x4000800, 0x4000002, 0x4200000, 0x4200800, 0x200002,
     0x4200000, 0x800, 0x802, 0x4200802, 0x200800, 0x2, 0x4000000, 0x200800,
     0x4000000, 0x200800, 0x200000, 0x4000802, 0x4000802, 0x4200002, 0x4200002, 0x2,
     0x200002, 0x4000000, 0x4000800, 0x200000, 0x4200800, 0x802, 0x200802, 0x4200800,
     0x802, 0x4000002, 0x4200802, 0x4200000, 0x200800, 0x0, 0x2, 0x4200802,
     0x0, 0x200802, 0x4200000, 0x800, 0x4000002, 0x4000800, 0x800, 0x200002]"

definition SP8 :: "'l::len word list" where
  "SP8 = [
     0x10001040, 0x1000, 0x40000, 0x10041040, 0x10000000, 0x10001040, 0x40, 0x10000000,
     0x40040, 0x10040000, 0x10041040, 0x41000, 0x10041000, 0x41040, 0x1000, 0x40,
     0x10040000, 0x10000040, 0x10001000, 0x1040, 0x41000, 0x40040, 0x10040040, 0x10041000,
     0x1040, 0x0, 0x0, 0x10040040, 0x10000040, 0x10001000, 0x41040, 0x40000,
     0x41040, 0x40000, 0x10041000, 0x1000, 0x40, 0x10040040, 0x1000, 0x41040,
     0x10001000, 0x40, 0x10000040, 0x10040000, 0x10040040, 0x10000000, 0x40000, 0x10001040,
     0x0, 0x10041040, 0x40040, 0x10000040, 0x10040000, 0x10001000, 0x10001040, 0x0,
     0x10041040, 0x41000, 0x41000, 0x1040, 0x1040, 0x40040, 0x10000000, 0x10041000]"

subsection \<open>Key schedule\<close>

datatype direction = EN0 | DE1

definition pc1m :: "byte list \<Rightarrow> bool list" where
  "pc1m key = map (\<lambda>l. key ! (l div 8) AND bytebit ! (l mod 8) \<noteq> 0) pc1"

definition pcr :: "bool list \<Rightarrow> nat \<Rightarrow> bool list" where
  "pcr pc i =
     map (\<lambda>j. let l = j + totrot ! i in if l < 28 then pc ! l else pc ! (l - 28)) [0..<28] @
     map (\<lambda>j. let l = j + totrot ! i in if l < 56 then pc ! l else pc ! (l - 28)) [28..<56]"

definition kn_word :: "bool list \<Rightarrow> nat \<Rightarrow> 'l::len word" where
  "kn_word p k = foldl (\<lambda>w j. if p ! (pc2 ! (j + k)) then w OR bigbyte ! j else w) 0 [0..<24]"

definition deskey :: "byte list \<Rightarrow> direction \<Rightarrow> 'l::len word list \<Rightarrow> 'l word list" where
  "deskey key edf kn0 =
     foldl (\<lambda>kn i.
       let m = (if edf = DE1 then (15 - i) * 2 else i * 2);
           p = pcr (pc1m key) i in
       kn[m := kn_word p 0, m + 1 := kn_word p 24]) kn0 [0..<16]"

definition cook0 :: "'l::len word \<Rightarrow> 'l word \<Rightarrow> 'l word" where
  "cook0 raw0 raw1 =
     push_bit 6 (raw0 AND 0x00fc0000) OR push_bit 10 (raw0 AND 0x00000fc0) OR
     drop_bit 10 (raw1 AND 0x00fc0000) OR drop_bit 6 (raw1 AND 0x00000fc0)"

definition cook1 :: "'l::len word \<Rightarrow> 'l word \<Rightarrow> 'l word" where
  "cook1 raw0 raw1 =
     push_bit 12 (raw0 AND 0x0003f000) OR push_bit 16 (raw0 AND 0x0000003f) OR
     drop_bit 4 (raw1 AND 0x0003f000) OR (raw1 AND 0x0000003f)"

fun cookey :: "'l::len word list \<Rightarrow> 'l word list" where
  "cookey (raw0 # raw1 # raw) = cook0 raw0 raw1 # cook1 raw0 raw1 # cookey raw"
| "cookey _ = []"

subsection \<open>One block\<close>

definition scrunch :: "byte list \<Rightarrow> 'l::len word \<times> 'l word" where
  "scrunch outof =
     (push_bit 24 (ucast (outof ! 0)) OR push_bit 16 (ucast (outof ! 1)) OR
        push_bit 8 (ucast (outof ! 2)) OR ucast (outof ! 3),
      push_bit 24 (ucast (outof ! 4)) OR push_bit 16 (ucast (outof ! 5)) OR
        push_bit 8 (ucast (outof ! 6)) OR ucast (outof ! 7))"

definition unscrun_word :: "'l::len word \<Rightarrow> byte list" where
  "unscrun_word w =
     [ucast (drop_bit 24 w AND 0xff), ucast (drop_bit 16 w AND 0xff),
      ucast (drop_bit 8 w AND 0xff), ucast (w AND 0xff)]"

definition unscrun :: "'l::len word \<times> 'l word \<Rightarrow> byte list" where
  "unscrun outof = unscrun_word (fst outof) @ unscrun_word (snd outof)"

text \<open>The statement group \<open>work = ((x >> k) ^ y) & m; y ^= work; x ^= work << k\<close>, which
  \<open>desfunc\<close> repeats with the halves in both roles.\<close>

definition swap_step :: "nat \<Rightarrow> 'l::len word \<Rightarrow> 'l word \<times> 'l word \<Rightarrow> 'l word \<times> 'l word" where
  "swap_step k m = (\<lambda>(x, y). let work = (drop_bit k x XOR y) AND m in (x XOR push_bit k work, y XOR work))"

definition rotl1 :: "'l::len word \<Rightarrow> 'l word" where
  "rotl1 x = (push_bit 1 x OR (drop_bit 31 x AND 1)) AND 0xffffffff"

definition rotr1 :: "'l::len word \<Rightarrow> 'l word" where
  "rotr1 x = push_bit 31 x OR drop_bit 1 x"

definition des_ip :: "'l::len word \<times> 'l word \<Rightarrow> 'l word \<times> 'l word" where
  "des_ip block =
    (let (leftt, right) = block;
         (leftt, right) = swap_step 4 0x0f0f0f0f (leftt, right);
         (leftt, right) = swap_step 16 0x0000ffff (leftt, right);
         (right, leftt) = swap_step 2 0x33333333 (right, leftt);
         (right, leftt) = swap_step 8 0x00ff00ff (right, leftt);
         right = rotl1 right;
         (leftt, right) = swap_step 0 0xaaaaaaaa (leftt, right);
         leftt = rotl1 leftt in
     (leftt, right))"

definition des_f :: "'l::len word \<Rightarrow> 'l word \<Rightarrow> 'l word \<Rightarrow> 'l word" where
  "des_f right key0 key1 =
    (let work = (push_bit 28 right OR drop_bit 4 right) XOR key0;
         fval = SP7 ! unat (work AND 0x3f) OR
           SP5 ! unat (drop_bit 8 work AND 0x3f) OR
           SP3 ! unat (drop_bit 16 work AND 0x3f) OR
           SP1 ! unat (drop_bit 24 work AND 0x3f);
         work = right XOR key1 in
     fval OR SP8 ! unat (work AND 0x3f) OR
       SP6 ! unat (drop_bit 8 work AND 0x3f) OR
       SP4 ! unat (drop_bit 16 work AND 0x3f) OR
       SP2 ! unat (drop_bit 24 work AND 0x3f))"

fun des_rounds :: "'l::len word list \<Rightarrow> 'l word \<times> 'l word \<Rightarrow> 'l word \<times> 'l word" where
  "des_rounds (k0 # k1 # k2 # k3 # keys) (leftt, right) =
    (let leftt = leftt XOR des_f right k0 k1;
         right = right XOR des_f leftt k2 k3 in
     des_rounds keys (leftt, right))"
| "des_rounds _ block = block"

definition des_fp :: "'l::len word \<times> 'l word \<Rightarrow> 'l word \<times> 'l word" where
  "des_fp block =
    (let (leftt, right) = block;
         right = rotr1 right;
         (leftt, right) = swap_step 0 0xaaaaaaaa (leftt, right);
         leftt = rotr1 leftt;
         (leftt, right) = swap_step 8 0x00ff00ff (leftt, right);
         (leftt, right) = swap_step 2 0x33333333 (leftt, right);
         (right, leftt) = swap_step 16 0x0000ffff (right, leftt);
         (right, leftt) = swap_step 4 0x0f0f0f0f (right, leftt) in
     (right, leftt))"

definition desfunc :: "'l::len word \<times> 'l word \<Rightarrow> 'l word list \<Rightarrow> 'l word \<times> 'l word" where
  "desfunc block keys = des_fp (des_rounds (take 32 keys) (des_ip block))"

subsection \<open>Keys and blocks as byte arrays\<close>

datatype des_error = EE20 | ERR_FILECONT | Out_Of_Bounds

text \<open>\<open>DES_KEYBYTES\<close> bytes of an \<open>unsigned long\<close> array: that many bytes are copied into the key
  buffer, and from there over the beginning of the local array \<open>ek\<close>.\<close>

definition sizeof_long :: "'l::len itself \<Rightarrow> nat" where
  "sizeof_long _ = LENGTH('l) div 8"

definition key_buffer :: "'l::len word list \<Rightarrow> 'l word list" where
  "key_buffer dough = take (128 div sizeof_long TYPE('l)) dough"

definition OPENCOMM_DesExpandEncKey :: "byte list \<Rightarrow> des_error + 'l::len word list \<times> nat" where
  "OPENCOMM_DesExpandEncKey key =
    (if length key \<noteq> 8 then Inl EE20
     else Inr (key_buffer (cookey (deskey key EN0 (replicate 32 0))), 128))"

definition OPENCOMM_DesExpandDecKey :: "byte list \<Rightarrow> des_error + 'l::len word list \<times> nat" where
  "OPENCOMM_DesExpandDecKey key =
    (if length key \<noteq> 8 then Inl EE20
     else Inr (key_buffer (cookey (deskey key DE1 (replicate 32 0))), 128))"

definition OPENCOMM_DesEncRaw :: "'l::len word list \<Rightarrow> 'l word list \<Rightarrow> nat \<Rightarrow> byte list \<Rightarrow> des_error + byte list" where
  "OPENCOMM_DesEncRaw junk keybuf keylen indata =
    (if length indata \<noteq> 8 then Inl EE20
     else if keylen \<noteq> 128 then Inl EE20
     else Inr (unscrun (desfunc (scrunch indata) (memcpy_at junk 0 keybuf))))"

definition OPENCOMM_DesDecRaw :: "'l::len word list \<Rightarrow> 'l word list \<Rightarrow> nat \<Rightarrow> byte list \<Rightarrow> des_error + byte list" where
  "OPENCOMM_DesDecRaw junk keybuf keylen indata =
    (if length indata \<noteq> 8 then Inl EE20
     else if keylen \<noteq> 128 then Inl EE20
     else Inr (unscrun (desfunc (scrunch indata) (memcpy_at junk 0 keybuf))))"

text \<open>The block loops of \<open>myic_DESEncrypt\<close> and \<open>myic_DESDecrypt\<close>: blocks \<open>i, i + 1, \<dots>\<close> of the input,
  stopping at the first failure. \<open>junk i\<close> is the stale stack contents in the call for block \<open>i\<close>.\<close>

fun block_loop :: "(nat \<Rightarrow> byte list \<Rightarrow> des_error + byte list) \<Rightarrow> nat \<Rightarrow> nat \<Rightarrow> byte list \<Rightarrow> des_error + byte list" where
  "block_loop raw i 0 indata = Inr []"
| "block_loop raw i (Suc loops) indata =
     (case raw i (take 8 indata) of
        Inl e \<Rightarrow> Inl e
      | Inr out \<Rightarrow> (case block_loop raw (i + 1) loops (drop 8 indata) of
            Inl e \<Rightarrow> Inl e
          | Inr outs \<Rightarrow> Inr (out @ outs)))"

definition myic_DESEncrypt :: "(nat \<Rightarrow> 'l::len word list) \<Rightarrow> byte list \<Rightarrow> byte list \<Rightarrow> des_error + byte list" where
  "myic_DESEncrypt junk key indata =
    (if length indata mod 8 \<noteq> 0 then Inl EE20
     else if length key \<noteq> 8 then Inl EE20
     else case OPENCOMM_DesExpandEncKey key of
        Inl e \<Rightarrow> Inl e
      | Inr (keybuf, keylen) \<Rightarrow>
          block_loop (\<lambda>i. OPENCOMM_DesEncRaw (junk i) keybuf keylen) 0 (length indata div 8) indata)"

definition myic_DESDecrypt :: "(nat \<Rightarrow> 'l::len word list) \<Rightarrow> byte list \<Rightarrow> byte list \<Rightarrow> des_error + byte list" where
  "myic_DESDecrypt junk key indata =
    (if length indata mod 8 \<noteq> 0 then Inl EE20
     else if length key \<noteq> 8 then Inl EE20
     else case OPENCOMM_DesExpandDecKey key of
        Inl e \<Rightarrow> Inl e
      | Inr (keybuf, keylen) \<Rightarrow>
          block_loop (\<lambda>i. OPENCOMM_DesDecRaw (junk i) keybuf keylen) 0 (length indata div 8) indata)"

subsection \<open>Padding and the user functions\<close>

text \<open>\<open>alloc\<close> says whether \<open>malloc\<close> succeeds; if it does not, the padded buffer is \<open>NULL\<close> and the
  length stays \<open>0\<close>.\<close>

definition CW_dataPadAdd :: "bool \<Rightarrow> int \<Rightarrow> byte list \<Rightarrow> byte list" where
  "CW_dataPadAdd alloc tag data =
    (if \<not> alloc then []
     else let unit = (if tag = 0 then 8 else 16); padLen = unit - length data mod unit in
       data @ replicate padLen (word_of_nat padLen))"

definition USER_PASSWORD_KEY :: "byte list" where
  "USER_PASSWORD_KEY = [0x61, 0x62, 0x63, 0x64, 0x31, 0x32, 0x33, 0x34]"

definition DesEnc :: "bool \<Rightarrow> (nat \<Rightarrow> 'l::len word list) \<Rightarrow> byte list \<Rightarrow> des_error + byte list" where
  "DesEnc alloc junk indata = myic_DESEncrypt junk USER_PASSWORD_KEY (CW_dataPadAdd alloc 0 indata)"

definition DesEnc_raw :: "(nat \<Rightarrow> 'l::len word list) \<Rightarrow> byte list \<Rightarrow> des_error + byte list" where
  "DesEnc_raw junk indata = myic_DESEncrypt junk USER_PASSWORD_KEY indata"

definition DesDec :: "(nat \<Rightarrow> 'l::len word list) \<Rightarrow> byte list \<Rightarrow> des_error + byte list" where
  "DesDec junk indata =
    (case myic_DESDecrypt junk USER_PASSWORD_KEY indata of
       Inl e \<Rightarrow> Inl e
     | Inr plain \<Rightarrow>
         if plain = [] then Inl Out_Of_Bounds
         else let padChar = sint (last plain) in
           if padChar \<le> 0 \<or> padChar > 8 then Inl ERR_FILECONT
           else Inr (take (length plain - nat padChar) plain))"

definition DesDec_raw :: "(nat \<Rightarrow> 'l::len word list) \<Rightarrow> byte list \<Rightarrow> des_error + byte list" where
  "DesDec_raw junk indata = myic_DESDecrypt junk USER_PASSWORD_KEY indata"

end
