(* ===== verification/DES_Roundtrip.thy ===== *)
theory DES_Roundtrip
  imports DES_Cipher
begin

text \<open>
  Decryption undoes encryption. The bit permutations of \<open>desfunc\<close> are built from exchange steps
  that are their own inverse and from one-bit rotations; the sixteen half rounds form a Feistel
  network, inverted by the same network with the subkeys in reverse order, which is the order in
  which \<open>deskey\<close> stores them for \<open>DE1\<close>. On a platform where \<open>unsigned long\<close> has 32 bits the key
  buffer holds all 32 subkey words, and block loop and padding lift the inverse to whole messages.
\<close>

subsection \<open>The permutations are invertible\<close>

lemma swap_step_twice:
  fixes m :: "'l::len word"
  assumes "take_bit (LENGTH('l) - k) m = m"
  shows "swap_step k m (swap_step k m p) = p"
proof (cases p)
  case (Pair x y)
  have m: "bit m n \<Longrightarrow> n + k < LENGTH('l)" for n
  proof -
    assume "bit m n"
    with assms have "bit (take_bit (LENGTH('l) - k) m) n" by simp
    then have "n < LENGTH('l) - k" by (simp only: bit_take_bit_iff)
    then show ?thesis by simp
  qed
  define work where "work = (drop_bit k x XOR y) AND m"
  have again: "(drop_bit k (x XOR push_bit k work) XOR (y XOR work)) AND m = work"
    by (rule bit_word_eqI) (use m in \<open>auto simp: work_def bit_simps add.commute\<close>)
  have "swap_step k m p = (x XOR push_bit k work, y XOR work)"
    by (simp add: Pair swap_step_def work_def Let_def)
  moreover have "swap_step k m (x XOR push_bit k work, y XOR work) = p"
    unfolding swap_step_def split Let_def again by (simp add: Pair xor.assoc)
  ultimately show ?thesis by simp
qed

lemma bit_rotl1: "n < 32 \<Longrightarrow> bit (rotl1 x) n \<longleftrightarrow> bit x (if n = 0 then 31 else n - 1)" for x :: u32
  by (cases n) (simp_all only: rotl1_def mask_32 bit_simps, auto simp: bit_simps)

lemma bit_rotr1: "n < 32 \<Longrightarrow> bit (rotr1 x) n \<longleftrightarrow> bit x (if n = 31 then 0 else n + 1)" for x :: u32
  using bit_imp_le_length [of x] by (auto simp: rotr1_def bit_simps)

lemma rotl1_rotr1 [simp]: "rotl1 (rotr1 x) = x" for x :: u32
  by (rule bit_word_eqI) (auto simp: bit_rotl1 bit_rotr1)

lemma rotr1_rotl1 [simp]: "rotr1 (rotl1 x) = x" for x :: u32
  by (rule bit_word_eqI) (auto simp: bit_rotl1 bit_rotr1)

lemma swap_steps_twice:
  fixes p :: "u32 \<times> u32"
  shows "swap_step 4 0x0f0f0f0f (swap_step 4 0x0f0f0f0f p) = p"
    and "swap_step 16 0x0000ffff (swap_step 16 0x0000ffff p) = p"
    and "swap_step 2 0x33333333 (swap_step 2 0x33333333 p) = p"
    and "swap_step 8 0x00ff00ff (swap_step 8 0x00ff00ff p) = p"
    and "swap_step 0 0xaaaaaaaa (swap_step 0 0xaaaaaaaa p) = p"
  by (simp_all add: swap_step_twice)

lemma swap_step_0_swap: "swap_step 0 m (snd q, fst q) = prod.swap (swap_step 0 m q)"
  by (simp add: swap_step_def split_beta Let_def ac_simps)

lemma des_ip_fp: "des_ip (des_fp p) = prod.swap p" for p :: "u32 \<times> u32"
  by (simp add: des_ip_def des_fp_def split_beta Let_def swap_steps_twice swap_step_0_swap prod.swap_def)

lemma des_fp_ip: "des_fp (prod.swap (des_ip p)) = p" for p :: "u32 \<times> u32"
  by (simp add: des_ip_def des_fp_def split_beta Let_def swap_steps_twice swap_step_0_swap prod.swap_def)

subsection \<open>Rounds\<close>

fun unpair :: "('a \<times> 'a) list \<Rightarrow> 'a list" where
  "unpair [] = []"
| "unpair ((a, b) # ps) = a # b # unpair ps"

text \<open>One half round, with the roles of the halves exchanged afterwards.\<close>

definition feistel :: "'l::len word \<times> 'l word \<Rightarrow> 'l word \<times> 'l word \<Rightarrow> 'l word \<times> 'l word" where
  "feistel = (\<lambda>(l, r) (k0, k1). (r, l XOR des_f r k0 k1))"

lemma des_rounds_feistel:
  "even (length ps) \<Longrightarrow> des_rounds (unpair ps) b = foldl feistel b ps"
proof (induction "length ps" arbitrary: ps b rule: less_induct)
  case less
  show ?case
  proof (cases ps)
    case (Cons p ps')
    with less.prems obtain q ps'' where "ps' = q # ps''" by (cases ps') auto
    with Cons less show ?thesis
      by (cases p; cases q; cases b) (simp add: feistel_def Let_def)
  qed simp
qed

lemma feistel_inverse: "feistel (prod.swap (feistel b k)) k = prod.swap b"
  by (simp add: feistel_def split_beta xor.assoc prod.swap_def)

lemma feistel_network_inverse: "foldl feistel (prod.swap (foldl feistel b ks)) (rev ks) = prod.swap b"
  by (induction ks arbitrary: b) (simp_all add: feistel_inverse)

lemma length_unpair: "length (unpair ps) = 2 * length ps"
  by (induction ps rule: unpair.induct) simp_all

lemma desfunc_inverse:
  fixes b :: "u32 \<times> u32"
  assumes "length ps = 16"
  shows "desfunc (desfunc b (unpair ps)) (unpair (rev ps)) = b"
  using assms by (simp add: desfunc_def des_rounds_feistel length_unpair des_ip_fp
      feistel_network_inverse des_fp_ip)

subsection \<open>Bytes and half blocks\<close>

lemma length_8_cases:
  "length xs = 8 \<Longrightarrow> \<exists>a b c d e f g h. xs = [a, b, c, d, e, f, g, h]"
  by (auto simp: eval_nat_numeral length_Suc_conv)

lemma unscrun_word_bytes:
  "unscrun_word (push_bit 24 (ucast a) OR push_bit 16 (ucast b) OR push_bit 8 (ucast c) OR ucast d :: u32) =
    [a, b, c, d]" for a b c d :: byte
proof -
  have "ucast (drop_bit 24 (push_bit 24 (ucast a) OR push_bit 16 (ucast b) OR push_bit 8 (ucast c) OR ucast d :: u32)) = a"
    by (rule bit_word_eqI) (simp add: bit_simps bit_byte_high)
  moreover have "ucast (drop_bit 16 (push_bit 24 (ucast a) OR push_bit 16 (ucast b) OR push_bit 8 (ucast c) OR ucast d :: u32)) = b"
    by (rule bit_word_eqI) (simp add: bit_simps bit_byte_high)
  moreover have "ucast (drop_bit 8 (push_bit 24 (ucast a) OR push_bit 16 (ucast b) OR push_bit 8 (ucast c) OR ucast d :: u32)) = c"
    by (rule bit_word_eqI) (simp add: bit_simps bit_byte_high)
  moreover have "ucast (push_bit 24 (ucast a) OR push_bit 16 (ucast b) OR push_bit 8 (ucast c) OR ucast d :: u32) = d"
    by (rule bit_word_eqI) (simp add: bit_simps bit_byte_high)
  ultimately show ?thesis by (simp only: unscrun_word_def low_byte)
qed

lemma unscrun_scrunch: "length b = 8 \<Longrightarrow> unscrun (scrunch b :: u32 \<times> u32) = b"
  by (drule length_8_cases) (auto simp: unscrun_def scrunch_def unscrun_word_bytes)

lemma scrunch_word:
  "push_bit 24 (ucast (ucast (drop_bit 24 w AND 0xff) :: byte)) OR
   push_bit 16 (ucast (ucast (drop_bit 16 w AND 0xff) :: byte)) OR
   push_bit 8 (ucast (ucast (drop_bit 8 w AND 0xff) :: byte)) OR
   ucast (ucast (w AND 0xff) :: byte) = w" for w :: u32
proof (rule bit_word_eqI)
  fix n assume "n < LENGTH(32)"
  then consider "n < 8" | "8 \<le> n \<and> n < 16" | "16 \<le> n \<and> n < 24" | "24 \<le> n \<and> n < 32" by fastforce
  then show "bit (push_bit 24 (ucast (ucast (drop_bit 24 w AND 0xff) :: byte)) OR
     push_bit 16 (ucast (ucast (drop_bit 16 w AND 0xff) :: byte)) OR
     push_bit 8 (ucast (ucast (drop_bit 8 w AND 0xff) :: byte)) OR
     ucast (ucast (w AND 0xff) :: byte) :: u32) n = bit w n"
    by cases (simp_all only: mask_8 bit_simps, auto)
qed

lemma scrunch_unscrun: "scrunch (unscrun p) = p" for p :: "u32 \<times> u32"
  by (cases p) (simp only: scrunch_def unscrun_def unscrun_word_def fst_conv snd_conv append.simps
      nth_Cons_numeral nth_Cons_0 diff_numeral_special diff_numeral_simps nth_Cons_pos scrunch_word, simp add: scrunch_word)

subsection \<open>The key schedule\<close>

lemma even_unpair: "even (length xs) \<Longrightarrow> \<exists>ps. xs = unpair ps \<and> length xs = 2 * length ps"
proof (induction "length xs" arbitrary: xs rule: less_induct)
  case less
  show ?case
  proof (cases xs)
    case Nil
    then show ?thesis by (intro exI [of _ "[]"]) simp
  next
    case (Cons a ys)
    with less.prems obtain b zs where ys: "ys = b # zs" by (cases ys) auto
    obtain ps where "zs = unpair ps" "length zs = 2 * length ps"
      using less.hyps [of zs] less.prems Cons ys by auto
    with Cons ys show ?thesis by (intro exI [of _ "(a, b) # ps"]) simp
  qed
qed

lemma unpair_update: "(unpair ps)[2 * j := a, Suc (2 * j) := b] = unpair (ps[j := (a, b)])"
proof (induction ps arbitrary: j rule: unpair.induct)
  case (2 x y ps)
  then show ?case by (cases j) simp_all
qed simp

lemma updates_upwards:
  "k \<le> length ps \<Longrightarrow> foldl (\<lambda>ps i. ps[i := c i]) ps [0..<k] = map c [0..<k] @ drop k ps"
  by (induction k) (auto simp: list_update_append Cons_nth_drop_Suc [symmetric])

lemma updates_downwards:
  "k \<le> length ps \<Longrightarrow>
   foldl (\<lambda>ps i. ps[length ps - 1 - i := c i]) ps [0..<k] = take (length ps - k) ps @ rev (map c [0..<k])"
proof (induction k)
  case (Suc k)
  define n where "n = length ps - Suc k"
  have n: "n < length ps" "length ps - k = Suc n" using Suc.prems by (auto simp: n_def)
  have "(take (Suc n) ps @ rev (map c [0..<k]))[n := c k] = take n ps @ c k # rev (map c [0..<k])"
    using n by (simp add: list_update_append take_Suc_conv_app_nth)
  moreover have "length (take (Suc n) ps @ rev (map c [0..<k])) - 1 - k = n"
    using n Suc.prems by (simp add: n_def)
  ultimately show ?case using Suc n by (simp del: take_Suc add: n_def [symmetric])
qed simp

definition subkeys :: "byte list \<Rightarrow> ('l::len word \<times> 'l word) list" where
  "subkeys key = map (\<lambda>i. (kn_word (pcr (pc1m key) i) 0, kn_word (pcr (pc1m key) i) 24)) [0..<16]"

lemma length_subkeys [simp]: "length (subkeys key) = 16"
  by (simp add: subkeys_def)

lemma foldl_unpair:
  "foldl (\<lambda>kn i. kn[2 * p i := a i, Suc (2 * p i) := b i]) (unpair ps) is =
   unpair (foldl (\<lambda>ps i. ps[p i := (a i, b i)]) ps is)"
  by (induction "is" arbitrary: ps) (simp_all add: unpair_update)

lemma foldl_fixed_length:
  "length ps = n \<Longrightarrow> foldl (\<lambda>ps i. ps[n - 1 - i := c i]) ps is = foldl (\<lambda>ps i. ps[length ps - 1 - i := c i]) ps is"
  by (induction "is" arbitrary: ps) simp_all

lemma deskey_EN0:
  assumes "length kn0 = 32"
  shows "deskey key EN0 kn0 = unpair (subkeys key)"
proof -
  obtain ps where ps: "kn0 = unpair ps" "length ps = 16" using even_unpair [of kn0] assms by auto
  have "deskey key EN0 kn0 = unpair (foldl (\<lambda>ps i. ps[i := (kn_word (pcr (pc1m key) i) 0, kn_word (pcr (pc1m key) i) 24)]) ps [0..<16])"
    using foldl_unpair [where p = "\<lambda>i. i"]
    by (simp add: deskey_def Let_def ps mult.commute)
  also have "\<dots> = unpair (subkeys key)"
    by (subst updates_upwards) (simp_all add: ps subkeys_def)
  finally show ?thesis .
qed

lemma deskey_DE1:
  assumes "length kn0 = 32"
  shows "deskey key DE1 kn0 = unpair (rev (subkeys key))"
proof -
  obtain ps where ps: "kn0 = unpair ps" "length ps = 16" using even_unpair [of kn0] assms by auto
  have "deskey key DE1 kn0 = unpair (foldl (\<lambda>ps i. ps[16 - 1 - i := (kn_word (pcr (pc1m key) i) 0, kn_word (pcr (pc1m key) i) 24)]) ps [0..<16])"
    using foldl_unpair [where p = "\<lambda>i. 15 - i"]
    by (simp add: deskey_def Let_def ps mult.commute)
  also have "\<dots> = unpair (rev (subkeys key))"
    unfolding foldl_fixed_length [OF ps(2)]
    by (subst updates_downwards) (simp_all add: ps subkeys_def)
  finally show ?thesis .
qed

lemma cookey_unpair: "cookey (unpair ps) = unpair (map (\<lambda>(a, b). (cook0 a b, cook1 a b)) ps)"
  by (induction ps rule: unpair.induct) simp_all

lemma key_buffer_32: "length dough = 32 \<Longrightarrow> key_buffer dough = dough" for dough :: "u32 list"
  by (simp add: key_buffer_def sizeof_long_def)

lemma key_array_32: "length src = 32 \<Longrightarrow> desfunc b (memcpy_at junk 0 src) = desfunc b src"
  by (simp add: desfunc_def memcpy_at_def)

definition cooked :: "byte list \<Rightarrow> (u32 \<times> u32) list" where
  "cooked key = map (\<lambda>(a, b). (cook0 a b, cook1 a b)) (subkeys key)"

lemma length_cooked [simp]: "length (cooked key) = 16"
  by (simp add: cooked_def)

lemma expand_keys_32:
  assumes "length key = 8"
  shows "OPENCOMM_DesExpandEncKey key = Inr (unpair (cooked key), 128)"
    and "OPENCOMM_DesExpandDecKey key = Inr (unpair (rev (cooked key)), 128)"
  using assms
  by (simp_all add: OPENCOMM_DesExpandEncKey_def OPENCOMM_DesExpandDecKey_def deskey_EN0 deskey_DE1
      cookey_unpair key_buffer_32 length_unpair rev_map cooked_def)

subsection \<open>Block ciphers in a loop\<close>

text \<open>What the block loops need of the raw block functions: on an 8-byte block both succeed and the
  second undoes the first. \<open>i\<close> and \<open>j\<close> are positions of the block, on which the stale stack contents
  may depend.\<close>

locale block_cipher =
  fixes enc_raw dec_raw :: "nat \<Rightarrow> byte list \<Rightarrow> des_error + byte list"
  assumes raw_inverse: "length b = 8 \<Longrightarrow> \<exists>c. enc_raw i b = Inr c \<and> length c = 8 \<and> dec_raw j c = Inr b"
begin

lemma loop_inverse:
  "length data = 8 * n \<Longrightarrow>
   \<exists>c. block_loop enc_raw i n data = Inr c \<and> length c = length data \<and> block_loop dec_raw j n c = Inr data"
proof (induction n arbitrary: i j data)
  case (Suc n)
  obtain c where c: "enc_raw i (take 8 data) = Inr c" "length c = 8" "dec_raw j c = Inr (take 8 data)"
    using raw_inverse [of "take 8 data" i j] Suc.prems by auto
  obtain cs where cs: "block_loop enc_raw (i + 1) n (drop 8 data) = Inr cs"
    "length cs = length (drop 8 data)" "block_loop dec_raw (j + 1) n cs = Inr (drop 8 data)"
    using Suc.IH [of "drop 8 data" "i + 1" "j + 1"] Suc.prems by auto
  from c cs Suc.prems show ?case by (intro exI [of _ "c @ cs"]) simp
qed simp

end

interpretation des32: block_cipher
  "\<lambda>i. OPENCOMM_DesEncRaw (junk i) (unpair (cooked key)) 128"
  "\<lambda>i. OPENCOMM_DesDecRaw (junk' i) (unpair (rev (cooked key))) 128"
  for junk junk' :: "nat \<Rightarrow> u32 list" and key
proof
  fix b :: "byte list" and i j
  assume b: "length b = 8"
  let ?c = "unscrun (desfunc (scrunch b) (unpair (cooked key)))"
  have "length ?c = 8" by (simp add: unscrun_def unscrun_word_def)
  moreover have "unscrun (desfunc (scrunch ?c) (unpair (rev (cooked key)))) = b"
    by (simp add: scrunch_unscrun desfunc_inverse unscrun_scrunch b)
  ultimately show "\<exists>c. OPENCOMM_DesEncRaw (junk i) (unpair (cooked key)) 128 b = Inr c \<and> length c = 8 \<and>
      OPENCOMM_DesDecRaw (junk' j) (unpair (rev (cooked key))) 128 c = Inr b"
    using b by (simp add: OPENCOMM_DesEncRaw_def OPENCOMM_DesDecRaw_def key_array_32 length_unpair)
qed

lemma DES_inverse_32:
  fixes junk junk' :: "nat \<Rightarrow> u32 list"
  assumes "length key = 8" and "8 dvd length data"
  shows "\<exists>c. myic_DESEncrypt junk key data = Inr c \<and> length c = length data \<and>
    myic_DESDecrypt junk' key c = Inr data"
proof -
  obtain n where n: "length data = 8 * n" using assms(2) by (auto elim: dvdE)
  obtain c where "myic_DESEncrypt junk key data = Inr c" "length c = length data"
    "myic_DESDecrypt junk' key c = Inr data"
    using des32.loop_inverse [OF n, of junk key 0 junk' 0] assms(1) n
    by (auto simp: myic_DESEncrypt_def myic_DESDecrypt_def expand_keys_32)
  then show ?thesis by blast
qed

subsection \<open>Padding\<close>

lemma padded_dvd: "8 dvd length (CW_dataPadAdd True 0 data)"
proof -
  have "length data mod 8 < 8" by simp
  then have "length data + (8 - length data mod 8) = 8 * (length data div 8) + 8"
    by (metis add.assoc le_add_diff_inverse less_imp_le mult_div_mod_eq)
  then show ?thesis by (simp add: CW_dataPadAdd_def Let_def)
qed

lemma unpad:
  "\<exists>k. 0 < k \<and> k \<le> 8 \<and> last (CW_dataPadAdd True 0 data) = word_of_nat k \<and>
     CW_dataPadAdd True 0 data \<noteq> [] \<and>
     take (length (CW_dataPadAdd True 0 data) - k) (CW_dataPadAdd True 0 data) = data"
  by (rule exI [of _ "8 - length data mod 8"]) (simp add: CW_dataPadAdd_def Let_def)

lemma sint_pad: "0 < k \<Longrightarrow> k \<le> 8 \<Longrightarrow> sint (word_of_nat k :: byte) = int k"
  by (cases "k = 8") (use less_8_cases [of k] in auto)

lemma DesDec_DesEnc_32:
  fixes junk junk' :: "nat \<Rightarrow> u32 list"
  shows "\<exists>c. DesEnc True junk data = Inr c \<and> DesDec junk' c = Inr data"
proof -
  obtain c where "DesEnc True junk data = Inr c"
    and dec: "myic_DESDecrypt junk' USER_PASSWORD_KEY c = Inr (CW_dataPadAdd True 0 data)"
    using DES_inverse_32 [of USER_PASSWORD_KEY "CW_dataPadAdd True 0 data" junk junk'] padded_dvd
    by (auto simp: DesEnc_def USER_PASSWORD_KEY_def)
  moreover have "DesDec junk' c = Inr data"
    using unpad [of data] by (auto simp: DesDec_def dec Let_def sint_pad)
  ultimately show ?thesis by blast
qed

subsection \<open>DES as a codec, and under Base64\<close>

definition des_ciphertext :: "(nat \<Rightarrow> u32 list) \<Rightarrow> byte list \<Rightarrow> byte list" where
  "des_ciphertext junk data = (case DesEnc True junk data of Inr c \<Rightarrow> c | Inl _ \<Rightarrow> [])"

definition des_plaintext :: "(nat \<Rightarrow> u32 list) \<Rightarrow> byte list \<Rightarrow> byte list option" where
  "des_plaintext junk c = (case DesDec junk c of Inr p \<Rightarrow> Some p | Inl _ \<Rightarrow> None)"

interpretation des: codec "des_ciphertext junk" "des_plaintext junk'" "\<lambda>_. True" for junk junk'
proof
  fix p
  obtain c where "DesEnc True junk p = Inr c" "DesDec junk' c = Inr p"
    using DesDec_DesEnc_32 by blast
  then show "des_plaintext junk' (des_ciphertext junk p) = Some p"
    by (simp add: des_ciphertext_def des_plaintext_def)
qed

interpretation des_b64: codec_chain "des_ciphertext junk" "des_plaintext junk'" "\<lambda>_. True"
  base64_encode base64_decode "\<lambda>_. True" for junk junk'
  by unfold_locales simp

text \<open>C9: with a 32-bit \<open>unsigned long\<close>, \<open>DesEnc\<close> succeeds on every input and \<open>DesDec\<close> of its
  output returns exactly that input; neither the stale stack contents at encryption nor those at
  decryption matter. The proof covers padding, block loop, key schedule in both directions, the
  sixteen rounds and the initial and final permutation.\<close>

theorem des_roundtrip:
  fixes junk junk' :: "nat \<Rightarrow> 32 word list"
  shows "\<exists>c. DesEnc True junk data = Inr c \<and> DesDec junk' c = Inr data"
  by (rule DesDec_DesEnc_32)


end
