(* ===== verification/DES_Width.thy ===== *)
theory DES_Width
  imports DES_Roundtrip
begin

text \<open>
  What the width of \<open>unsigned long\<close> and the contents of the tables mean for the cipher. With 64-bit
  words the block function still computes the 32-bit one on the low halves, but the 128-byte key
  buffer holds only 16 of the 32 subkey words. The second part compares the combined tables
  \<open>SP1 \<dots> SP8\<close> with the S-boxes and the permutation of the published standard (FIPS 46-3).
\<close>

subsection \<open>Sixty-four bit \<open>unsigned long\<close>\<close>

abbreviation low :: "64 word \<times> 64 word \<Rightarrow> u32 \<times> u32" where
  "low \<equiv> map_prod ucast ucast"

definition small :: "64 word \<Rightarrow> bool" where
  "small x \<longleftrightarrow> (\<forall>n \<ge> 32. \<not> bit x n)"

lemma low_swap_step:
  assumes "take_bit (32 - k) m = m"
  shows "low (swap_step k m p) = swap_step k (ucast m) (low p)"
proof -
  have m: "bit m n \<Longrightarrow> n + k < 32" for n
  proof -
    assume "bit m n"
    with assms have "bit (take_bit (32 - k) m) n" by simp
    then have "n < 32 - k" by (simp only: bit_take_bit_iff)
    then show ?thesis by simp
  qed
  obtain x y where p: "p = (x, y)" by (cases p)
  define w where "w = (drop_bit k x XOR y) AND m"
  have uw: "ucast w = (drop_bit k (ucast x) XOR ucast y) AND (ucast m :: u32)"
    by (rule bit_word_eqI) (simp add: w_def bit_simps add.commute [of k], meson m)
  have pw: "ucast (push_bit k w) = push_bit k (ucast w :: u32)"
    by (rule bit_word_eqI) (auto simp: bit_simps)
  show ?thesis
    unfolding p swap_step_def split Let_def map_prod_simp w_def [symmetric] uw [symmetric]
    by (simp only: unsigned_xor_eq pw)
qed
lemma low_rotl1: "ucast (rotl1 x) = rotl1 (ucast x :: u32)" for x :: "64 word"
  by (rule bit_word_eqI) (simp only: rotl1_def mask_32 bit_simps, auto simp: bit_simps)

lemma small_rotl1: "small (rotl1 x)"
  by (simp add: small_def rotl1_def mask_32 bit_simps del: One_nat_def)

lemma low_rotr1: "small x \<Longrightarrow> ucast (rotr1 x) = rotr1 (ucast x :: u32)"
  by (rule bit_word_eqI) (simp only: rotr1_def bit_simps, auto simp: bit_simps small_def)

lemma small_xor: "small x \<Longrightarrow> small y \<Longrightarrow> small (x XOR y)"
  and small_or: "small x \<Longrightarrow> small y \<Longrightarrow> small (x OR y)"
  and small_and: "small y \<Longrightarrow> small (x AND y)"
  by (auto simp: small_def bit_simps)

lemma small_ucast: "small (ucast x)" for x :: u32
  by (auto simp: small_def bit_simps dest: bit_imp_le_length)

lemma SP_tables_64:
  "(SP1 :: 64 word list) = map ucast (SP1 :: u32 list)" "(SP2 :: 64 word list) = map ucast (SP2 :: u32 list)"
  "(SP3 :: 64 word list) = map ucast (SP3 :: u32 list)" "(SP4 :: 64 word list) = map ucast (SP4 :: u32 list)"
  "(SP5 :: 64 word list) = map ucast (SP5 :: u32 list)" "(SP6 :: 64 word list) = map ucast (SP6 :: u32 list)"
  "(SP7 :: 64 word list) = map ucast (SP7 :: u32 list)" "(SP8 :: 64 word list) = map ucast (SP8 :: u32 list)"
  by (simp_all add: SP1_def SP2_def SP3_def SP4_def SP5_def SP6_def SP7_def SP8_def)

lemma low_index:
  "s + 6 \<le> 32 \<Longrightarrow> unat (drop_bit s w AND 0x3f) = unat (drop_bit s (ucast w :: u32) AND 0x3f)"
  for w :: "64 word"
  by (rule bit_eqI) (auto simp: mask_6 bit_simps bit_unsigned_iff)

lemma low_index_0: "unat (w AND 0x3f) = unat ((ucast w :: u32) AND 0x3f)" for w :: "64 word"
  by (rule bit_eqI) (auto simp: mask_6 bit_simps bit_unsigned_iff)

lemma index_64: "unat (w AND 0x3f) < 64" for w :: u32
  by (rule mask_less) simp

lemma SP_lengths: "length (SP1 :: u32 list) = 64" "length (SP2 :: u32 list) = 64"
  "length (SP3 :: u32 list) = 64" "length (SP4 :: u32 list) = 64"
  "length (SP5 :: u32 list) = 64" "length (SP6 :: u32 list) = 64"
  "length (SP7 :: u32 list) = 64" "length (SP8 :: u32 list) = 64"
  by (simp_all add: SP1_def SP2_def SP3_def SP4_def SP5_def SP6_def SP7_def SP8_def)

lemma low_SP:
  fixes w :: u32
  shows "(SP1 :: 64 word list) ! unat (w AND 0x3f) = ucast ((SP1 :: u32 list) ! unat (w AND 0x3f))"
    and "(SP2 :: 64 word list) ! unat (w AND 0x3f) = ucast ((SP2 :: u32 list) ! unat (w AND 0x3f))"
    and "(SP3 :: 64 word list) ! unat (w AND 0x3f) = ucast ((SP3 :: u32 list) ! unat (w AND 0x3f))"
    and "(SP4 :: 64 word list) ! unat (w AND 0x3f) = ucast ((SP4 :: u32 list) ! unat (w AND 0x3f))"
    and "(SP5 :: 64 word list) ! unat (w AND 0x3f) = ucast ((SP5 :: u32 list) ! unat (w AND 0x3f))"
    and "(SP6 :: 64 word list) ! unat (w AND 0x3f) = ucast ((SP6 :: u32 list) ! unat (w AND 0x3f))"
    and "(SP7 :: 64 word list) ! unat (w AND 0x3f) = ucast ((SP7 :: u32 list) ! unat (w AND 0x3f))"
    and "(SP8 :: 64 word list) ! unat (w AND 0x3f) = ucast ((SP8 :: u32 list) ! unat (w AND 0x3f))"
  by (simp_all add: SP_tables_64 index_64 SP_lengths)

lemma low_ucast [simp]: "ucast (ucast x :: 64 word) = x" for x :: u32
  by (rule bit_word_eqI) (auto simp: bit_simps)

lemma low_des_f:
  assumes "small r"
  shows "des_f r k0 k1 = ucast (des_f (ucast r :: u32) (ucast k0) (ucast k1))"
proof -
  define work where "work = (push_bit 28 r OR drop_bit 4 r) XOR k0"
  have rot: "ucast work = (push_bit 28 (ucast r) OR drop_bit 4 (ucast r)) XOR (ucast k0 :: u32)"
    by (rule bit_word_eqI) (use assms in \<open>auto simp: work_def bit_simps small_def\<close>)
  have idx: "unat (drop_bit 8 w AND 0x3f) = unat (drop_bit 8 (ucast w :: u32) AND 0x3f)"
    "unat (drop_bit 16 w AND 0x3f) = unat (drop_bit 16 (ucast w :: u32) AND 0x3f)"
    "unat (drop_bit 24 w AND 0x3f) = unat (drop_bit 24 (ucast w :: u32) AND 0x3f)" for w :: "64 word"
    by (rule low_index, simp)+
  show ?thesis
    unfolding des_f_def Let_def work_def [symmetric] rot [symmetric] unsigned_xor_eq [symmetric]
    unfolding idx low_index_0 [of work] low_index_0 [of "r XOR k1"] low_SP by (simp only: unsigned_or_eq)
qed

lemma low_rounds:
  assumes "small (fst b)" "small (snd b)"
  shows "small (fst (des_rounds keys b)) \<and> small (snd (des_rounds keys b)) \<and>
    low (des_rounds keys b) = des_rounds (map ucast keys) (low b)"
  using assms
proof (induction keys b rule: des_rounds.induct)
  case (1 k0 k1 k2 k3 keys l r)
  define l' where "l' = l XOR des_f r k0 k1"
  define r' where "r' = r XOR des_f l' k2 k3"
  have l': "small l'" "ucast l' = ucast l XOR des_f (ucast r :: u32) (ucast k0) (ucast k1)"
    using "1.prems" unfolding l'_def by (simp_all add: low_des_f small_xor small_ucast unsigned_xor_eq)
  then have r': "small r'" "ucast r' = ucast r XOR des_f (ucast l' :: u32) (ucast k2) (ucast k3)"
    using "1.prems" unfolding r'_def by (simp_all add: low_des_f small_xor small_ucast unsigned_xor_eq)
  have "des_rounds (k0 # k1 # k2 # k3 # keys) (l, r) = des_rounds keys (l', r')"
    by (simp add: l'_def r'_def Let_def)
  moreover have "des_rounds (map ucast (k0 # k1 # k2 # k3 # keys)) (low (l, r)) =
      des_rounds (map ucast keys) (ucast l' :: u32, ucast r')"
    by (simp add: l'(2) r'(2) Let_def)
  moreover have "small (fst (des_rounds keys (l', r'))) \<and> small (snd (des_rounds keys (l', r'))) \<and>
    low (des_rounds keys (l', r')) = des_rounds (map ucast keys) (low (l', r'))"
    using "1.IH" [OF l'_def r'_def] l'(1) r'(1) by simp
  ultimately show ?case by simp
qed auto

lemma low_scrunch: "low (scrunch b) = scrunch b"
  by (simp add: scrunch_def) (auto intro!: bit_word_eqI simp: bit_simps)

lemma unscrun_low: "unscrun (low p) = unscrun p"
proof -
  have "unscrun_word (ucast w :: u32) = unscrun_word w" for w :: "64 word"
    by (simp add: unscrun_word_def mask_8) (auto intro!: bit_word_eqI simp: bit_simps)
  then show ?thesis by (simp add: unscrun_def)
qed

lemma low_swap_steps:
  fixes p :: "64 word \<times> 64 word"
  shows "swap_step 4 0x0f0f0f0f (low p) = low (swap_step 4 0x0f0f0f0f p)"
    and "swap_step 16 0x0000ffff (low p) = low (swap_step 16 0x0000ffff p)"
    and "swap_step 2 0x33333333 (low p) = low (swap_step 2 0x33333333 p)"
    and "swap_step 8 0x00ff00ff (low p) = low (swap_step 8 0x00ff00ff p)"
    and "swap_step 0 0xaaaaaaaa (low p) = low (swap_step 0 0xaaaaaaaa p)"
  by (simp_all add: low_swap_step)

lemmas low_swap_pairs = low_swap_steps [of "(x, y)" for x y, unfolded map_prod_simp]

lemma small_swap_0:
  assumes "small x"
  shows "small (fst (swap_step 0 0xaaaaaaaa (x, y)))" and "small (snd (swap_step 0 0xaaaaaaaa (y, x)))"
proof -
  have "0xaaaaaaaa = (ucast (0xaaaaaaaa :: u32) :: 64 word)" by simp
  then have "small 0xaaaaaaaa" by (simp only: small_ucast)
  then show "small (fst (swap_step 0 0xaaaaaaaa (x, y)))" "small (snd (swap_step 0 0xaaaaaaaa (y, x)))"
    using assms by (simp_all add: swap_step_def Let_def small_xor small_and)
qed

lemma low_ip:
  "small (fst (des_ip b)) \<and> small (snd (des_ip b)) \<and> low (des_ip b) = des_ip (low b)"
proof (cases b)
  case (Pair l r)
  then show ?thesis
    by (simp add: des_ip_def split_beta Let_def low_swap_steps low_swap_pairs small_rotl1 small_swap_0 low_rotl1
        flip: low_rotl1)
qed

lemma low_fp:
  assumes "small l" "small r"
  shows "low (des_fp (l, r)) = des_fp (ucast l, ucast r)"
  using assms
  by (simp add: des_fp_def split_beta Let_def low_swap_steps low_swap_pairs small_swap_0 flip: low_rotr1)

lemma desfunc_64: "low (desfunc b keys) = desfunc (low b) (map ucast keys)"
proof -
  obtain l r where ip: "des_ip b = (l, r)" by (cases "des_ip b")
  obtain l' r' where rd: "des_rounds (take 32 keys) (l, r) = (l', r')"
    by (cases "des_rounds (take 32 keys) (l, r)")
  show ?thesis
    using low_ip [of b] low_rounds [of "(l, r)" "take 32 keys"]
    by (simp add: desfunc_def ip rd low_fp take_map)
qed

lemma block_64:
  "unscrun (desfunc (scrunch b) keys) = unscrun (desfunc (scrunch b) (map (ucast :: 64 word \<Rightarrow> u32) keys))"
  by (metis unscrun_low desfunc_64 low_scrunch)

subsection \<open>The key buffer\<close>

lemma key_buffer_64: "key_buffer dough = take 16 dough" for dough :: "64 word list"
  by (simp add: key_buffer_def sizeof_long_def)

lemma des_f_rotated:
  "des_f r (push_bit 28 r OR drop_bit 4 r) r \<noteq> des_f r ((push_bit 28 r OR drop_bit 4 r) XOR 1) r" for r :: u32
proof -
  let ?k = "push_bit 28 r OR drop_bit 4 r"
  have "?k XOR (?k XOR 1) = 1" by (simp add: xor.assoc [symmetric])
  then show ?thesis
    by (simp add: des_f_def Let_def SP1_def SP2_def SP3_def SP4_def SP5_def SP6_def SP7_def SP8_def)
qed

lemma unscrun_inj: "unscrun p = unscrun q \<longleftrightarrow> p = q" for p q :: "u32 \<times> u32"
  by (metis scrunch_unscrun)

lemma des_fp_inj: "des_fp p = des_fp q \<longleftrightarrow> p = q" for p q :: "u32 \<times> u32"
  by (metis des_ip_fp prod.swap_def swap_swap)

lemma unpair_map: "map g (unpair ps) = unpair (map (map_prod g g) ps)"
  by (induction ps rule: unpair.induct) simp_all

lemma take_unpair: "take (2 * n) (unpair ps) = unpair (take n ps)"
proof (induction ps arbitrary: n rule: unpair.induct)
  case (2 a b ps)
  then show ?case by (cases n) simp_all
qed simp

lemma unpair_append: "unpair (ps @ qs) = unpair ps @ unpair qs"
  by (induction ps rule: unpair.induct) simp_all

lemma feistel_pair: "feistel (l, r) (k0, k1) = (r, l XOR des_f r k0 k1)"
  by (simp add: feistel_def)

lemma last_subkey_matters:
  assumes "length ps = 15"
  shows "\<exists>k k'. desfunc (b :: u32 \<times> u32) (unpair (ps @ [k])) \<noteq> desfunc b (unpair (ps @ [k']))"
proof -
  obtain l r where s: "foldl feistel (des_ip b) ps = (l, r)" by (cases "foldl feistel (des_ip b) ps")
  have out: "desfunc b (unpair (ps @ [(j0, j1)])) = des_fp (r, l XOR des_f r j0 j1)" for j0 j1
    using assms by (simp add: desfunc_def des_rounds_feistel length_unpair s feistel_pair)
  let ?k = "push_bit 28 r OR drop_bit 4 r"
  have "l XOR des_f r ?k r \<noteq> l XOR des_f r (?k XOR 1) r"
    using des_f_rotated [of r] xor_cancel [of l] by metis
  then have "desfunc b (unpair (ps @ [(?k, r)])) \<noteq> desfunc b (unpair (ps @ [(?k XOR 1, r)]))"
    by (simp add: out des_fp_inj)
  then show ?thesis by blast
qed

lemma stale_subkeys_matter:
  fixes keybuf :: "64 word list"
  assumes "length key = 8" "length block = 8" "OPENCOMM_DesExpandEncKey key = Inr (keybuf, keylen)"
  shows "\<exists>junk junk'. length junk = 32 \<and> length junk' = 32 \<and>
    OPENCOMM_DesEncRaw junk keybuf keylen block \<noteq> OPENCOMM_DesEncRaw junk' keybuf keylen block"
proof -
  define ps :: "(64 word \<times> 64 word) list" where
    "ps = take 8 (map (\<lambda>(a, b). (cook0 a b, cook1 a b)) (subkeys key)) @ replicate 7 (0, 0)"
  define ps' where "ps' = map low ps"
  have len': "length ps' = 15" by (simp add: ps'_def ps_def)
  obtain k k' where k: "desfunc (scrunch block :: u32 \<times> u32) (unpair (ps' @ [k])) \<noteq>
      desfunc (scrunch block) (unpair (ps' @ [k']))"
    using last_subkey_matters [of ps' "scrunch block"] len' by blast
  have keybuf: "keybuf = unpair (take 8 (map (\<lambda>(a, b). (cook0 a b, cook1 a b)) (subkeys key)))" "keylen = 128"
    using assms take_unpair [of 8]
    by (auto simp: OPENCOMM_DesExpandEncKey_def deskey_EN0 cookey_unpair key_buffer_64)
  define junk where "junk = (\<lambda>k :: u32 \<times> u32. replicate 16 0 @ unpair (replicate 7 (0, 0) @ [map_prod ucast ucast k])
      :: 64 word list)"
  have len: "length (junk k) = 32" for k
    by (simp add: junk_def length_unpair)
  have ek: "memcpy_at (junk k) 0 keybuf = unpair (ps @ [map_prod ucast ucast k])" for k
    by (simp add: memcpy_at_def keybuf junk_def ps_def unpair_append length_unpair)
  have low_ek: "map ucast (unpair (ps @ [map_prod ucast ucast k])) = unpair (ps' @ [k])" for k :: "u32 \<times> u32"
    by (cases k) (simp add: unpair_map ps'_def)
  have raw: "OPENCOMM_DesEncRaw (junk k) keybuf keylen block = Inr (unscrun (desfunc (scrunch block) (unpair (ps' @ [k]))))" for k
    using assms(2) by (simp only: OPENCOMM_DesEncRaw_def keybuf(2) ek block_64 [of block "unpair _"] low_ek) simp
  have "OPENCOMM_DesEncRaw (junk k) keybuf keylen block \<noteq> OPENCOMM_DesEncRaw (junk k') keybuf keylen block"
    using k by (simp add: raw unscrun_inj)
  with len show ?thesis by blast
qed

subsection \<open>The published S-boxes\<close>

definition S1 :: "nat list" where
  "S1 = [
     14, 4, 13, 1, 2, 15, 11, 8, 3, 10, 6, 12, 5, 9, 0, 7,
     0, 15, 7, 4, 14, 2, 13, 1, 10, 6, 12, 11, 9, 5, 3, 8,
     4, 1, 14, 8, 13, 6, 2, 11, 15, 12, 9, 7, 3, 10, 5, 0,
     15, 12, 8, 2, 4, 9, 1, 7, 5, 11, 3, 14, 10, 0, 6, 13]"

definition S2 :: "nat list" where
  "S2 = [
     15, 1, 8, 14, 6, 11, 3, 4, 9, 7, 2, 13, 12, 0, 5, 10,
     3, 13, 4, 7, 15, 2, 8, 14, 12, 0, 1, 10, 6, 9, 11, 5,
     0, 14, 7, 11, 10, 4, 13, 1, 5, 8, 12, 6, 9, 3, 2, 15,
     13, 8, 10, 1, 3, 15, 4, 2, 11, 6, 7, 12, 0, 5, 14, 9]"

definition S3 :: "nat list" where
  "S3 = [
     10, 0, 9, 14, 6, 3, 15, 5, 1, 13, 12, 7, 11, 4, 2, 8,
     13, 7, 0, 9, 3, 4, 6, 10, 2, 8, 5, 14, 12, 11, 15, 1,
     13, 6, 4, 9, 8, 15, 3, 0, 11, 1, 2, 12, 5, 10, 14, 7,
     1, 10, 13, 0, 6, 9, 8, 7, 4, 15, 14, 3, 11, 5, 2, 12]"

definition S4 :: "nat list" where
  "S4 = [
     7, 13, 14, 3, 0, 6, 9, 10, 1, 2, 8, 5, 11, 12, 4, 15,
     13, 8, 11, 5, 6, 15, 0, 3, 4, 7, 2, 12, 1, 10, 14, 9,
     10, 6, 9, 0, 12, 11, 7, 13, 15, 1, 3, 14, 5, 2, 8, 4,
     3, 15, 0, 6, 10, 1, 13, 8, 9, 4, 5, 11, 12, 7, 2, 14]"

definition S5 :: "nat list" where
  "S5 = [
     2, 12, 4, 1, 7, 10, 11, 6, 8, 5, 3, 15, 13, 0, 14, 9,
     14, 11, 2, 12, 4, 7, 13, 1, 5, 0, 15, 10, 3, 9, 8, 6,
     4, 2, 1, 11, 10, 13, 7, 8, 15, 9, 12, 5, 6, 3, 0, 14,
     11, 8, 12, 7, 1, 14, 2, 13, 6, 15, 0, 9, 10, 4, 5, 3]"

definition S6 :: "nat list" where
  "S6 = [
     12, 1, 10, 15, 9, 2, 6, 8, 0, 13, 3, 4, 14, 7, 5, 11,
     10, 15, 4, 2, 7, 12, 9, 5, 6, 1, 13, 14, 0, 11, 3, 8,
     9, 14, 15, 5, 2, 8, 12, 3, 7, 0, 4, 10, 1, 13, 11, 6,
     4, 3, 2, 12, 9, 5, 15, 10, 11, 14, 1, 7, 6, 0, 8, 13]"

definition S7 :: "nat list" where
  "S7 = [
     4, 11, 2, 14, 15, 0, 8, 13, 3, 12, 9, 7, 5, 10, 6, 1,
     13, 0, 11, 7, 4, 9, 1, 10, 14, 3, 5, 12, 2, 15, 8, 6,
     1, 4, 11, 13, 12, 3, 7, 14, 10, 15, 6, 8, 0, 5, 9, 2,
     6, 11, 13, 8, 1, 4, 10, 7, 9, 5, 0, 15, 14, 2, 3, 12]"

definition S8 :: "nat list" where
  "S8 = [
     13, 2, 8, 4, 6, 15, 11, 1, 10, 9, 3, 14, 5, 0, 12, 7,
     1, 15, 13, 8, 10, 3, 7, 4, 12, 5, 6, 11, 0, 14, 9, 2,
     7, 11, 4, 1, 9, 12, 14, 2, 0, 6, 10, 13, 15, 3, 5, 8,
     2, 1, 14, 7, 4, 10, 8, 13, 15, 12, 9, 0, 3, 5, 6, 11]"

definition pbox :: "nat list" where
  "pbox = [16, 7, 20, 21, 29, 12, 28, 17, 1, 15, 23, 26, 5, 18, 31, 10,
     2, 8, 24, 14, 32, 27, 3, 9, 19, 13, 30, 6, 22, 11, 4, 25]"

definition sbox_index :: "nat \<Rightarrow> nat" where
  "sbox_index x = 16 * (2 * (x div 32) + x mod 2) + x div 2 mod 16"

definition sp_bit :: "nat \<Rightarrow> nat" where
  "sp_bit k = (31 - length (takeWhile (\<lambda>p. p \<noteq> k) pbox) + 1) mod 32"

definition sp_entry :: "nat list \<Rightarrow> nat \<Rightarrow> nat \<Rightarrow> nat" where
  "sp_entry sbox b x =
    (let s = sbox ! sbox_index x in
     (s div 8) * 2 ^ sp_bit (4 * b + 1) + (s div 4 mod 2) * 2 ^ sp_bit (4 * b + 2) +
     (s div 2 mod 2) * 2 ^ sp_bit (4 * b + 3) + (s mod 2) * 2 ^ sp_bit (4 * b + 4))"

lemma SP1_entries: "map unat (SP1 :: u32 list) = map (sp_entry S1 0) [0..<64]"
  by (simp add: SP1_def S1_def sp_entry_def sbox_index_def sp_bit_def pbox_def upt_rec)

lemma SP2_entries: "map unat (SP2 :: u32 list) = map (sp_entry S2 1) [0..<64]"
  by (simp add: SP2_def S2_def sp_entry_def sbox_index_def sp_bit_def pbox_def upt_rec)

lemma SP3_entries: "map unat (SP3 :: u32 list) = map (sp_entry S3 2) [0..<64]"
  by (simp add: SP3_def S3_def sp_entry_def sbox_index_def sp_bit_def pbox_def upt_rec)

lemma SP4_entries: "map unat (SP4 :: u32 list) = map (sp_entry S4 3) [0..<64]"
  by (simp add: SP4_def S4_def sp_entry_def sbox_index_def sp_bit_def pbox_def upt_rec)

lemma SP6_entries: "map unat (SP6 :: u32 list) = map (sp_entry S6 5) [0..<64]"
  by (simp add: SP6_def S6_def sp_entry_def sbox_index_def sp_bit_def pbox_def upt_rec)

lemma SP7_entries: "map unat (SP7 :: u32 list) = map (sp_entry S7 6) [0..<64]"
  by (simp add: SP7_def S7_def sp_entry_def sbox_index_def sp_bit_def pbox_def upt_rec)

lemma SP8_entries: "map unat (SP8 :: u32 list) = map (sp_entry S8 7) [0..<64]"
  by (simp add: SP8_def S8_def sp_entry_def sbox_index_def sp_bit_def pbox_def upt_rec)

lemma SP5_entries:
  "map unat (SP5 :: u32 list) =
    (map (sp_entry S5 4) [0..<64])[46 := 0x20000000, 53 := 0x02000100, 54 := 0x40000100, 55 := 0x00080000]"
  by (simp add: SP5_def S5_def sp_entry_def sbox_index_def sp_bit_def pbox_def upt_rec)

lemma SP5_standard_entries:
  "map (\<lambda>i. sp_entry S5 4 i) [46, 53, 54, 55] = [0x02000000, 0, 0x40080000, 0x42000000]"
  by (simp add: S5_def sp_entry_def sbox_index_def sp_bit_def pbox_def)


text \<open>C37: with 64-bit words \<open>desfunc\<close>, whose shifts leave garbage above bit 31, computes on
  every 8-byte block the bytes that the 32-bit \<open>desfunc\<close> computes under the same subkeys.\<close>

theorem desfunc_width_independent:
  "unscrun (desfunc (scrunch block) keys) =
   unscrun (desfunc (scrunch block) (map (ucast :: 64 word \<Rightarrow> 32 word) keys))"
  by (rule block_64)

text \<open>C35: where \<open>unsigned long\<close> has 64 bits, the ciphertext is not a function of key and
  plaintext. For every 8-byte key and every 8-byte block there are two contents of the uninitialised
  array \<open>ek\<close> of \<open>OPENCOMM_DesEncRaw\<close> under which \<open>myic_DESEncrypt\<close> produces different ciphertexts:
  \<open>DES_KEYBYTES\<close> is 128, and 128 bytes are sixteen of the thirty-two \<open>unsigned long\<close> subkey words.\<close>

theorem des_lp64_uninitialised:
  assumes "length key = 8" and "length block = 8"
  shows "\<exists>(junk :: nat \<Rightarrow> 64 word list) (junk' :: nat \<Rightarrow> 64 word list). (\<forall>i. length (junk i) = 32 \<and> length (junk' i) = 32) \<and>
    myic_DESEncrypt junk key block \<noteq> myic_DESEncrypt junk' key block"
proof -
  obtain keybuf :: "64 word list" and keylen where e: "OPENCOMM_DesExpandEncKey key = Inr (keybuf, keylen)"
    using assms(1) by (simp add: OPENCOMM_DesExpandEncKey_def)
  from stale_subkeys_matter [OF assms e] obtain j j' where j: "length j = 32" "length j' = 32"
    "OPENCOMM_DesEncRaw j keybuf keylen block \<noteq> OPENCOMM_DesEncRaw j' keybuf keylen block" by blast
  have "myic_DESEncrypt (\<lambda>_. j) key block \<noteq> myic_DESEncrypt (\<lambda>_. j') key block"
    using j(3) assms by (auto simp: myic_DESEncrypt_def e split: sum.splits)
  with j(1,2) show ?thesis by - (rule exI [of _ "\<lambda>_. j"], rule exI [of _ "\<lambda>_. j'"], simp)
qed

theorem des_lp64_uninitialised_witness:
  "\<exists>(junk :: nat \<Rightarrow> 64 word list) (junk' :: nat \<Rightarrow> 64 word list). (\<forall>i. length (junk i) = 32 \<and> length (junk' i) = 32) \<and>
    myic_DESEncrypt junk USER_PASSWORD_KEY [0, 0, 0, 0, 0, 0, 0, 0] \<noteq>
    myic_DESEncrypt junk' USER_PASSWORD_KEY [0, 0, 0, 0, 0, 0, 0, 0]"
  by (rule des_lp64_uninitialised) (simp_all add: USER_PASSWORD_KEY_def)

text \<open>C34: the tables \<open>SP1\<close> to \<open>SP4\<close> and \<open>SP6\<close> to \<open>SP8\<close> are the standard S-boxes composed with
  the standard permutation (and the one-bit rotation of the implementation), entry by entry. \<open>SP5\<close>
  is so except in the four entries 46, 53, 54 and 55, which hold other values: the cipher that the
  program computes is not DES.\<close>

theorem des_tables:
  "map unat (SP1 :: 32 word list) = map (sp_entry S1 0) [0..<64] \<and>
   map unat (SP2 :: 32 word list) = map (sp_entry S2 1) [0..<64] \<and>
   map unat (SP3 :: 32 word list) = map (sp_entry S3 2) [0..<64] \<and>
   map unat (SP4 :: 32 word list) = map (sp_entry S4 3) [0..<64] \<and>
   map unat (SP6 :: 32 word list) = map (sp_entry S6 5) [0..<64] \<and>
   map unat (SP7 :: 32 word list) = map (sp_entry S7 6) [0..<64] \<and>
   map unat (SP8 :: 32 word list) = map (sp_entry S8 7) [0..<64] \<and>
   map unat (SP5 :: 32 word list) =
     (map (sp_entry S5 4) [0..<64])[46 := 0x20000000, 53 := 0x02000100, 54 := 0x40000100, 55 := 0x00080000] \<and>
   map (sp_entry S5 4) [46, 53, 54, 55] = [0x02000000, 0, 0x40080000, 0x42000000]"
  by (intro conjI SP1_entries SP2_entries SP3_entries SP4_entries SP6_entries SP7_entries SP8_entries
      SP5_entries SP5_standard_entries)

end
