(* ===== verification/C_Library.thy ===== *)
theory C_Library
  imports HF_Prelude
begin

text \<open>
  The parts of the C library that the program uses on strings: character classes, \<open>strstr\<close>,
  \<open>atoi\<close>, decimal and hexadecimal printing, \<open>sprintf\<close>, and writing into a buffer of fixed size.
  A C string is the list of its characters without the terminator; \<open>cstr\<close> cuts a byte sequence at
  its first zero byte. Writing past the end of an array is \<open>None\<close>.
\<close>

subsection \<open>Characters\<close>

abbreviation NUL :: char where
  "NUL \<equiv> CHR 0x00"

definition code :: "char \<Rightarrow> nat" where
  "code c = of_char c"

definition isspace :: "char \<Rightarrow> bool" where
  "isspace c \<longleftrightarrow> code c = 32 \<or> 9 \<le> code c \<and> code c \<le> 13"

definition isdigit :: "char \<Rightarrow> bool" where
  "isdigit c \<longleftrightarrow> 48 \<le> code c \<and> code c \<le> 57"

definition tolower :: "char \<Rightarrow> char" where
  "tolower c = (if 65 \<le> code c \<and> code c \<le> 90 then char_of (code c + 32) else c)"

definition digit_value :: "char \<Rightarrow> nat" where
  "digit_value c = code c - 48"

definition cstr :: "string \<Rightarrow> string" where
  "cstr s = takeWhile (\<lambda>c. c \<noteq> NUL) s"

definition is_cstr :: "string \<Rightarrow> bool" where
  "is_cstr s \<longleftrightarrow> NUL \<notin> set s"

lemma cstr_id [simp]: "is_cstr s \<Longrightarrow> cstr s = s"
  by (induction s) (auto simp: is_cstr_def cstr_def)

lemma is_cstr_cstr [simp]: "is_cstr (cstr s)"
  by (auto simp: is_cstr_def cstr_def dest: set_takeWhileD)

lemma is_cstr_Nil [simp]: "is_cstr []"
  and is_cstr_Cons [simp]: "is_cstr (c # s) \<longleftrightarrow> c \<noteq> NUL \<and> is_cstr s"
  and is_cstr_append [simp]: "is_cstr (s @ t) \<longleftrightarrow> is_cstr s \<and> is_cstr t"
  by (auto simp: is_cstr_def)

text \<open>The character a pointer into a string points at: the terminator when nothing is left.\<close>

definition deref :: "string \<Rightarrow> char" where
  "deref s = (case s of [] \<Rightarrow> NUL | c # _ \<Rightarrow> c)"

lemma deref_simps [simp]: "deref [] = NUL" "deref (c # s) = c"
  by (simp_all add: deref_def)

subsection \<open>Searching\<close>

definition prefix_of :: "string \<Rightarrow> string \<Rightarrow> bool" where
  "prefix_of p s \<longleftrightarrow> take (length p) s = p"

text \<open>\<open>strstr\<close>: the rest of the string from the first occurrence on.\<close>

fun strstr :: "string \<Rightarrow> string \<Rightarrow> string option" where
  "strstr [] sub = (if sub = [] then Some [] else None)"
| "strstr (c # s) sub = (if prefix_of sub (c # s) then Some (c # s) else strstr s sub)"

lemma strstr_sound: "strstr s sub = Some r \<Longrightarrow> (\<exists>p. s = p @ r) \<and> prefix_of sub r"
proof (induction s)
  case (Cons c s)
  then show ?case
    by (auto split: if_splits simp: prefix_of_def)
qed (auto simp: prefix_of_def split: if_splits)

lemma prefix_of_append: "prefix_of sub (sub @ r)"
  by (simp add: prefix_of_def)

lemma strstr_complete: "prefix_of sub r \<Longrightarrow> strstr (p @ r) sub \<noteq> None"
proof (induction p)
  case Nil
  then show ?case by (cases r) (auto simp: prefix_of_def)
qed simp

subsection \<open>Numbers\<close>

function show_nat :: "nat \<Rightarrow> string" where
  "show_nat n = (if n < 10 then [char_of (48 + n)] else show_nat (n div 10) @ [char_of (48 + n mod 10)])"
  by pat_completeness auto
termination
  by (relation "measure id") auto

declare show_nat.simps [simp del]

definition show_int :: "int \<Rightarrow> string" where
  "show_int i = (if i < 0 then CHR ''-'' # show_nat (nat (- i)) else show_nat (nat i))"

definition hex_digit :: "nat \<Rightarrow> char" where
  "hex_digit n = (if n < 10 then char_of (48 + n) else char_of (87 + n))"

text \<open>\<open>%02x\<close> of a byte.\<close>

definition show_hex2 :: "nat \<Rightarrow> string" where
  "show_hex2 n = [hex_digit (n div 16 mod 16), hex_digit (n mod 16)]"

definition read_nat :: "string \<Rightarrow> nat" where
  "read_nat s = foldl (\<lambda>n c. 10 * n + digit_value c) 0 s"

text \<open>\<open>atoi\<close> as the C library computes it: leading white space, a sign, the longest run of digits,
  saturated to \<open>long\<close> as \<open>strtol\<close> does and converted to \<open>int\<close>.\<close>

definition wrap32 :: "int \<Rightarrow> int" where
  "wrap32 i = (i + 2 ^ 31) mod 2 ^ 32 - 2 ^ 31"

definition saturate64 :: "int \<Rightarrow> int" where
  "saturate64 i = max (- (2 ^ 63)) (min (2 ^ 63 - 1) i)"

definition strtol :: "string \<Rightarrow> int" where
  "strtol s =
    (let t = dropWhile isspace s;
         neg = (deref t = CHR ''-'');
         u = (if neg \<or> deref t = CHR ''+'' then tl t else t);
         n = int (read_nat (takeWhile isdigit u)) in
     saturate64 (if neg then - n else n))"

definition atoi :: "string \<Rightarrow> int" where
  "atoi s = wrap32 (strtol s)"

lemma code_char_of [simp]: "n < 256 \<Longrightarrow> code (char_of n) = n"
  by (simp add: code_def)

lemma show_nat_digits: "\<forall>c \<in> set (show_nat n). isdigit c"
proof (induction n rule: show_nat.induct)
  case (1 n)
  then show ?case
    by (subst show_nat.simps) (auto simp: isdigit_def)
qed

lemma show_nat_nonempty [simp]: "show_nat n \<noteq> []"
  by (subst show_nat.simps) auto

lemma read_nat_snoc: "read_nat (s @ [c]) = 10 * read_nat s + digit_value c"
  by (simp add: read_nat_def)

lemma read_show_nat: "read_nat (show_nat n) = n"
proof (induction n rule: show_nat.induct)
  case (1 n)
  show ?case
  proof (cases "n < 10")
    case True
    then show ?thesis by (subst show_nat.simps) (simp add: read_nat_def digit_value_def)
  next
    case False
    have "read_nat (show_nat n) = 10 * read_nat (show_nat (n div 10)) + digit_value (char_of (48 + n mod 10))"
      using False by (subst show_nat.simps) (simp add: read_nat_snoc)
    also have "\<dots> = 10 * (n div 10) + n mod 10"
      using 1 False by (simp add: digit_value_def)
    finally show ?thesis by simp
  qed
qed

lemma digit_not_special:
  "isdigit c \<Longrightarrow> \<not> isspace c" "isdigit c \<Longrightarrow> c \<noteq> CHR ''-''" "isdigit c \<Longrightarrow> c \<noteq> CHR ''+''"
  "isdigit c \<Longrightarrow> c \<noteq> NUL"
  by (auto simp: isdigit_def isspace_def code_def)

lemma show_nat_head: "\<exists>c r. show_nat n = c # r \<and> isdigit c"
  using show_nat_digits [of n] show_nat_nonempty [of n] by (cases "show_nat n") auto

lemma show_nat_0 [simp]: "show_nat 0 = ''0''"
proof -
  have "char_of (48 :: nat) = CHR ''0''" by (simp add: char_of_eq_iff)
  then show ?thesis by (simp add: show_nat.simps [of 0])
qed

lemma show_nat_length: "n < 10 ^ Suc k \<Longrightarrow> length (show_nat n) \<le> Suc k"
proof (induction k arbitrary: n)
  case (Suc k)
  then show ?case by (subst show_nat.simps) (auto simp: less_mult_imp_div_less)
qed (simp add: show_nat.simps)

lemma show_nat_head_nonzero: "0 < n \<Longrightarrow> deref (show_nat n) \<noteq> CHR ''0'' \<and> isdigit (deref (show_nat n))"
proof (induction n rule: show_nat.induct)
  case (1 n)
  show ?case
  proof (cases "n < 10")
    case True
    with 1(2) have "code (char_of (48 + n)) \<noteq> code (CHR ''0'')" using True by (simp add: code_def)
    moreover have "isdigit (char_of (48 + n))" using True by (simp add: isdigit_def)
    ultimately show ?thesis using True by (metis deref_simps(2) show_nat.simps)
  next
    case False
    then have "deref (show_nat n) = deref (show_nat (n div 10))"
      by (subst show_nat.simps) (cases "show_nat (n div 10)"; simp)
    with 1(1) False show ?thesis by simp
  qed
qed

lemma wrap32_id: "- (2 ^ 31) \<le> i \<Longrightarrow> i < 2 ^ 31 \<Longrightarrow> wrap32 i = i"
  by (simp add: wrap32_def)

lemma strtol_show_int: "- (2 ^ 63) \<le> i \<Longrightarrow> i < 2 ^ 63 \<Longrightarrow> strtol (show_int i) = i"
proof -
  assume i: "- (2 ^ 63) \<le> i" "i < 2 ^ 63"
  obtain c r where c: "show_nat (nat i) = c # r" "isdigit c" using show_nat_head by blast
  have all: "takeWhile isdigit (show_nat n) = show_nat n" for n
    using show_nat_digits by (simp add: takeWhile_eq_all_conv)
  have sp: "\<not> isspace (CHR ''-'')" by (simp add: isspace_def code_def)
  show ?thesis
  proof (cases "i < 0")
    case True
    then show ?thesis
      using i by (simp add: show_int_def strtol_def Let_def sp all read_show_nat saturate64_def)
  next
    case False
    then have "dropWhile isspace (show_nat (nat i)) = show_nat (nat i)"
      using c digit_not_special by simp
    moreover have "deref (show_nat (nat i)) \<noteq> CHR ''-''" "deref (show_nat (nat i)) \<noteq> CHR ''+''"
      using c digit_not_special by auto
    ultimately show ?thesis
      using i False by (simp add: show_int_def strtol_def Let_def all read_show_nat saturate64_def)
  qed
qed

lemma atoi_show_int: "- (2 ^ 31) \<le> i \<Longrightarrow> i < 2 ^ 31 \<Longrightarrow> atoi (show_int i) = i"
  by (simp add: atoi_def strtol_show_int wrap32_id)

lemma show_nat_inject: "show_nat a = show_nat b \<longleftrightarrow> a = b"
proof
  assume "show_nat a = show_nat b"
  then have "read_nat (show_nat a) = read_nat (show_nat b)" by (rule arg_cong)
  then show "a = b" by (simp only: read_show_nat)
qed simp

lemma show_int_inject: "show_int i = show_int j \<longleftrightarrow> i = j"
proof -
  have sign: "show_nat a \<noteq> CHR ''-'' # s" for a s using show_nat_head [of a] by (auto simp: isdigit_def code_def)
  show ?thesis
    using sign [of "nat i" "show_nat (nat (- j))"] sign [of "nat j" "show_nat (nat (- i))"]
    by (cases "i < 0"; cases "j < 0") (auto simp: show_int_def show_nat_inject)
qed

subsection \<open>Formatted printing\<close>

text \<open>\<open>sprintf\<close> with the directives the program uses: \<open>%s\<close> takes a string argument, \<open>%d\<close> / \<open>%u\<close> /
  \<open>%ld\<close> / \<open>%lu\<close> an integer. In the format strings of this development a backquote stands for the
  single quote of the C source, since the latter delimits strings here; \<open>fmt\<close> translates it.\<close>

datatype farg = Str string | Num int

definition unquote :: "char \<Rightarrow> char" where
  "unquote c = (if c = CHR ''`'' then CHR 0x27 else c)"

fun sprintf :: "string \<Rightarrow> farg list \<Rightarrow> string" where
  "sprintf [] args = []"
| "sprintf (c # f) args =
    (if c \<noteq> CHR ''%'' then c # sprintf f args
     else case args of
       [] \<Rightarrow> c # sprintf f args
     | Str s # args' \<Rightarrow> s @ sprintf (tl f) args'
     | Num i # args' \<Rightarrow> show_int i @ sprintf (if deref f = CHR ''l'' then tl (tl f) else tl f) args')"

definition fmt :: "string \<Rightarrow> farg list \<Rightarrow> string" where
  "fmt f args = sprintf (map unquote f) args"

text \<open>\<open>printf\<close> whose format string is computed data and which has no further arguments: a percent
  sign that does not form \<open>%%\<close> makes it read an argument that was not passed.\<close>

fun printf_plain :: "string \<Rightarrow> string option" where
  "printf_plain [] = Some []"
| "printf_plain (c # f) =
    (if c \<noteq> CHR ''%'' then map_option (Cons c) (printf_plain f)
     else case f of
       [] \<Rightarrow> None
     | d # f' \<Rightarrow> if d = CHR ''%'' then map_option (Cons c) (printf_plain f') else None)"

lemma printf_plain_id: "CHR ''%'' \<notin> set s \<Longrightarrow> printf_plain s = Some s"
  by (induction s rule: printf_plain.induct) auto

subsection \<open>Buffers\<close>

text \<open>Writing a string and its terminator into an array of \<open>cap\<close> characters.\<close>

definition store :: "nat \<Rightarrow> string \<Rightarrow> string option" where
  "store cap s = (if length s < cap then Some s else None)"

lemma store_Some [simp]: "store cap s = Some t \<longleftrightarrow> t = s \<and> length s < cap"
  by (auto simp: store_def)

lemma store_fits: "length s < cap \<Longrightarrow> store cap s = Some s"
  by (simp add: store_def)

end
