(* ===== verification/Float64.thy ===== *)
theory Float64
  imports Complex_Main C_Library
begin

text \<open>
  The C type \<open>double\<close> as \<^verbatim>\<open>common/cJSON.c\<close> uses it: IEEE binary64 with rounding to nearest, ties to
  even. A finite double is its exact rational value (the sign of zero is not observable in the
  program). \<open>fl\<close> rounds a rational; arithmetic is exact arithmetic followed by \<open>fl\<close>. The conversion
  of an out-of-range double to \<open>int\<close> gives \<open>INT_MIN\<close>, as the hardware does; \<open>pow(10.0, k)\<close> is taken to
  be correctly rounded.
\<close>

datatype double = Fin rat | Inf bool | NaN

definition INT_MIN :: int where
  "INT_MIN = - (2 ^ 31)"

definition INT_MAX :: int where
  "INT_MAX = 2 ^ 31 - 1"

definition round_even :: "rat \<Rightarrow> int" where
  "round_even q =
    (let f = \<lfloor>q\<rfloor>; d = q - of_int f in
     if d < 1 / 2 then f else if d > 1 / 2 then f + 1 else if even f then f else f + 1)"

function bitlen :: "nat \<Rightarrow> nat" where
  "bitlen n = (if n = 0 then 0 else 1 + bitlen (n div 2))"
  by pat_completeness auto
termination
  by (relation "measure id") auto

declare bitlen.simps [simp del]

definition two_pow :: "int \<Rightarrow> rat" where
  "two_pow k = (if 0 \<le> k then 2 ^ nat k else 1 / 2 ^ nat (- k))"

definition exponent :: "rat \<Rightarrow> int" where
  "exponent q =
    (let (n, d) = quotient_of q; k = int (bitlen (nat n)) - int (bitlen (nat d)) in
     if two_pow k \<le> q then k else k - 1)"

definition fl :: "rat \<Rightarrow> double" where
  "fl q =
    (if q = 0 then Fin 0
     else let e = max (- 1022) (exponent \<bar>q\<bar>);
              u = two_pow (e - 52);
              r = of_int (round_even (q / u)) * u in
       if two_pow 1024 \<le> \<bar>r\<bar> then Inf (q < 0) else Fin r)"

definition negative :: "double \<Rightarrow> bool" where
  "negative d = (case d of Fin q \<Rightarrow> q < 0 | Inf s \<Rightarrow> s | NaN \<Rightarrow> False)"

definition dmul :: "double \<Rightarrow> double \<Rightarrow> double" where
  "dmul a b =
    (case (a, b) of
       (Fin p, Fin q) \<Rightarrow> fl (p * q)
     | (NaN, _) \<Rightarrow> NaN
     | (_, NaN) \<Rightarrow> NaN
     | _ \<Rightarrow> if a = Fin 0 \<or> b = Fin 0 then NaN else Inf (negative a \<noteq> negative b))"

definition dadd :: "double \<Rightarrow> double \<Rightarrow> double" where
  "dadd a b =
    (case (a, b) of
       (Fin p, Fin q) \<Rightarrow> fl (p + q)
     | (NaN, _) \<Rightarrow> NaN
     | (_, NaN) \<Rightarrow> NaN
     | (Inf s, Inf t) \<Rightarrow> if s = t then Inf s else NaN
     | (Inf s, _) \<Rightarrow> Inf s
     | (_, Inf t) \<Rightarrow> Inf t)"

definition pow10 :: "int \<Rightarrow> double" where
  "pow10 k =
    (if k > 400 then Inf False
     else if k < - 400 then Fin 0
     else if 0 \<le> k then fl (10 ^ nat k) else fl (1 / 10 ^ nat (- k)))"

definition to_int :: "double \<Rightarrow> int" where
  "to_int d =
    (case d of
       Fin q \<Rightarrow> let t = (if q < 0 then \<lceil>q\<rceil> else \<lfloor>q\<rfloor>) in if INT_MIN \<le> t \<and> t \<le> INT_MAX then t else INT_MIN
     | _ \<Rightarrow> INT_MIN)"

definition of_int_double :: "int \<Rightarrow> double" where
  "of_int_double i = fl (of_int i)"

subsection \<open>Printing\<close>

definition pad0 :: "nat \<Rightarrow> string \<Rightarrow> string" where
  "pad0 w s = replicate (w - length s) (CHR ''0'') @ s"

definition sign_prefix :: "rat \<Rightarrow> string" where
  "sign_prefix q = (if q < 0 then ''-'' else '''')"

text \<open>\<open>%.0f\<close>, \<open>%f\<close> and \<open>%e\<close>.\<close>

definition show_f0 :: "rat \<Rightarrow> string" where
  "show_f0 q = sign_prefix q @ show_nat (nat (round_even \<bar>q\<bar>))"

definition show_f6 :: "rat \<Rightarrow> string" where
  "show_f6 q =
    (let v = nat (round_even (\<bar>q\<bar> * 10 ^ 6)) in
     sign_prefix q @ show_nat (v div 10 ^ 6) @ ''.'' @ pad0 6 (show_nat (v mod 10 ^ 6)))"

fun dec_exponent :: "nat \<Rightarrow> rat \<Rightarrow> int" where
  "dec_exponent 0 q = 0"
| "dec_exponent (Suc n) q =
    (if 10 \<le> q then 1 + dec_exponent n (q / 10) else if q < 1 then dec_exponent n (q * 10) - 1 else 0)"

definition ten_pow :: "int \<Rightarrow> rat" where
  "ten_pow k = (if 0 \<le> k then 10 ^ nat k else 1 / 10 ^ nat (- k))"

definition show_e6 :: "rat \<Rightarrow> string" where
  "show_e6 q =
    (let x0 = (if q = 0 then 0 else dec_exponent 400 \<bar>q\<bar>);
         v0 = round_even (\<bar>q\<bar> / ten_pow (x0 - 6));
         (v, x) = (if v0 = 10 ^ 7 then (10 ^ 6, x0 + 1) else (v0, x0)) in
     sign_prefix q @ show_nat (nat v div 10 ^ 6) @ ''.'' @ pad0 6 (show_nat (nat v mod 10 ^ 6)) @ ''e'' @
     (if x < 0 then ''-'' else ''+'') @ pad0 2 (show_nat (nat \<bar>x\<bar>)))"

subsection \<open>Small integers are exact\<close>

lemma bitlen_bound: "n < 2 ^ k \<Longrightarrow> bitlen n \<le> k"
proof (induction n arbitrary: k rule: bitlen.induct)
  case (1 n)
  show ?case
  proof (cases "n = 0")
    case False
    then obtain k' where k: "k = Suc k'" using "1.prems" by (cases k) auto
    have "n div 2 < 2 ^ k'" using "1.prems" k by auto
    with 1 False have "bitlen (n div 2) \<le> k'" by simp
    then show ?thesis using k False by (subst bitlen.simps) simp
  qed (simp add: bitlen.simps)
qed

lemma round_even_of_int [simp]: "round_even (of_int i) = i"
  by (simp add: round_even_def)

lemma two_pow_pos: "0 < two_pow k"
  by (simp add: two_pow_def)

lemma fl_of_int:
  assumes "\<bar>i\<bar> < 2 ^ 53"
  shows "fl (of_int i) = Fin (of_int i)"
proof (cases "i = 0")
  case False
  define e where "e = max (- 1022) (exponent \<bar>of_int i\<bar>)"
  have q: "quotient_of \<bar>of_int i\<bar> = (\<bar>i\<bar>, 1)"
  proof -
    have "\<bar>of_int i :: rat\<bar> = Fract \<bar>i\<bar> 1" by (simp add: Fract_of_int_quotient)
    then show ?thesis by (simp add: quotient_of_Fract Rat.normalize_def)
  qed
  have one: "bitlen (Suc 0) = 1" by (simp add: bitlen.simps)
  have "bitlen (nat \<bar>i\<bar>) \<le> 53"
    using assms by (intro bitlen_bound) (simp add: nat_less_iff)
  then have e: "e \<le> 52" "- 1022 \<le> e"
    by (auto simp: e_def exponent_def q Let_def one)
  define m where "m = i * 2 ^ nat (52 - e)"
  have "(of_int i :: rat) / two_pow (e - 52) = of_int m"
    using e by (auto simp: two_pow_def m_def)
  moreover have "of_int m * two_pow (e - 52) = (of_int i :: rat)"
    using calculation two_pow_pos [of "e - 52"] by (simp add: field_simps)
  moreover have "\<not> two_pow 1024 \<le> \<bar>of_int i\<bar>"
  proof -
    have "(of_int \<bar>i\<bar> :: rat) < of_int (2 ^ 53)" using assms by (simp only: of_int_less_iff)
    then have "\<bar>of_int i :: rat\<bar> < 2 ^ 53" by simp
    also have "(2 :: rat) ^ 53 \<le> 2 ^ 1024" by (intro power_increasing) simp_all
    finally show ?thesis by (simp add: two_pow_def)
  qed
  ultimately show ?thesis
    using False by (simp add: fl_def Let_def flip: e_def)
qed (simp add: fl_def)

lemma dmul_ints: "\<bar>i * j\<bar> < 2 ^ 53 \<Longrightarrow> dmul (Fin (of_int i)) (Fin (of_int j)) = Fin (of_int (i * j))"
  by (simp only: dmul_def prod.case double.case of_int_mult [symmetric] fl_of_int)

lemma dadd_ints: "\<bar>i + j\<bar> < 2 ^ 53 \<Longrightarrow> dadd (Fin (of_int i)) (Fin (of_int j)) = Fin (of_int (i + j))"
  by (simp only: dadd_def prod.case double.case of_int_add [symmetric] fl_of_int)

lemma to_int_of_int: "INT_MIN \<le> i \<Longrightarrow> i \<le> INT_MAX \<Longrightarrow> to_int (Fin (of_int i)) = i"
  by (simp add: to_int_def Let_def)

lemma pow10_0: "pow10 0 = Fin 1"
  using fl_of_int [of 1] by (simp add: pow10_def)

end
