(* ===== verification/CJSON.thy ===== *)
theory CJSON
  imports Float64
begin

text \<open>
  The JSON library \<^verbatim>\<open>common/cJSON.c\<close>. A node carries the fields of the C struct; the chain of
  \<open>next\<close> pointers below \<open>child\<close> is the list of children, and \<open>prev\<close> is implicit. Parsing consumes a
  C string and returns what is left of it; besides success and failure it has the outcome
  \<open>Overrun\<close>: the C code reads behind the terminator of its input or writes behind the buffer it has
  allocated. The recursion over nested values carries fuel, and \<open>cJSON_Parse\<close> gives enough of it.
  Memory allocation is taken to succeed; printing is the unbuffered variant (\<open>cJSON_Print\<close>,
  \<open>cJSON_PrintUnformatted\<close>), where \<open>None\<close> is the use of a missing string.
\<close>

subsection \<open>Nodes\<close>

datatype ctype = cJSON_False | cJSON_True | cJSON_NULL | cJSON_Number | cJSON_String | cJSON_Array | cJSON_Object

datatype cJSON = Node (item_type: ctype) (valuestring: "string option") (valueint: int)
  (valuedouble: double) (children: "cJSON list") (item_name: "string option")

definition cJSON_New_Item :: cJSON where
  "cJSON_New_Item = Node cJSON_False None 0 (Fin 0) [] None"

fun set_name :: "string option \<Rightarrow> cJSON \<Rightarrow> cJSON" where
  "set_name n (Node k s i d cs _) = Node k s i d cs n"

fun set_children :: "cJSON list \<Rightarrow> cJSON \<Rightarrow> cJSON" where
  "set_children cs (Node k s i d _ n) = Node k s i d cs n"

subsection \<open>Scanning\<close>

datatype 'a parsed = Parsed 'a string | Failed | Overrun | NoFuel

definition parsed_then :: "'a parsed \<Rightarrow> ('a \<Rightarrow> string \<Rightarrow> 'b parsed) \<Rightarrow> 'b parsed" where
  "parsed_then p f =
    (case p of Parsed a r \<Rightarrow> f a r | Failed \<Rightarrow> Failed | Overrun \<Rightarrow> Overrun | NoFuel \<Rightarrow> NoFuel)"

definition skip :: "string \<Rightarrow> string" where
  "skip s = dropWhile (\<lambda>c. code c \<le> 32) s"

definition digit_step :: "double \<Rightarrow> char \<Rightarrow> double" where
  "digit_step n c = dadd (dmul n (Fin 10)) (Fin (of_nat (digit_value c)))"

definition subscale_step :: "int \<Rightarrow> char \<Rightarrow> int" where
  "subscale_step n c = wrap32 (wrap32 (n * 10) + int (digit_value c))"

text \<open>The three parts of a number: digits, fraction (whose length is subtracted from the decimal
  exponent), exponent.\<close>

definition scan_digits :: "string \<Rightarrow> double \<times> string" where
  "scan_digits num =
    (let num = (if deref num = CHR ''0'' then tl num else num);
         ds = (if isdigit (deref num) \<and> deref num \<noteq> CHR ''0'' then takeWhile isdigit num else []) in
     (foldl digit_step (Fin 0) ds, drop (length ds) num))"

definition scan_fraction :: "double \<Rightarrow> string \<Rightarrow> double \<times> int \<times> string" where
  "scan_fraction n num =
    (if deref num = CHR ''.'' \<and> isdigit (deref (tl num)) then
       (let ds = takeWhile isdigit (tl num) in
        (foldl digit_step n ds, - int (length ds), drop (length ds) (tl num)))
     else (n, 0, num))"

definition scan_exponent :: "string \<Rightarrow> int \<times> string" where
  "scan_exponent num =
    (if deref num = CHR ''e'' \<or> deref num = CHR ''E'' then
       (let num = tl num;
            signsubscale = (if deref num = CHR ''-'' then - 1 else 1);
            num = (if deref num = CHR ''+'' \<or> deref num = CHR ''-'' then tl num else num);
            ds = takeWhile isdigit num in
        (wrap32 (foldl subscale_step 0 ds * signsubscale), drop (length ds) num))
     else (0, num))"

definition parse_number :: "string \<Rightarrow> cJSON parsed" where
  "parse_number num =
    (let sign = (if deref num = CHR ''-'' then - 1 else 1);
         num = (if deref num = CHR ''-'' then tl num else num);
         (n, num) = scan_digits num;
         (n, scale, num) = scan_fraction n num;
         (subscale, num) = scan_exponent num;
         n = dmul (dmul (Fin sign) n) (pow10 (scale + subscale)) in
     Parsed (Node cJSON_Number None (to_int n) n [] None) num)"

definition hex_value :: "char \<Rightarrow> nat option" where
  "hex_value c =
    (if isdigit c then Some (code c - 48)
     else if 65 \<le> code c \<and> code c \<le> 70 then Some (code c - 55)
     else if 97 \<le> code c \<and> code c \<le> 102 then Some (code c - 87)
     else None)"

definition parse_hex4 :: "string \<Rightarrow> nat" where
  "parse_hex4 s =
    (case those (map hex_value (take 4 s)) of
       Some [a, b, c, d] \<Rightarrow> 4096 * a + 256 * b + 16 * c + d
     | _ \<Rightarrow> 0)"

definition utf8 :: "nat \<Rightarrow> string" where
  "utf8 uc =
    (if uc < 0x80 then [char_of uc]
     else if uc < 0x800 then [char_of (0xC0 + uc div 64), char_of (0x80 + uc mod 64)]
     else if uc < 0x10000 then
       [char_of (0xE0 + uc div 4096), char_of (0x80 + uc div 64 mod 64), char_of (0x80 + uc mod 64)]
     else
       [char_of (0xF0 + uc div 262144), char_of (0x80 + uc div 4096 mod 64),
        char_of (0x80 + uc div 64 mod 64), char_of (0x80 + uc mod 64)])"

text \<open>The escape \<open>\u\<close>: \<open>s\<close> is what follows the letter \<open>u\<close>; the result is the bytes written and where the
  outer loop goes on. The pointer moves four (or ten) characters without looking at them.\<close>

definition parse_unicode :: "string \<Rightarrow> (string \<times> string) option" where
  "parse_unicode s =
    (let uc = parse_hex4 s; rest = drop 4 s in
     if length s < 4 then None
     else if 0xDC00 \<le> uc \<and> uc \<le> 0xDFFF \<or> uc = 0 then Some ([], rest)
     else if 0xD800 \<le> uc \<and> uc \<le> 0xDBFF then
       (if deref rest \<noteq> CHR 0x5C \<or> deref (tl rest) \<noteq> CHR ''u'' then Some ([], rest)
        else let uc2 = parse_hex4 (drop 2 rest) in
          if length rest < 6 then None
          else if uc2 < 0xDC00 \<or> 0xDFFF < uc2 then Some ([], drop 6 rest)
          else Some (utf8 (0x10000 + (1024 * (uc mod 1024) + uc2 mod 1024)), drop 6 rest))
     else Some (utf8 uc, rest))"

lemma parse_unicode_shorter: "parse_unicode s = Some (t, r) \<Longrightarrow> length r < length s"
  by (auto simp: parse_unicode_def Let_def split: if_splits)

text \<open>The first pass of \<open>parse_string\<close>, which computes the size of the buffer.\<close>

fun string_size :: "string \<Rightarrow> nat option" where
  "string_size [] = Some 0"
| "string_size (c # s) =
    (if c = CHR 0x22 then Some 0
     else if c = CHR 0x5C then (case s of [] \<Rightarrow> None | _ # s' \<Rightarrow> map_option Suc (string_size s'))
     else map_option Suc (string_size s))"

definition simple_escape :: "char \<Rightarrow> char" where
  "simple_escape e =
    (if e = CHR ''b'' then CHR 0x08 else if e = CHR ''f'' then CHR 0x0C
     else if e = CHR ''n'' then CHR 0x0A else if e = CHR ''r'' then CHR 0x0D
     else if e = CHR ''t'' then CHR 0x09 else e)"

text \<open>The second pass, which fills it.\<close>

function string_chars :: "string \<Rightarrow> string parsed" where
  "string_chars [] = Parsed [] []"
| "string_chars (c # s) =
    (if c = CHR 0x22 then Parsed [] s
     else if c \<noteq> CHR 0x5C then
       map_parsed (Cons c) (string_chars s)
     else case s of
       [] \<Rightarrow> Overrun
     | e # s' \<Rightarrow>
         if e = CHR ''u'' then
           (case parse_unicode s' of
              None \<Rightarrow> Overrun
            | Some (u, s'') \<Rightarrow> map_parsed (append u) (string_chars s''))
         else map_parsed (Cons (simple_escape e)) (string_chars s'))"
  by pat_completeness auto
termination
  by (relation "measure length") (auto dest: parse_unicode_shorter)

definition parse_string :: "string \<Rightarrow> string parsed" where
  "parse_string s =
    (if deref s \<noteq> CHR 0x22 then Failed
     else case string_size (tl s) of
       None \<Rightarrow> Overrun
     | Some len \<Rightarrow>
         parsed_then (string_chars (tl s)) (\<lambda>t r. if length t \<le> len then Parsed t r else Overrun))"

subsection \<open>Parsing values\<close>

fun parse_value :: "nat \<Rightarrow> string \<Rightarrow> cJSON parsed"
  and parse_elements :: "nat \<Rightarrow> string \<Rightarrow> cJSON list parsed"
  and parse_members :: "nat \<Rightarrow> string \<Rightarrow> cJSON list parsed" where
  "parse_value 0 value = NoFuel"
| "parse_value (Suc fuel) value =
    (if prefix_of ''null'' value then Parsed (Node cJSON_NULL None 0 (Fin 0) [] None) (drop 4 value)
     else if prefix_of ''false'' value then Parsed (Node cJSON_False None 0 (Fin 0) [] None) (drop 5 value)
     else if prefix_of ''true'' value then Parsed (Node cJSON_True None 1 (Fin 0) [] None) (drop 4 value)
     else if deref value = CHR 0x22 then
       map_parsed (\<lambda>t. Node cJSON_String (Some t) 0 (Fin 0) [] None) (parse_string value)
     else if deref value = CHR ''-'' \<or> isdigit (deref value) then parse_number value
     else if deref value = CHR ''['' then
       (let v = skip (tl value) in
        if deref v = CHR '']'' then Parsed (Node cJSON_Array None 0 (Fin 0) [] None) (tl v)
        else map_parsed (\<lambda>cs. Node cJSON_Array None 0 (Fin 0) cs None) (parse_elements fuel v))
     else if deref value = CHR ''{'' then
       (let v = skip (tl value) in
        if deref v = CHR ''}'' then Parsed (Node cJSON_Object None 0 (Fin 0) [] None) (tl v)
        else map_parsed (\<lambda>cs. Node cJSON_Object None 0 (Fin 0) cs None) (parse_members fuel v))
     else Failed)"
| "parse_elements 0 value = NoFuel"
| "parse_elements (Suc fuel) value =
    parsed_then (parse_value fuel (skip value)) (\<lambda>c r.
      let v = skip r in
      if deref v = CHR '','' then map_parsed (Cons c) (parse_elements fuel (tl v))
      else if deref v = CHR '']'' then Parsed [c] (tl v)
      else Failed)"
| "parse_members 0 value = NoFuel"
| "parse_members (Suc fuel) value =
    parsed_then (parse_string (skip value)) (\<lambda>n r.
      let v = skip r in
      if deref v \<noteq> CHR '':'' then Failed
      else parsed_then (parse_value fuel (skip (tl v))) (\<lambda>c r'.
        let v' = skip r' in
        if deref v' = CHR '','' then map_parsed (Cons (set_name (Some n) c)) (parse_members fuel (tl v'))
        else if deref v' = CHR ''}'' then Parsed [set_name (Some n) c] (tl v')
        else Failed))"

definition parse_fuel :: "string \<Rightarrow> nat" where
  "parse_fuel s = 2 * length s + 2"

definition cJSON_ParseWithOpts :: "bool \<Rightarrow> string \<Rightarrow> cJSON parsed" where
  "cJSON_ParseWithOpts require_null_terminated value =
    parsed_then (parse_value (parse_fuel value) (skip value)) (\<lambda>c r.
      if require_null_terminated then (if skip r \<noteq> [] then Failed else Parsed c (skip r))
      else Parsed c r)"

text \<open>\<open>cJSON_Parse\<close> as its callers see it: \<open>None\<close> is a memory error, \<open>Some None\<close> the null pointer.\<close>

definition cJSON_Parse :: "string \<Rightarrow> cJSON option option" where
  "cJSON_Parse value =
    (case cJSON_ParseWithOpts False value of
       Parsed c _ \<Rightarrow> Some (Some c)
     | Failed \<Rightarrow> Some None
     | Overrun \<Rightarrow> None
     | NoFuel \<Rightarrow> None)"

subsection \<open>Printing\<close>

definition DBL_EPSILON :: rat where
  "DBL_EPSILON = 1 / 2 ^ 52"

definition print_number :: "int \<Rightarrow> double \<Rightarrow> string" where
  "print_number vi d =
    (case d of
       Fin q \<Rightarrow>
         if q = 0 then ''0''
         else if \<bar>of_int vi - q\<bar> \<le> DBL_EPSILON \<and> q \<le> of_int INT_MAX \<and> of_int INT_MIN \<le> q then show_int vi
         else if \<bar>of_int \<lfloor>q\<rfloor> - q\<bar> \<le> DBL_EPSILON \<and> \<bar>q\<bar> < 10 ^ 60 then show_f0 q
         else if \<bar>q\<bar> < 1 / 10 ^ 6 \<or> 10 ^ 9 < \<bar>q\<bar> then show_e6 q
         else show_f6 q
     | Inf s \<Rightarrow> if s then ''-inf'' else ''inf''
     | NaN \<Rightarrow> ''-nan'')"

definition plain_char :: "char \<Rightarrow> bool" where
  "plain_char c \<longleftrightarrow> 31 < code c \<and> c \<noteq> CHR 0x22 \<and> c \<noteq> CHR 0x5C"

definition escape_char :: "char \<Rightarrow> string" where
  "escape_char c =
    (if plain_char c then [c]
     else CHR 0x5C #
       (if c = CHR 0x5C then [CHR 0x5C] else if c = CHR 0x22 then [CHR 0x22]
        else if c = CHR 0x08 then ''b'' else if c = CHR 0x0C then ''f''
        else if c = CHR 0x0A then ''n'' else if c = CHR 0x0D then ''r''
        else if c = CHR 0x09 then ''t''
        else ''u00'' @ show_hex2 (code c)))"

definition print_string_ptr :: "string \<Rightarrow> string" where
  "print_string_ptr str =
    (if \<forall>c \<in> set str. \<not> (code c < 32 \<or> c = CHR 0x22 \<or> c = CHR 0x5C) then [CHR 0x22] @ str @ [CHR 0x22]
     else [CHR 0x22] @ concat (map escape_char str) @ [CHR 0x22])"

fun join :: "string \<Rightarrow> string list \<Rightarrow> string" where
  "join sep [] = []"
| "join sep [e] = e"
| "join sep (e # es) = e @ sep @ join sep es"

definition tabs :: "nat \<Rightarrow> string" where
  "tabs n = replicate n (CHR 0x09)"

definition newline :: "bool \<Rightarrow> string" where
  "newline f = (if f then [CHR 0x0A] else [])"

text \<open>\<open>print_array\<close> and \<open>print_object\<close> work on the texts already printed for the children; a child that could not
  be printed makes them fail.\<close>

definition print_array :: "bool \<Rightarrow> string option list \<Rightarrow> string option" where
  "print_array f entries =
    (if entries = [] then Some ''[]''
     else map_option (\<lambda>es. ''['' @ join (if f then '', '' else '','') es @ '']'') (those entries))"

definition print_member :: "bool \<Rightarrow> nat \<Rightarrow> string option \<Rightarrow> string option \<Rightarrow> string option" where
  "print_member f depth name entry =
    (case name of
       None \<Rightarrow> None
     | Some nm \<Rightarrow>
         map_option (\<lambda>v. (if f then tabs depth else []) @ print_string_ptr nm @ '':'' @
           (if f then tabs 1 else []) @ v) entry)"

definition print_object :: "bool \<Rightarrow> nat \<Rightarrow> string option list \<Rightarrow> string option" where
  "print_object f depth entries =
    (if entries = [] then Some (''{'' @ newline f @ (if f then tabs (depth - 1) else []) @ ''}'')
     else map_option
       (\<lambda>es. ''{'' @ newline f @ join ('','' @ newline f) es @ newline f @
          (if f then tabs depth else []) @ ''}'')
       (those entries))"

fun print_value :: "bool \<Rightarrow> nat \<Rightarrow> cJSON \<Rightarrow> string option" where
  "print_value f depth (Node k s i d cs n) =
    (case k of
       cJSON_NULL \<Rightarrow> Some ''null''
     | cJSON_False \<Rightarrow> Some ''false''
     | cJSON_True \<Rightarrow> Some ''true''
     | cJSON_Number \<Rightarrow> Some (print_number i d)
     | cJSON_String \<Rightarrow> map_option print_string_ptr s
     | cJSON_Array \<Rightarrow> print_array f (map (print_value f (depth + 1)) cs)
     | cJSON_Object \<Rightarrow>
         print_object f depth
           (map (\<lambda>c. print_member f (depth + 1) (item_name c) (print_value f (depth + 1) c)) cs))"

definition cJSON_Print :: "cJSON \<Rightarrow> string option" where
  "cJSON_Print item = print_value True 0 item"

definition cJSON_PrintUnformatted :: "cJSON \<Rightarrow> string option" where
  "cJSON_PrintUnformatted item = print_value False 0 item"

subsection \<open>Access and construction\<close>

fun cJSON_strcasecmp :: "string option \<Rightarrow> string \<Rightarrow> bool" where
  "cJSON_strcasecmp None s2 = False"
| "cJSON_strcasecmp (Some s1) s2 = (map tolower s1 = map tolower s2)"

definition cJSON_GetArraySize :: "cJSON \<Rightarrow> nat" where
  "cJSON_GetArraySize array = length (children array)"

definition cJSON_GetArrayItem :: "cJSON \<Rightarrow> int \<Rightarrow> cJSON option" where
  "cJSON_GetArrayItem array item =
    (if nat item < length (children array) then Some (children array ! nat item) else None)"

definition cJSON_GetObjectItem :: "cJSON \<Rightarrow> string \<Rightarrow> cJSON option" where
  "cJSON_GetObjectItem object str = find (\<lambda>c. cJSON_strcasecmp (item_name c) str) (children object)"

definition cJSON_CreateString :: "string \<Rightarrow> cJSON" where
  "cJSON_CreateString s = Node cJSON_String (Some s) 0 (Fin 0) [] None"

definition cJSON_CreateNumber :: "double \<Rightarrow> cJSON" where
  "cJSON_CreateNumber num = Node cJSON_Number None (to_int num) num [] None"

definition cJSON_CreateNull :: cJSON where
  "cJSON_CreateNull = Node cJSON_NULL None 0 (Fin 0) [] None"

definition cJSON_CreateBool :: "bool \<Rightarrow> cJSON" where
  "cJSON_CreateBool b = Node (if b then cJSON_True else cJSON_False) None 0 (Fin 0) [] None"

definition cJSON_CreateArray :: cJSON where
  "cJSON_CreateArray = Node cJSON_Array None 0 (Fin 0) [] None"

definition cJSON_CreateObject :: cJSON where
  "cJSON_CreateObject = Node cJSON_Object None 0 (Fin 0) [] None"

definition cJSON_AddItemToArray :: "cJSON \<Rightarrow> cJSON \<Rightarrow> cJSON" where
  "cJSON_AddItemToArray array item = set_children (children array @ [item]) array"

definition cJSON_AddItemToObject :: "cJSON \<Rightarrow> string \<Rightarrow> cJSON \<Rightarrow> cJSON" where
  "cJSON_AddItemToObject object str item = cJSON_AddItemToArray object (set_name (Some str) item)"

definition cJSON_AddStringToObject :: "cJSON \<Rightarrow> string \<Rightarrow> string \<Rightarrow> cJSON" where
  "cJSON_AddStringToObject object str s = cJSON_AddItemToObject object str (cJSON_CreateString s)"

definition cJSON_AddNumberToObject :: "cJSON \<Rightarrow> string \<Rightarrow> int \<Rightarrow> cJSON" where
  "cJSON_AddNumberToObject object str n = cJSON_AddItemToObject object str (cJSON_CreateNumber (of_int_double n))"

definition cJSON_DetachItemFromArray :: "cJSON \<Rightarrow> int \<Rightarrow> cJSON option \<times> cJSON" where
  "cJSON_DetachItemFromArray array which =
    (let cs = children array; k = nat which in
     if k < length cs then (Some (cs ! k), set_children (take k cs @ drop (k + 1) cs) array)
     else (None, array))"

fun name_index :: "string \<Rightarrow> cJSON list \<Rightarrow> nat \<Rightarrow> nat option" where
  "name_index str [] i = None"
| "name_index str (c # cs) i =
    (if cJSON_strcasecmp (item_name c) str then Some i else name_index str cs (i + 1))"

definition cJSON_DetachItemFromObject :: "cJSON \<Rightarrow> string \<Rightarrow> cJSON option \<times> cJSON" where
  "cJSON_DetachItemFromObject object str =
    (case name_index str (children object) 0 of
       Some i \<Rightarrow> cJSON_DetachItemFromArray object (int i)
     | None \<Rightarrow> (None, object))"

definition cJSON_InsertItemInArray :: "cJSON \<Rightarrow> int \<Rightarrow> cJSON \<Rightarrow> cJSON" where
  "cJSON_InsertItemInArray array which newitem =
    (let cs = children array; k = nat which in
     if k < length cs then set_children (take k cs @ newitem # drop k cs) array
     else cJSON_AddItemToArray array newitem)"

definition cJSON_ReplaceItemInArray :: "cJSON \<Rightarrow> int \<Rightarrow> cJSON \<Rightarrow> cJSON" where
  "cJSON_ReplaceItemInArray array which newitem =
    (let cs = children array; k = nat which in
     if k < length cs then set_children (cs[k := newitem]) array else array)"

definition cJSON_ReplaceItemInObject :: "cJSON \<Rightarrow> string \<Rightarrow> cJSON \<Rightarrow> cJSON" where
  "cJSON_ReplaceItemInObject object str newitem =
    (case name_index str (children object) 0 of
       Some i \<Rightarrow> cJSON_ReplaceItemInArray object (int i) (set_name (Some str) newitem)
     | None \<Rightarrow> object)"

definition cJSON_DeleteItemFromArray :: "cJSON \<Rightarrow> int \<Rightarrow> cJSON" where
  "cJSON_DeleteItemFromArray array which = snd (cJSON_DetachItemFromArray array which)"

definition cJSON_DeleteItemFromObject :: "cJSON \<Rightarrow> string \<Rightarrow> cJSON" where
  "cJSON_DeleteItemFromObject object str = snd (cJSON_DetachItemFromObject object str)"

definition cJSON_CreateIntArray :: "int list \<Rightarrow> cJSON" where
  "cJSON_CreateIntArray numbers = set_children (map (\<lambda>n. cJSON_CreateNumber (of_int_double n)) numbers) cJSON_CreateArray"

definition cJSON_CreateDoubleArray :: "double list \<Rightarrow> cJSON" where
  "cJSON_CreateDoubleArray numbers = set_children (map cJSON_CreateNumber numbers) cJSON_CreateArray"

definition cJSON_CreateStringArray :: "string list \<Rightarrow> cJSON" where
  "cJSON_CreateStringArray strings = set_children (map cJSON_CreateString strings) cJSON_CreateArray"

fun cJSON_Duplicate :: "cJSON \<Rightarrow> bool \<Rightarrow> cJSON" where
  "cJSON_Duplicate (Node k s i d cs n) recurse =
    (if recurse then Node k s i d (map (\<lambda>c. cJSON_Duplicate c True) cs) n else Node k s i d [] n)"

subsection \<open>Minification\<close>

text \<open>The inner loops of \<open>cJSON_Minify\<close>: a string literal after its opening quote, and a block comment. Each is
  \<open>None\<close> where the pointer steps over the terminator: the literal or the comment is never closed.\<close>

fun minify_string :: "string \<Rightarrow> (string \<times> string) option" where
  "minify_string [] = None"
| "minify_string (c # s) =
    (if c = CHR 0x22 then Some ([c], s)
     else if c = CHR 0x5C then
       (case s of [] \<Rightarrow> None | e # s' \<Rightarrow> map_option (apfst (\<lambda>t. c # e # t)) (minify_string s'))
     else map_option (apfst (Cons c)) (minify_string s))"

fun minify_comment :: "string \<Rightarrow> string option" where
  "minify_comment [] = None"
| "minify_comment (c # s) =
    (if c = CHR ''*'' \<and> deref s = CHR ''/'' then Some (tl s) else minify_comment s)"

lemma minify_string_shorter: "minify_string s = Some (t, r) \<Longrightarrow> length r < length s"
proof (induction s arbitrary: t r rule: minify_string.induct)
  case (2 c s)
  then show ?case by (cases s) (auto split: if_splits, fastforce+)
qed simp

lemma minify_comment_shorter: "minify_comment s = Some r \<Longrightarrow> length r < length s"
  by (induction s) (auto split: if_splits)

function cJSON_Minify :: "string \<Rightarrow> string option" where
  "cJSON_Minify [] = Some []"
| "cJSON_Minify (c # s) =
    (if c \<in> {CHR '' '', CHR 0x09, CHR 0x0D, CHR 0x0A} then cJSON_Minify s
     else if c = CHR ''/'' \<and> deref s = CHR ''/'' then cJSON_Minify (dropWhile (\<lambda>x. x \<noteq> CHR 0x0A) s)
     else if c = CHR ''/'' \<and> deref s = CHR ''*'' then
       (case minify_comment s of None \<Rightarrow> None | Some r \<Rightarrow> cJSON_Minify r)
     else if c = CHR 0x22 then
       (case minify_string s of
          None \<Rightarrow> None
        | Some (t, r) \<Rightarrow> map_option (append (c # t)) (cJSON_Minify r))
     else map_option (Cons c) (cJSON_Minify s))"
  by pat_completeness auto
termination
  by (relation "measure length")
    (auto dest: minify_string_shorter minify_comment_shorter simp: length_dropWhile_le less_Suc_eq_le)

end
