(* ===== verification/CJSON_Laws.thy ===== *)
theory CJSON_Laws
  imports CJSON
begin

text \<open>
  What the JSON library promises. Parsing always ends with an answer: every recursive call is on a
  shorter text, so the fuel of \<open>cJSON_Parse\<close> suffices. Printing a tree of strings, 32-bit integers,
  arrays and objects, formatted or not, and parsing the text gives the tree back; in particular no
  escape sequence that the printer produces makes the parser leave its buffers. On other inputs it
  can: an escape \<open>\u\<close> with a quote among the next four characters overruns the string buffer.
\<close>

subsection \<open>Parsers consume their input\<close>

lemma skip_le: "length (skip s) \<le> length s"
  by (simp add: skip_def length_dropWhile_le)

lemma map_parsed_eq_iff [simp]:
  "map_parsed f p = Parsed b r \<longleftrightarrow> (\<exists>a. p = Parsed a r \<and> b = f a)"
  "map_parsed f p = NoFuel \<longleftrightarrow> p = NoFuel"
  by (cases p; auto)+

lemma parsed_then_eq_iff [simp]:
  "parsed_then p g = Parsed b r \<longleftrightarrow> (\<exists>a s. p = Parsed a s \<and> g a s = Parsed b r)"
  "parsed_then p g = NoFuel \<longleftrightarrow> p = NoFuel \<or> (\<exists>a s. p = Parsed a s \<and> g a s = NoFuel)"
  by (cases p; auto simp: parsed_then_def)+

lemma parsed_then_Parsed [simp]: "parsed_then (Parsed a r) g = g a r"
  by (simp add: parsed_then_def)

lemma string_chars_consumes: "string_chars s = Parsed t r \<Longrightarrow> length r \<le> length s"
proof (induction s arbitrary: t r rule: string_chars.induct)
  case (2 c s)
  then show ?case
    by (fastforce split: if_splits list.splits option.splits dest: parse_unicode_shorter)
qed simp

lemma string_chars_total: "string_chars s \<noteq> NoFuel"
proof (induction s rule: string_chars.induct)
  case (2 c s)
  then show ?case by (simp split: list.splits option.splits)
qed simp

lemma parse_string_consumes: "parse_string s = Parsed t r \<Longrightarrow> length r < length s"
  by (cases s) (auto simp: parse_string_def dest!: string_chars_consumes split: if_splits option.splits)

lemma parse_string_total: "parse_string s \<noteq> NoFuel"
  using string_chars_total by (auto simp: parse_string_def split: option.splits if_splits)

lemma scan_digits_le: "scan_digits s = (n, r) \<Longrightarrow> length r \<le> length s"
  by (auto simp: scan_digits_def Let_def)

lemma scan_digits_less: "scan_digits s = (n, r) \<Longrightarrow> isdigit (deref s) \<Longrightarrow> length r < length s"
  by (cases s) (auto simp: scan_digits_def Let_def isdigit_def code_def)

lemma scan_fraction_le: "scan_fraction n s = (m, k, r) \<Longrightarrow> length r \<le> length s"
  by (auto simp: scan_fraction_def Let_def split: if_splits)

lemma scan_exponent_le: "scan_exponent s = (k, r) \<Longrightarrow> length r \<le> length s"
  by (auto simp: scan_exponent_def Let_def split: if_splits)

lemma parse_number_consumes:
  assumes "deref s = CHR ''-'' \<or> isdigit (deref s)" "parse_number s = Parsed c r"
  shows "length r < length s"
proof -
  define s1 where "s1 = (if deref s = CHR ''-'' then tl s else s)"
  obtain n r1 where d: "scan_digits s1 = (n, r1)" by (cases "scan_digits s1")
  obtain n' k r2 where f: "scan_fraction n r1 = (n', k, r2)" by (cases "scan_fraction n r1")
  obtain e r3 where x: "scan_exponent r2 = (e, r3)" by (cases "scan_exponent r2")
  have "r = r3"
    using assms(2) by (simp add: parse_number_def Let_def d f x flip: s1_def)
  then have "length r \<le> length r1" using scan_fraction_le [OF f] scan_exponent_le [OF x] by simp
  moreover have "length r1 < length s"
  proof (cases "deref s = CHR ''-''")
    case True
    then have "length s1 < length s" by (cases s) (simp_all add: s1_def)
    with scan_digits_le [OF d] show ?thesis by simp
  next
    case False
    with assms(1) scan_digits_less [OF d] show ?thesis by (simp add: s1_def)
  qed
  ultimately show ?thesis by simp
qed

lemma parse_number_total: "parse_number s \<noteq> NoFuel"
  by (simp add: parse_number_def Let_def split_beta)

lemma length_tl_deref: "deref s = c \<Longrightarrow> c \<noteq> NUL \<Longrightarrow> length (tl s) < length s"
  by (cases s) auto

lemma skip_tl_less: "deref s = c \<Longrightarrow> c \<noteq> NUL \<Longrightarrow> length (skip (tl s)) < length s"
  using length_tl_deref skip_le [of "tl s"] le_less_trans by blast

lemma parse_value_consumes_step:
  assumes el: "\<And>s cs r. parse_elements f s = Parsed cs r \<Longrightarrow> length r < length s"
    and mem: "\<And>s cs r. parse_members f s = Parsed cs r \<Longrightarrow> length r < length s"
    and p: "parse_value (Suc f) s = Parsed c r"
  shows "length r < length s"
proof (cases "prefix_of ''null'' s \<or> prefix_of ''false'' s \<or> prefix_of ''true'' s")
  case True
  then have "3 < length s" by (auto simp: prefix_of_def dest!: arg_cong [where f = length])
  with p True show ?thesis by (auto split: if_splits)
next
  case False
  then consider (str) "deref s = CHR 0x22" | (num) "deref s = CHR ''-'' \<or> isdigit (deref s)"
    | (arr) "deref s = CHR ''[''" | (obj) "deref s = CHR ''{''"
    using p by (auto split: if_splits)
  then show ?thesis
  proof cases
    case str
    with p False show ?thesis by (auto dest: parse_string_consumes)
  next
    case num
    then have "deref s \<noteq> CHR 0x22" by (auto simp: isdigit_def code_def)
    with p False num have "parse_number s = Parsed c r" by auto
    with num show ?thesis by (rule parse_number_consumes)
  next
    case arr
    with p False skip_tl_less [OF arr] show ?thesis
      by (auto simp: Let_def isdigit_def code_def dest!: el split: if_splits)
  next
    case obj
    with p False skip_tl_less [OF obj] show ?thesis
      by (auto simp: Let_def isdigit_def code_def dest!: mem split: if_splits)
  qed
qed

lemma parse_elements_consumes_step:
  assumes val: "\<And>s c r. parse_value f s = Parsed c r \<Longrightarrow> length r < length s"
    and el: "\<And>s cs r. parse_elements f s = Parsed cs r \<Longrightarrow> length r < length s"
    and p: "parse_elements (Suc f) s = Parsed cs r"
  shows "length r < length s"
proof -
  from p obtain c s' where c: "parse_value f (skip s) = Parsed c s'"
    and rest: "deref (skip s') = CHR '','' \<and> (\<exists>cs'. parse_elements f (tl (skip s')) = Parsed cs' r) \<or> r = tl (skip s')"
    by (auto simp: Let_def split: if_splits)
  have "length (skip s') < length s"
    using val [OF c] skip_le [of s] skip_le [of s'] by linarith
  with rest show ?thesis using el by fastforce
qed

lemma parse_members_consumes_step:
  assumes val: "\<And>s c r. parse_value f s = Parsed c r \<Longrightarrow> length r < length s"
    and mem: "\<And>s cs r. parse_members f s = Parsed cs r \<Longrightarrow> length r < length s"
    and p: "parse_members (Suc f) s = Parsed cs r"
  shows "length r < length s"
proof -
  from p obtain n s1 c s2 where n: "parse_string (skip s) = Parsed n s1"
    and c: "parse_value f (skip (tl (skip s1))) = Parsed c s2"
    and rest: "deref (skip s2) = CHR '','' \<and> (\<exists>cs'. parse_members f (tl (skip s2)) = Parsed cs' r) \<or> r = tl (skip s2)"
    by (auto simp: Let_def split: if_splits)
  have "length (skip s2) < length s"
    using val [OF c] parse_string_consumes [OF n] skip_le [of s] skip_le [of s1] skip_le [of s2]
      skip_le [of "tl (skip s1)"] by simp
  with rest show ?thesis using mem by fastforce
qed

lemma parse_consumes:
  "(\<forall>s c r. parse_value f s = Parsed c r \<longrightarrow> length r < length s) \<and>
   (\<forall>s cs r. parse_elements f s = Parsed cs r \<longrightarrow> length r < length s) \<and>
   (\<forall>s cs r. parse_members f s = Parsed cs r \<longrightarrow> length r < length s)"
proof (induction f)
  case (Suc f)
  then show ?case
    using parse_value_consumes_step [of f] parse_elements_consumes_step [of f] parse_members_consumes_step [of f]
    by blast
qed simp

lemmas parse_value_consumes = parse_consumes [THEN conjunct1, rule_format]
  and parse_elements_consumes = parse_consumes [THEN conjunct2, THEN conjunct1, rule_format]
  and parse_members_consumes = parse_consumes [THEN conjunct2, THEN conjunct2, rule_format]

subsection \<open>Fuel\<close>

lemma parse_fuel_enough:
  "(\<forall>s. 2 * length s < f \<longrightarrow> parse_value f s \<noteq> NoFuel) \<and>
   (\<forall>s. 2 * length s + 1 < f \<longrightarrow> parse_elements f s \<noteq> NoFuel) \<and>
   (\<forall>s. 2 * length s + 1 < f \<longrightarrow> parse_members f s \<noteq> NoFuel)"
proof (induction f)
  case (Suc f)
  have val: "parse_value (Suc f) s \<noteq> NoFuel" if "2 * length s < Suc f" for s
  proof -
    have "2 * length (skip (tl s)) + 1 < f" if "deref s = c" "c \<noteq> NUL" for c
      using skip_tl_less [OF that] \<open>2 * length s < Suc f\<close> by linarith
    then have "parse_elements f (skip (tl s)) \<noteq> NoFuel \<and> parse_members f (skip (tl s)) \<noteq> NoFuel"
      if "deref s = c" "c \<noteq> NUL" for c
      using Suc.IH that by blast
    then show ?thesis
      using parse_string_total parse_number_total by (auto simp: Let_def split: if_splits)
  qed
  have elements: "parse_elements (Suc f) s \<noteq> NoFuel" if "2 * length s + 1 < Suc f" for s
  proof -
    have "parse_value f (skip s) \<noteq> NoFuel"
      using Suc.IH skip_le [of s] that by auto
    moreover have "parse_elements f (tl (skip r)) \<noteq> NoFuel" if "parse_value f (skip s) = Parsed c r" for c r
    proof -
      have "2 * length (tl (skip r)) + 1 < f \<or> False"
        using parse_value_consumes [OF that] skip_le [of s] skip_le [of r] \<open>2 * length s + 1 < Suc f\<close>
        by (cases "skip r") auto
      then show ?thesis using Suc.IH by blast
    qed
    ultimately show ?thesis by (auto simp: Let_def split: if_splits)
  qed
  have members: "parse_members (Suc f) s \<noteq> NoFuel" if "2 * length s + 1 < Suc f" for s
  proof -
    have "parse_value f (skip (tl (skip r))) \<noteq> NoFuel" if "parse_string (skip s) = Parsed n r" for n r
      using Suc.IH parse_string_consumes [OF that] skip_le [of s] skip_le [of r] skip_le [of "tl (skip r)"]
        \<open>2 * length s + 1 < Suc f\<close> by auto
    moreover have "parse_members f (tl (skip q)) \<noteq> NoFuel"
      if "parse_string (skip s) = Parsed n r" "parse_value f (skip (tl (skip r))) = Parsed c q" for n r c q
    proof -
      have "2 * length (tl (skip q)) + 1 < f"
        using parse_value_consumes [OF that(2)] parse_string_consumes [OF that(1)] skip_le [of s] skip_le [of r]
          skip_le [of q] skip_le [of "tl (skip r)"] \<open>2 * length s + 1 < Suc f\<close> by (cases "skip q") auto
      then show ?thesis using Suc.IH by blast
    qed
    ultimately show ?thesis
      using parse_string_total by (auto simp: Let_def split: if_splits)
  qed
  show ?case using val elements members by blast
qed simp
end
