(* ===== verification/CJSON_Roundtrip.thy ===== *)
theory CJSON_Roundtrip
  imports CJSON_Laws
begin

text \<open>
  Printing and parsing of \<open>common/cJSON.c\<close> against each other: what \<open>cJSON_Print\<close> writes, \<open>cJSON_Parse\<close> reads
  back. The proof follows the grammar: strings with their escapes (\<open>parse_print_string\<close>), decimal integers through
  the floating-point accumulation of \<open>parse_number\<close> (\<open>parse_number_show_int\<close>), arrays and objects with the
  layout of either printer (\<open>elements_read\<close>, \<open>members_read\<close>), then whole documents (\<open>print_reads\<close>). The
  theory closes with the totality of the parser and the input on which its string reader leaves its buffer.
\<close>

subsection \<open>Documents and texts\<close>

definition number_ends :: "string \<Rightarrow> bool" where
  "number_ends r \<longleftrightarrow> \<not> isdigit (deref r) \<and> deref r \<noteq> CHR ''.'' \<and> deref r \<noteq> CHR ''e'' \<and> deref r \<noteq> CHR ''E''"

text \<open>Documents in the form the parser builds them: each value has only the fields of its kind, numbers are
  machine integers, strings are C strings, members have names and elements have none.\<close>

fun plain_json :: "cJSON \<Rightarrow> bool" where
  "plain_json (Node k s i d cs n) =
    (case k of
       cJSON_NULL \<Rightarrow> s = None \<and> i = 0 \<and> d = Fin 0 \<and> cs = []
     | cJSON_False \<Rightarrow> s = None \<and> i = 0 \<and> d = Fin 0 \<and> cs = []
     | cJSON_True \<Rightarrow> s = None \<and> i = 1 \<and> d = Fin 0 \<and> cs = []
     | cJSON_Number \<Rightarrow> s = None \<and> INT_MIN \<le> i \<and> i \<le> INT_MAX \<and> d = Fin (of_int i) \<and> cs = []
     | cJSON_String \<Rightarrow> (case s of None \<Rightarrow> False | Some t \<Rightarrow> is_cstr t) \<and> i = 0 \<and> d = Fin 0 \<and> cs = []
     | cJSON_Array \<Rightarrow> s = None \<and> i = 0 \<and> d = Fin 0 \<and> (\<forall>c \<in> set cs. item_name c = None \<and> plain_json c)
     | cJSON_Object \<Rightarrow> s = None \<and> i = 0 \<and> d = Fin 0 \<and>
         (\<forall>c \<in> set cs. (case item_name c of None \<Rightarrow> False | Some nm \<Rightarrow> is_cstr nm) \<and> plain_json c))"

text \<open>\<open>reads v t\<close>: wherever the text \<open>t\<close> is followed by something that ends a number, the parser reads \<open>v\<close>
  from it.\<close>

definition reads :: "cJSON \<Rightarrow> string \<Rightarrow> bool" where
  "reads v t \<longleftrightarrow> 32 < code (deref t) \<and> deref t \<noteq> CHR '']'' \<and>
     (\<forall>fuel r. number_ends r \<longrightarrow> 2 * length (t @ r) < fuel \<longrightarrow> parse_value fuel (t @ r) = Parsed v r)"

definition blank :: "string \<Rightarrow> bool" where
  "blank ws \<longleftrightarrow> (\<forall>c \<in> set ws. code c \<le> 32)"

definition member_reads :: "cJSON \<Rightarrow> string \<Rightarrow> bool" where
  "member_reads c m \<longleftrightarrow> (\<exists>n e ws1 ws2. item_name c = Some n \<and> is_cstr n \<and> reads (set_name None c) e \<and>
     blank ws1 \<and> blank ws2 \<and> m = ws1 @ print_string_ptr n @ CHR '':'' # ws2 @ e)"

subsection \<open>Strings\<close>

lemma hex_value_digit: "n < 16 \<Longrightarrow> hex_value (hex_digit n) = Some n"
  by (auto simp: hex_value_def hex_digit_def isdigit_def)

lemma parse_hex4_control: "parse_hex4 (CHR ''0'' # CHR ''0'' # show_hex2 n @ rest) = n" if "n < 256"
proof -
  have "n div 16 < 16" using that by auto
  moreover have "hex_value (CHR ''0'') = Some 0" by (simp add: hex_value_def isdigit_def code_def)
  ultimately show ?thesis
    by (simp add: parse_hex4_def show_hex2_def hex_value_digit)
qed

lemma code_less: "code c < 256"
proof -
  have "code c = code c mod 256" by (simp add: code_def)
  then show ?thesis by (metis mod_less_divisor zero_less_numeral)
qed

lemma char_of_code [simp]: "char_of (code c) = c"
  by (simp add: code_def)

lemma code_pos: "c \<noteq> NUL \<Longrightarrow> 0 < code c"
proof (rule ccontr)
  assume "c \<noteq> NUL" "\<not> 0 < code c"
  then have "c = char_of (0 :: nat)" by (metis char_of_code gr0I)
  with \<open>c \<noteq> NUL\<close> show False by (simp add: char_of_def)
qed

lemma parse_unicode_control:
  "code c < 32 \<Longrightarrow> c \<noteq> NUL \<Longrightarrow> parse_unicode (''00'' @ show_hex2 (code c) @ rest) = Some ([c], rest)"
  using parse_hex4_control [of "code c" rest] code_pos [of c]
  by (simp add: parse_unicode_def Let_def utf8_def) (simp add: show_hex2_def)

lemma string_chars_escape:
  assumes "c \<noteq> NUL"
  shows "string_chars (escape_char c @ rest) = map_parsed (Cons c) (string_chars rest)"
proof (cases "plain_char c")
  case True
  then show ?thesis by (simp add: escape_char_def plain_char_def)
next
  case False
  show ?thesis
  proof (cases "c \<in> {CHR 0x5C, CHR 0x22, CHR 0x08, CHR 0x0C, CHR 0x0A, CHR 0x0D, CHR 0x09}")
    case True
    with False show ?thesis by (auto simp: escape_char_def simple_escape_def)
  next
    case other: False
    with False have "code c < 32" by (auto simp: plain_char_def)
    then have "parse_unicode (CHR ''0'' # CHR ''0'' # show_hex2 (code c) @ rest) = Some ([c], rest)"
      using parse_unicode_control [of c rest] assms by simp
    moreover have "escape_char c = CHR 0x5C # ''u00'' @ show_hex2 (code c)"
      using False other by (simp add: escape_char_def)
    moreover have "(@) [c] = (#) c" by (rule ext) simp
    ultimately show ?thesis by simp
  qed
qed

lemma string_chars_print:
  "is_cstr s \<Longrightarrow> string_chars (concat (map escape_char s) @ CHR 0x22 # rest) = Parsed s rest"
  by (induction s) (simp_all add: string_chars_escape)

lemma string_size_plain: "plain_char c \<Longrightarrow> string_size (c # s) = map_option Suc (string_size s)"
  by (simp add: plain_char_def)

lemma hex_digit_plain: "n < 16 \<Longrightarrow> plain_char (hex_digit n)"
  proof -
  assume "n < 16"
  then have "code (hex_digit n) = (if n < 10 then 48 + n else 87 + n)" by (simp add: hex_digit_def code_def)
  then have "code (hex_digit n) \<noteq> 34 \<and> code (hex_digit n) \<noteq> 92 \<and> 31 < code (hex_digit n)"
    using \<open>n < 16\<close> by simp
  then show ?thesis by (auto simp: plain_char_def code_def)
qed

lemma string_size_escape:
  "\<exists>k>0. string_size (escape_char c @ rest) = map_option ((+) k) (string_size rest)"
proof (cases "plain_char c")
  case True
  then have "escape_char c = [c]" by (simp add: escape_char_def)
  with True have "string_size (escape_char c @ rest) = map_option Suc (string_size rest)"
    using string_size_plain by simp
  then show ?thesis by - (rule exI [of _ 1], simp only: plus_1_eq_Suc zero_less_one simp_thms)
next
  case False
  show ?thesis
  proof (cases "c \<in> {CHR 0x5C, CHR 0x22, CHR 0x08, CHR 0x0C, CHR 0x0A, CHR 0x0D, CHR 0x09}")
    case True
    with False obtain e where "escape_char c = [CHR 0x5C, e]"
      by (auto simp: escape_char_def split: if_splits)
    then have "string_size (escape_char c @ rest) = map_option Suc (string_size rest)" by simp
    then show ?thesis by - (rule exI [of _ 1], simp only: plus_1_eq_Suc zero_less_one simp_thms)
  next
    case other: False
    have "code c div 16 mod 16 < 16" "code c mod 16 < 16" by simp_all
    then have "string_size (show_hex2 (code c) @ rest) = map_option (Suc \<circ> Suc) (string_size rest)"
      by (simp add: show_hex2_def string_size_plain hex_digit_plain option.map_comp del: string_size.simps)
    moreover have "escape_char c = CHR 0x5C # ''u00'' @ show_hex2 (code c)"
      using False other by (simp add: escape_char_def)
    ultimately have "string_size (escape_char c @ rest) = map_option ((+) 5) (string_size rest)"
      by (cases "string_size rest") simp_all
    then show ?thesis by - (rule exI [of _ 5], simp)
  qed
qed

lemma string_size_print:
  "\<exists>k. string_size (concat (map escape_char s) @ CHR 0x22 # rest) = Some k \<and> length s \<le> k"
proof (induction s)
  case (Cons c s)
  then obtain k where k: "string_size (concat (map escape_char s) @ CHR 0x22 # rest) = Some k" "length s \<le> k" by blast
  obtain m where "0 < m" "string_size (escape_char c @ concat (map escape_char s) @ CHR 0x22 # rest) =
      map_option ((+) m) (string_size (concat (map escape_char s) @ CHR 0x22 # rest))"
    using string_size_escape by blast
  with k show ?case by (intro exI [of _ "m + k"]) simp
qed simp

lemma print_string_ptr_escape: "is_cstr s \<Longrightarrow> print_string_ptr s = CHR 0x22 # concat (map escape_char s) @ [CHR 0x22]"
proof (cases "\<forall>c \<in> set s. \<not> (code c < 32 \<or> c = CHR 0x22 \<or> c = CHR 0x5C)")
  case True
  then have "concat (map escape_char s) = s"
    by (induction s) (simp_all add: escape_char_def plain_char_def)
  with True show ?thesis by (simp add: print_string_ptr_def)
qed (auto simp: print_string_ptr_def)

lemma parse_print_string: "is_cstr s \<Longrightarrow> parse_string (print_string_ptr s @ rest) = Parsed s rest"
  using string_size_print [of s rest] by (auto simp: parse_string_def print_string_ptr_escape string_chars_print)

subsection \<open>Numbers\<close>

lemma digits_read:
  "\<forall>c \<in> set ds. isdigit c \<Longrightarrow> read_nat ds < 2 ^ 53 \<Longrightarrow>
    foldl digit_step (Fin 0) ds = Fin (of_nat (read_nat ds))"
proof (induction ds rule: rev_induct)
  case Nil
  then show ?case by (simp add: read_nat_def)
next
  case (snoc c ds)
  then have lt: "10 * read_nat ds + digit_value c < 2 ^ 53" by (simp add: read_nat_snoc)
  then have "read_nat ds < 2 ^ 53" by simp
  with snoc have ih: "foldl digit_step (Fin 0) ds = Fin (of_int (int (read_nat ds)))" by simp
  have "dmul (Fin (of_int (int (read_nat ds)))) (Fin (of_int 10)) = Fin (of_int (int (read_nat ds) * 10))"
    using lt by (intro dmul_ints) simp
  moreover have "dadd (Fin (of_int (int (read_nat ds) * 10))) (Fin (of_int (int (digit_value c)))) =
      Fin (of_int (int (read_nat ds) * 10 + int (digit_value c)))"
    using lt by (intro dadd_ints) simp
  ultimately have "digit_step (Fin (of_int (int (read_nat ds)))) c = Fin (of_int (int (read_nat ds) * 10 + int (digit_value c)))"
    by (simp add: digit_step_def)
  then show ?case using ih by (simp add: read_nat_snoc algebra_simps)
qed

lemma takeWhile_digits:
  "\<forall>c \<in> set ds. P c \<Longrightarrow> \<not> P (deref r) \<Longrightarrow> \<not> P NUL \<Longrightarrow> takeWhile P (ds @ r) = ds"
  by (cases r) auto

lemma scan_digits_show:
  assumes "n < 2 ^ 53" "number_ends r"
  shows "scan_digits (show_nat n @ r) = (Fin (of_nat n), r)"
proof (cases "n = 0")
  case True
  then show ?thesis using assms(2) by (simp add: scan_digits_def number_ends_def)
next
  case False
  have d: "deref (show_nat n @ r) = deref (show_nat n)" by (cases "show_nat n") simp_all
  have "takeWhile isdigit (show_nat n @ r) = show_nat n"
    using assms(2) show_nat_digits by (intro takeWhile_digits) (simp_all add: number_ends_def isdigit_def code_def)
  then show ?thesis
    using False assms(1) show_nat_head_nonzero [of n] digits_read [OF show_nat_digits, of n]
    by (simp add: scan_digits_def d read_show_nat)
qed

lemma parse_number_show_nat:
  assumes "n < 2 ^ 31 + 1" "number_ends r" "sg = 1 \<or> sg = - 1"
  shows "dmul (dmul (Fin (of_int sg)) (Fin (of_nat n))) (pow10 0) = Fin (of_int (sg * int n))"
proof -
  have "dmul (Fin (of_int sg)) (Fin (of_int (int n))) = Fin (of_int (sg * int n))"
    using assms by (intro dmul_ints) auto
  moreover have "dmul (Fin (of_int (sg * int n))) (Fin (of_int 1)) = Fin (of_int (sg * int n * 1))"
    using assms by (intro dmul_ints) auto
  ultimately show ?thesis by (simp add: pow10_0)
qed

lemma parse_number_show_int:
  assumes "INT_MIN \<le> i" "i \<le> INT_MAX" "number_ends r"
  shows "parse_number (show_int i @ r) = Parsed (Node cJSON_Number None i (Fin (of_int i)) [] None) r"
proof -
  have frac: "scan_fraction x r = (x, 0, r)" "scan_exponent r = (0, r)" for x
    using assms(3) by (simp_all add: scan_fraction_def scan_exponent_def number_ends_def)
  have bound: "nat \<bar>i\<bar> < 2 ^ 31 + 1" using assms by (simp add: INT_MIN_def INT_MAX_def)
  have digits: "scan_digits (show_nat (nat \<bar>i\<bar>) @ r) = (Fin (of_nat (nat \<bar>i\<bar>)), r)"
    using bound by (intro scan_digits_show [OF _ assms(3)]) simp
  have ti: "to_int (Fin (of_int i)) = i" using assms by (simp add: to_int_of_int)
  show ?thesis
  proof (cases "i < 0")
    case True
    have "dmul (dmul (Fin (- 1)) (Fin (of_nat (nat \<bar>i\<bar>)))) (pow10 0) = Fin (of_int i)"
      using parse_number_show_nat [OF bound assms(3), of "- 1"] True by simp
    then show ?thesis using True digits by (simp add: parse_number_def show_int_def frac ti)
  next
    case False
    have "dmul (dmul (Fin 1) (Fin (of_nat (nat \<bar>i\<bar>)))) (pow10 0) = Fin (of_int i)"
      using parse_number_show_nat [OF bound assms(3), of 1] False by simp
    moreover have "deref (show_nat (nat i) @ r) \<noteq> CHR ''-''"
      using show_nat_head [of "nat i"] digit_not_special by auto
    ultimately show ?thesis using False digits by (simp add: parse_number_def show_int_def frac ti)
  qed
qed

lemma print_number_int:
  "INT_MIN \<le> i \<Longrightarrow> i \<le> INT_MAX \<Longrightarrow> print_number i (Fin (of_int i)) = show_int i"
  by (simp add: print_number_def DBL_EPSILON_def show_int_def)

subsection \<open>Values\<close>

lemma skip_blank: "blank ws \<Longrightarrow> 32 < code (deref t) \<Longrightarrow> skip (ws @ t) = t"
  by (induction ws) (cases t; simp add: skip_def blank_def)+

lemma deref_append: "32 < code (deref t) \<Longrightarrow> deref (t @ r) = deref t"
  by (cases t) (simp_all add: code_def)

lemma readsD:
  assumes "reads v t"
  shows "blank ws \<Longrightarrow> skip (ws @ t @ r) = t @ r"
    and "number_ends r \<Longrightarrow> 2 * length (t @ r) < fuel \<Longrightarrow> parse_value fuel (t @ r) = Parsed v r"
    and "t \<noteq> []" and "deref (t @ r) \<noteq> CHR '']''"
  using assms skip_blank [of ws "t @ r"] deref_append [of t r]
  by (auto simp: reads_def) (auto simp: code_def)

lemma ends_code: "code c \<noteq> 46 \<Longrightarrow> code c \<noteq> 69 \<Longrightarrow> code c \<noteq> 101 \<Longrightarrow> \<not> (48 \<le> code c \<and> code c \<le> 57) \<Longrightarrow>
    number_ends (c # r)"
  by (auto simp: number_ends_def isdigit_def code_def)

lemma number_ends_punct [simp]:
  "number_ends (CHR '','' # r)" "number_ends (CHR '']'' # r)" "number_ends (CHR ''}'' # r)"
  "number_ends (CHR 0x0A # r)" "number_ends []"
  by (simp_all add: number_ends_def isdigit_def code_def)

lemma skip_punct:
  "blank ws \<Longrightarrow> 32 < code c \<Longrightarrow> skip (ws @ c # r) = c # r"
  using skip_blank [of ws "c # r"] by simp

lemma elements_read:
  assumes "list_all2 reads cs es" "cs \<noteq> []" "blank ws" "blank sp"
    "2 * length (ws @ join (CHR '','' # sp) es @ CHR '']'' # r) + 1 < fuel"
  shows "parse_elements fuel (ws @ join (CHR '','' # sp) es @ CHR '']'' # r) = Parsed cs r"
  using assms
proof (induction arbitrary: ws fuel rule: list_all2_induct)
  case (Cons c cs e es)
  then obtain f where f: "fuel = Suc f" by (cases fuel) auto
  note rd = readsD [OF Cons(1)]
  show ?case
  proof (cases es)
    case Nil
    with Cons have "cs = []" by simp
    have "skip (CHR '']'' # r) = CHR '']'' # r" by (simp add: skip_def code_def)
    then show ?thesis using Nil \<open>cs = []\<close> Cons.prems f
      by (simp add: rd parsed_then_def)
  next
    case (Cons e' es')
    let ?more = "sp @ join (CHR '','' # sp) es @ CHR '']'' # r"
    have sk: "skip (CHR '','' # ?more) = CHR '','' # ?more" by (simp add: skip_def code_def)
    have "cs \<noteq> []" using Cons \<open>list_all2 reads cs es\<close> by auto
    then have ih: "parse_elements f ?more = Parsed cs r"
      using Cons.IH [of sp f] \<open>blank sp\<close> Cons f Cons.prems by simp
    have "parse_value f (e @ CHR '','' # ?more) = Parsed c (CHR '','' # ?more)"
      using Cons Cons.prems f by (intro rd) simp_all
    then show ?thesis using f Cons ih sk by (simp add: rd parsed_then_def \<open>blank ws\<close>)
  qed
qed simp

lemma print_string_ptr_head: "is_cstr s \<Longrightarrow> deref (print_string_ptr s @ r) = CHR 0x22"
  by (simp add: print_string_ptr_escape)

lemma set_name_idem [simp]:
  "set_name n (set_name n' c) = set_name n c" "item_name c = n \<Longrightarrow> set_name n c = c"
  by (cases c; simp)+

lemma member_step:
  assumes "member_reads c m" "blank ws" "number_ends r" "2 * length (m @ r) < f"
  shows "parse_members (Suc f) (ws @ m @ r) =
    (let v' = skip r in
     if deref v' = CHR '','' then map_parsed (Cons c) (parse_members f (tl v'))
     else if deref v' = CHR ''}'' then Parsed [c] (tl v')
     else Failed)"
proof -
  obtain n e ws1 ws2 where m: "item_name c = Some n" "is_cstr n" "reads (set_name None c) e" "blank ws1" "blank ws2"
    "m = ws1 @ print_string_ptr n @ CHR '':'' # ws2 @ e"
    using assms(1) unfolding member_reads_def by blast
  have "blank (ws @ ws1)" using assms(2) m(4) by (auto simp: blank_def)
  then have sk: "skip (ws @ m @ r) = print_string_ptr n @ CHR '':'' # ws2 @ e @ r"
    using skip_blank [of "ws @ ws1" "print_string_ptr n @ CHR '':'' # ws2 @ e @ r"] m
    by (simp add: print_string_ptr_head code_def)
  have sc: "skip (CHR '':'' # ws2 @ e @ r) = CHR '':'' # ws2 @ e @ r" by (simp add: skip_def code_def)
  have "parse_value f (e @ r) = Parsed (set_name None c) r"
    using assms m by (intro readsD [OF m(3)]) simp_all
  moreover have "skip (ws2 @ e @ r) = e @ r" using readsD(1) [OF m(3,5)] .
  ultimately show ?thesis
    using m(1,2) by (simp add: sk parse_print_string parsed_then_def sc cong: if_cong)
qed

lemma members_read:
  assumes "list_all2 member_reads cs ms" "cs \<noteq> []" "blank ws" "blank sp" "blank we" "sp = [] \<or> sp = [CHR 0x0A]"
    "number_ends (we @ CHR ''}'' # r)"
    "2 * length (ws @ join (CHR '','' # sp) ms @ we @ CHR ''}'' # r) + 1 < fuel"
  shows "parse_members fuel (ws @ join (CHR '','' # sp) ms @ we @ CHR ''}'' # r) = Parsed cs r"
  using assms
proof (induction arbitrary: ws fuel rule: list_all2_induct)
  case (Cons c cs m ms)
  then obtain f where f: "fuel = Suc f" by (cases fuel) auto
  have se: "skip (we @ CHR ''}'' # r) = CHR ''}'' # r" using Cons.prems by (simp add: skip_punct code_def)
  show ?case
  proof (cases ms)
    case Nil
    with Cons have "cs = []" by simp
    then show ?thesis
      using member_step [OF \<open>member_reads c m\<close> \<open>blank ws\<close>, of "we @ CHR ''}'' # r" f] Nil Cons.prems f
      by (simp add: se del: parse_members.simps)
  next
    case (Cons m' ms')
    let ?more = "sp @ join (CHR '','' # sp) ms @ we @ CHR ''}'' # r"
    have sk: "skip (CHR '','' # ?more) = CHR '','' # ?more" by (simp add: skip_def code_def)
    have "cs \<noteq> []" using Cons \<open>list_all2 member_reads cs ms\<close> by auto
    then have ih: "parse_members f ?more = Parsed cs r"
      using Cons.IH [of sp f] Cons f Cons.prems by simp
    have "2 * length (m @ CHR '','' # ?more) < f" using Cons f Cons.prems by simp
    then show ?thesis
      using member_step [OF \<open>member_reads c m\<close> \<open>blank ws\<close>, of "CHR '','' # ?more" f] f Cons ih sk
      by (simp del: parse_members.simps)
  qed
qed simp

lemma readsI:
  assumes "32 < code (deref t)" "deref t \<noteq> CHR '']''"
    "\<And>fuel r. number_ends r \<Longrightarrow> 2 * length (t @ r) < Suc fuel \<Longrightarrow> parse_value (Suc fuel) (t @ r) = Parsed v r"
  shows "reads v t"
  unfolding reads_def using assms by (metis gr0_implies_Suc less_nat_zero_code not_gr_zero)

lemma reads_literal:
  "reads (Node cJSON_NULL None 0 (Fin 0) [] None) ''null''"
  "reads (Node cJSON_False None 0 (Fin 0) [] None) ''false''"
  "reads (Node cJSON_True None 1 (Fin 0) [] None) ''true''"
  by (rule readsI; simp add: code_def prefix_of_def)+

lemma parse_value_number:
  assumes "c = CHR ''-'' \<or> isdigit c"
  shows "parse_value (Suc f) (c # t) = parse_number (c # t)"
proof -
  have "code c = 45 \<or> 48 \<le> code c \<and> code c \<le> 57" using assms by (auto simp: code_def isdigit_def)
  then have "c \<noteq> CHR ''n''" "c \<noteq> CHR ''f''" "c \<noteq> CHR ''t''" "c \<noteq> CHR 0x22" by (auto simp: code_def)
  then show ?thesis using assms by (simp add: prefix_of_def)
qed

lemma reads_number:
  assumes "INT_MIN \<le> i" "i \<le> INT_MAX"
  shows "reads (Node cJSON_Number None i (Fin (of_int i)) [] None) (show_int i)"
proof -
  obtain c t where t: "show_int i = c # t" "c = CHR ''-'' \<or> isdigit c"
    using show_nat_head [of "nat i"] by (cases "i < 0") (auto simp: show_int_def)
  then have c: "code c = 45 \<or> 48 \<le> code c \<and> code c \<le> 57" by (auto simp: code_def isdigit_def)
  show ?thesis
  proof (rule readsI)
    show "32 < code (deref (show_int i))" using c t by auto
    show "deref (show_int i) \<noteq> CHR '']''" using c t by (auto simp: code_def)
    show "parse_value (Suc fuel) (show_int i @ r) = Parsed (Node cJSON_Number None i (Fin (of_int i)) [] None) r"
      if "number_ends r" for fuel r
      using parse_number_show_int [OF assms that] parse_value_number [OF t(2)] t(1) by (simp only: append_Cons)
  qed
qed

lemma reads_string:
  assumes "is_cstr s" shows "reads (Node cJSON_String (Some s) 0 (Fin 0) [] None) (print_string_ptr s)"
proof (rule readsI)
  have hd: "deref (print_string_ptr s @ r) = CHR 0x22" for r by (rule print_string_ptr_head [OF assms])
  then show "32 < code (deref (print_string_ptr s))" "deref (print_string_ptr s) \<noteq> CHR '']''"
    using hd [of "[]"] by (simp_all add: code_def)
  fix fuel r
  obtain t where t: "print_string_ptr s = CHR 0x22 # t" by (simp add: print_string_ptr_escape assms)
  have "parse_value (Suc fuel) (CHR 0x22 # u) =
      map_parsed (\<lambda>t. Node cJSON_String (Some t) 0 (Fin 0) [] None) (parse_string (CHR 0x22 # u))" for u
    by (simp add: prefix_of_def)
  then show "parse_value (Suc fuel) (print_string_ptr s @ r) =
      Parsed (Node cJSON_String (Some s) 0 (Fin 0) [] None) r"
    using parse_print_string [OF assms, of r] t by simp
qed

lemma those_all2:
  "\<forall>c \<in> set cs. \<exists>t. p c = Some t \<and> R c t \<Longrightarrow> \<exists>ts. those (map p cs) = Some ts \<and> list_all2 R cs ts"
proof (induction cs)
  case (Cons c cs)
  then obtain t ts where "p c = Some t" "R c t" "those (map p cs) = Some ts" "list_all2 R cs ts" by auto
  then show ?case by (intro exI [of _ "t # ts"]) simp
qed simp

lemma parse_elements_skip: "parse_elements fuel (skip s) = parse_elements fuel s"
  by (cases fuel) (simp_all add: skip_def)

lemma parse_members_skip: "parse_members fuel (skip s) = parse_members fuel s"
  by (cases fuel) (simp_all add: skip_def)

lemma parse_value_array:
  "parse_value (Suc f) (CHR ''['' # s) =
    (if deref (skip s) = CHR '']'' then Parsed (Node cJSON_Array None 0 (Fin 0) [] None) (tl (skip s))
     else map_parsed (\<lambda>cs. Node cJSON_Array None 0 (Fin 0) cs None) (parse_elements f s))"
  using parse_elements_skip [of f s] by (simp add: prefix_of_def isdigit_def code_def Let_def)

lemma parse_value_object:
  "parse_value (Suc f) (CHR ''{'' # s) =
    (if deref (skip s) = CHR ''}'' then Parsed (Node cJSON_Object None 0 (Fin 0) [] None) (tl (skip s))
     else map_parsed (\<lambda>cs. Node cJSON_Object None 0 (Fin 0) cs None) (parse_members f s))"
  using parse_members_skip [of f s] by (simp add: prefix_of_def isdigit_def code_def Let_def)

lemma join_Cons_append: "\<exists>u. join sep (e # es) @ r = e @ u"
  by (cases es) auto

lemma reads_array:
  assumes "list_all2 reads cs es" "cs \<noteq> []" "blank sp"
  shows "reads (Node cJSON_Array None 0 (Fin 0) cs None) (CHR ''['' # join (CHR '','' # sp) es @ '']'')"
proof (rule readsI)
  fix fuel r
  assume "2 * length ((CHR ''['' # join (CHR '','' # sp) es @ '']'') @ r) < Suc fuel"
  then have "parse_elements fuel (join (CHR '','' # sp) es @ CHR '']'' # r) = Parsed cs r"
    using elements_read [OF assms(1,2) _ assms(3), of "[]" r fuel] by (simp add: blank_def)
  moreover obtain c cs' e es' where "cs = c # cs'" "es = e # es'" "reads c e"
    using assms(1,2) by (cases cs; cases es) auto
  moreover obtain u where u: "join (CHR '','' # sp) (e # es') @ CHR '']'' # r = e @ u"
    using join_Cons_append by blast
  moreover have "deref (skip (e @ u)) \<noteq> CHR '']''"
    using readsD(1) [OF \<open>reads c e\<close>, of "[]" u] readsD(4) [OF \<open>reads c e\<close>, of u] by (simp add: blank_def)
  ultimately show "parse_value (Suc fuel) ((CHR ''['' # join (CHR '','' # sp) es @ '']'') @ r) =
      Parsed (Node cJSON_Array None 0 (Fin 0) cs None) r"
    by (simp add: parse_value_array del: parse_value.simps)
qed (simp_all add: code_def)

lemma member_head:
  assumes "member_reads c m" "blank ws" shows "deref (skip (ws @ m @ u)) = CHR 0x22"
proof -
  obtain n e ws1 ws2 where m: "is_cstr n" "blank ws1" "m = ws1 @ print_string_ptr n @ CHR '':'' # ws2 @ e"
    using assms(1) unfolding member_reads_def by blast
  have "blank (ws @ ws1)" using assms(2) m(2) by (auto simp: blank_def)
  then have "skip (ws @ m @ u) = print_string_ptr n @ CHR '':'' # ws2 @ e @ u"
    using skip_blank [of "ws @ ws1" "print_string_ptr n @ CHR '':'' # ws2 @ e @ u"] m(1,3)
    by (simp add: print_string_ptr_head code_def)
  then show ?thesis using m(1) by (simp add: print_string_ptr_head)
qed

lemma reads_object:
  assumes "list_all2 member_reads cs ms" "cs \<noteq> []" "sp = [] \<or> sp = [CHR 0x0A]" "blank we"
    "\<And>r. number_ends (we @ CHR ''}'' # r)"
  shows "reads (Node cJSON_Object None 0 (Fin 0) cs None) (CHR ''{'' # sp @ join (CHR '','' # sp) ms @ we @ ''}'')"
proof (rule readsI)
  fix fuel r
  have sp: "blank sp" using assms(3) by (auto simp: blank_def code_def)
  assume "2 * length ((CHR ''{'' # sp @ join (CHR '','' # sp) ms @ we @ ''}'') @ r) < Suc fuel"
  then have "parse_members fuel (sp @ join (CHR '','' # sp) ms @ we @ CHR ''}'' # r) = Parsed cs r"
    using members_read [OF assms(1,2) sp sp assms(4,3,5), of r fuel] by simp
  moreover obtain c cs' m ms' where "cs = c # cs'" "ms = m # ms'" "member_reads c m"
    using assms(1,2) by (cases cs; cases ms) auto
  moreover obtain u where u: "join (CHR '','' # sp) (m # ms') @ we @ CHR ''}'' # r = m @ u"
    using join_Cons_append by blast
  moreover have "deref (skip (sp @ m @ u)) = CHR 0x22" by (rule member_head [OF \<open>member_reads c m\<close> sp])
  ultimately show "parse_value (Suc fuel) ((CHR ''{'' # sp @ join (CHR '','' # sp) ms @ we @ ''}'') @ r) =
      Parsed (Node cJSON_Object None 0 (Fin 0) cs None) r"
    by (simp add: parse_value_object del: parse_value.simps)
qed (simp_all add: code_def)

lemma reads_empty:
  "reads (Node cJSON_Array None 0 (Fin 0) [] None) ''[]''"
  "blank ws \<Longrightarrow> reads (Node cJSON_Object None 0 (Fin 0) [] None) (CHR ''{'' # ws @ ''}'')"
proof -
  show "reads (Node cJSON_Array None 0 (Fin 0) [] None) ''[]''"
    by (rule readsI) (simp_all add: parse_value_array skip_def code_def del: parse_value.simps)
  show "reads (Node cJSON_Object None 0 (Fin 0) [] None) (CHR ''{'' # ws @ ''}'')" if "blank ws"
    by (rule readsI)
      (simp_all add: parse_value_object skip_punct [OF that] code_def del: parse_value.simps)
qed

lemma blank_layout [simp]: "blank []" "blank (tabs n)" "blank (newline f)" "blank (a @ b) \<longleftrightarrow> blank a \<and> blank b"
  "blank [CHR '' '']" "blank [CHR 0x0A]"
  by (auto simp: blank_def tabs_def newline_def code_def)

lemma print_reads:
  "plain_json v \<Longrightarrow> \<exists>t. print_value f depth v = Some t \<and> reads (set_name None v) t"
proof (induction v arbitrary: depth)
  case (Node k s i d cs n)
  show ?case
  proof (cases k)
    case cJSON_Array
    with Node have el: "\<forall>c \<in> set cs. \<exists>t. print_value f (depth + 1) c = Some t \<and> reads c t"
      by fastforce
    then obtain es where "those (map (print_value f (depth + 1)) cs) = Some es" "list_all2 reads cs es"
      using those_all2 [of cs "print_value f (depth + 1)" reads] by blast
    then show ?thesis
      using cJSON_Array Node.prems reads_empty(1) reads_array [of cs es "if f then '' '' else []"]
      by (cases "cs = []"; cases f) (auto simp: print_array_def)
  next
    case cJSON_Object
    let ?p = "\<lambda>c. print_member f (depth + 1) (item_name c) (print_value f (depth + 1) c)"
    have "\<exists>t. ?p c = Some t \<and> member_reads c t" if mem: "c \<in> set cs" for c
    proof -
      have "plain_json c" "\<exists>nm. item_name c = Some nm \<and> is_cstr nm"
        using Node.prems mem cJSON_Object by (auto split: option.splits)
      then obtain nm t where "item_name c = Some nm" "is_cstr nm" "print_value f (depth + 1) c = Some t"
        "reads (set_name None c) t" using Node.IH [OF mem] by blast
      then show ?thesis
        by (intro exI conjI) (auto simp: print_member_def member_reads_def intro!: exI)
    qed
    then obtain ms where ms: "those (map ?p cs) = Some ms" "list_all2 member_reads cs ms"
      using those_all2 [of cs ?p member_reads] by blast
    have "number_ends ((newline f @ (if f then tabs depth else [])) @ CHR ''}'' # r)" for r
      by (cases f) (simp_all add: newline_def)
    then show ?thesis
      using cJSON_Object Node.prems ms reads_empty(2) [of "newline f @ (if f then tabs (depth - 1) else [])"]
        reads_object [OF ms(2), of "newline f" "newline f @ (if f then tabs depth else [])"]
      by (cases "cs = []") (auto simp: print_object_def newline_def)
  qed (use Node.prems reads_literal reads_number reads_string print_number_int in \<open>auto split: option.splits\<close>)
qed

lemma parse_print:
  assumes "plain_json v" "item_name v = None"
  shows "\<exists>t. print_value f 0 v = Some t \<and> cJSON_Parse t = Some (Some v)"
proof -
  obtain t where t: "print_value f 0 v = Some t" "reads v t" using print_reads [OF assms(1), of f 0] assms(2) by auto
  have "parse_value (parse_fuel t) t = Parsed v []"
    using readsD(2) [OF t(2), of "[]" "parse_fuel t"] by (simp add: parse_fuel_def)
  moreover have "skip t = t" using readsD(1) [OF t(2), of "[]" "[]"] by simp
  ultimately show ?thesis using t by (simp add: cJSON_Parse_def cJSON_ParseWithOpts_def parsed_then_def)
qed

text \<open>C10: \<open>cJSON_Print\<close> and \<open>cJSON_PrintUnformatted\<close> of every document in the form the parser
  builds return a text, and \<open>cJSON_Parse\<close> of that text returns the same document, without a memory error.\<close>

theorem cjson_roundtrip:
  assumes "plain_json v" "item_name v = None"
  shows "\<exists>t u. cJSON_Print v = Some t \<and> cJSON_Parse t = Some (Some v) \<and>
    cJSON_PrintUnformatted v = Some u \<and> cJSON_Parse u = Some (Some v)"
  using parse_print [OF assms, of True] parse_print [OF assms, of False]
  by (auto simp: cJSON_Print_def cJSON_PrintUnformatted_def)

theorem cjson_roundtrip_witness:
  "\<exists>t u. cJSON_Print (cJSON_AddNumberToObject (cJSON_AddStringToObject cJSON_CreateObject ''user'' [CHR ''a'', CHR 0x22, CHR 0x0A]) ''count'' (- 12)) = Some t \<and>
     cJSON_Parse t = Some (Some (cJSON_AddNumberToObject (cJSON_AddStringToObject cJSON_CreateObject ''user'' [CHR ''a'', CHR 0x22, CHR 0x0A]) ''count'' (- 12)))"
proof -
  let ?v = "cJSON_AddNumberToObject (cJSON_AddStringToObject cJSON_CreateObject ''user'' [CHR ''a'', CHR 0x22, CHR 0x0A]) ''count'' (- 12)"
  have n: "of_int_double (- 12) = Fin (of_int (- 12))" using fl_of_int [of "- 12"] by (simp add: of_int_double_def)
  have "to_int (Fin (of_int (- 12))) = - 12" by (rule to_int_of_int) (simp_all add: INT_MIN_def INT_MAX_def)
  then have "plain_json ?v"
    by (simp add: cJSON_AddNumberToObject_def cJSON_AddStringToObject_def cJSON_CreateObject_def
      cJSON_AddItemToObject_def cJSON_AddItemToArray_def cJSON_CreateString_def cJSON_CreateNumber_def n
      is_cstr_def INT_MIN_def INT_MAX_def)
  moreover have "item_name ?v = None"
    by (simp add: cJSON_AddNumberToObject_def cJSON_AddStringToObject_def cJSON_CreateObject_def
      cJSON_AddItemToObject_def cJSON_AddItemToArray_def)
  ultimately show ?thesis using cjson_roundtrip [of ?v] by blast
qed

text \<open>C33: the parser returns on every input: the depth bound \<open>parse_fuel\<close>, linear in the
  length of the text, is never exhausted.\<close>

theorem cjson_parse_terminates: "cJSON_ParseWithOpts b s \<noteq> NoFuel"
proof -
  have "length (skip s) \<le> length s" by (rule skip_le)
  then have "parse_value (parse_fuel s) (skip s) \<noteq> NoFuel"
    using parse_fuel_enough [of "parse_fuel s"] by (simp add: parse_fuel_def)
  then show ?thesis by (auto simp: cJSON_ParseWithOpts_def parsed_then_def split: parsed.splits)
qed

lemma string_chars_plain: "\<forall>c \<in> set s. c \<noteq> CHR 0x22 \<and> c \<noteq> CHR 0x5C \<Longrightarrow> string_chars s = Parsed s []"
  by (induction s) simp_all

text \<open>C36: a string value whose \<open>\u\<close> escape is cut short by a quote makes the two passes of
  \<open>parse_string\<close> disagree: the buffer has room for three characters, and the second pass steps over the quote
  and writes every character after it, as many as the text has.\<close>

theorem cjson_string_overflow:
  assumes "5 \<le> length s" "\<forall>c \<in> set s. c \<noteq> CHR 0x22 \<and> c \<noteq> CHR 0x5C"
  shows "cJSON_Parse (CHR 0x22 # CHR 0x5C # ''u12'' @ CHR 0x22 # s) = None"
proof -
  let ?t = "CHR 0x5C # ''u12'' @ CHR 0x22 # s"
  obtain c t where s: "s = c # t" "4 \<le> length t" using assms(1) by (cases s) auto
  have size: "string_size ?t = Some 3" by simp
  have "hex_value (CHR 0x22) = None" by (simp add: hex_value_def isdigit_def code_def)
  then have "parse_hex4 (''12'' @ CHR 0x22 # c # t) = 0"
    by (auto simp: parse_hex4_def split: option.splits)
  then have "parse_unicode (''12'' @ CHR 0x22 # c # t) = Some ([], t)"
    by (simp add: parse_unicode_def)
  then have "string_chars ?t = Parsed t []"
    using string_chars_plain [of t] assms(2) s by simp
  then have "parse_string (CHR 0x22 # ?t) = Overrun"
    using size s(2) by (simp add: parse_string_def parsed_then_def)
  moreover have "skip (CHR 0x22 # ?t) = CHR 0x22 # ?t" by (simp add: skip_def code_def)
  ultimately show ?thesis
    by (simp add: cJSON_Parse_def cJSON_ParseWithOpts_def parsed_then_def parse_fuel_def prefix_of_def)
qed

theorem cjson_string_overflow_witness: "cJSON_Parse (CHR 0x22 # CHR 0x5C # ''u12'' @ CHR 0x22 # ''hello'') = None"
  by (rule cjson_string_overflow) simp_all

end
