(* ===== verification/CJSON_Minify.thy ===== *)
theory CJSON_Minify
  imports CJSON_Roundtrip
begin

text \<open>
  \<open>cJSON_Minify\<close> against the two printers: removing the layout of the formatted text gives the unformatted
  text. \<open>minifies t u\<close> says that the text \<open>t\<close> is replaced by \<open>u\<close> whatever follows it, so that the printers can
  be followed piece by piece.
\<close>

definition minifies :: "string \<Rightarrow> string \<Rightarrow> bool" where
  "minifies t u \<longleftrightarrow> (\<forall>r. cJSON_Minify (t @ r) = map_option (append u) (cJSON_Minify r))"

lemma append_fun:
  "append [] = (\<lambda>x. x)" "append (c # u) = (\<lambda>x. c # u @ x)" "append (u @ v) = (\<lambda>x. u @ v @ x)"
  by (rule ext; simp)+

lemma minifies_Nil [simp]: "minifies [] []"
  by (simp add: minifies_def append_fun option.map_ident)

lemma minifies_append: "minifies t u \<Longrightarrow> minifies t' u' \<Longrightarrow> minifies (t @ t') (u @ u')"
  by (simp add: minifies_def append_fun option.map_comp comp_def)

lemma minifies_blank: "\<forall>c \<in> set ws. c \<in> {CHR '' '', CHR 0x09, CHR 0x0A} \<Longrightarrow> minifies ws []"
  by (induction ws) (auto simp: minifies_def append_fun option.map_ident)

lemma minifies_plain:
  "\<forall>c \<in> set t. c \<notin> {CHR '' '', CHR 0x09, CHR 0x0D, CHR 0x0A, CHR ''/'', CHR 0x22} \<Longrightarrow> minifies t t"
  by (induction t) (auto simp: minifies_def append_fun option.map_comp comp_def option.map_ident)

lemma minify_string_escape:
  assumes "c \<noteq> NUL"
  shows "minify_string (escape_char c @ r) = map_option (apfst (append (escape_char c))) (minify_string r)"
proof (cases "plain_char c")
  case True
  then show ?thesis by (simp add: escape_char_def plain_char_def append_fun)
next
  case False
  have "plain_char (hex_digit (code c div 16 mod 16))" "plain_char (hex_digit (code c mod 16))"
    by (simp_all add: hex_digit_plain)
  then have "hex_digit (code c div 16 mod 16) \<notin> {CHR 0x22, CHR 0x5C}" "hex_digit (code c mod 16) \<notin> {CHR 0x22, CHR 0x5C}"
    by (auto simp: plain_char_def)
  with False show ?thesis
    by (cases "minify_string r") (auto simp: escape_char_def show_hex2_def append_fun)
qed

lemma minify_string_print:
  "is_cstr s \<Longrightarrow> minify_string (concat (map escape_char s) @ CHR 0x22 # r) =
     Some (concat (map escape_char s) @ [CHR 0x22], r)"
  by (induction s) (simp_all add: minify_string_escape)

lemma minifies_string: "is_cstr s \<Longrightarrow> minifies (print_string_ptr s) (print_string_ptr s)"
  by (simp add: minifies_def print_string_ptr_escape minify_string_print)

lemma minifies_join:
  assumes "list_all2 minifies es us" "minifies sep '',''"
  shows "minifies (join sep es) (join '','' us)"
  using assms(1)
proof (induction rule: list_all2_induct)
  case (Cons e es u us)
  show ?case
  proof (cases es)
    case Nil
    with Cons show ?thesis by simp
  next
    case (Cons e' es')
    then obtain u' us' where "us = u' # us'" using \<open>list_all2 minifies es us\<close> by (cases us) auto
    with Cons Cons.IH \<open>minifies e u\<close> assms(2) show ?thesis
      using minifies_append [OF \<open>minifies e u\<close> minifies_append [OF assms(2) Cons.IH]] by simp
  qed
qed simp

lemma those_all2_pair:
  "those (map p cs) = Some ts \<Longrightarrow> \<forall>c \<in> set cs. \<forall>t. p c = Some t \<longrightarrow> (\<exists>u. q c = Some u \<and> R t u) \<Longrightarrow>
    \<exists>us. those (map q cs) = Some us \<and> list_all2 R ts us"
proof (induction cs arbitrary: ts)
  case (Cons c cs)
  then obtain t ts' where "p c = Some t" "those (map p cs) = Some ts'" "ts = t # ts'"
    by (auto split: option.splits)
  moreover obtain u where "q c = Some u" "R t u" using Cons.prems(2) \<open>p c = Some t\<close> by auto
  moreover obtain us where "those (map q cs) = Some us" "list_all2 R ts' us"
    using Cons.IH [OF \<open>those (map p cs) = Some ts'\<close>] Cons.prems(2) by auto
  ultimately show ?case by simp
qed simp

lemma minifies_layout [simp]:
  "minifies (tabs n) []" "minifies (CHR '','' # newline f) '',''" "minifies (newline f) []"
  "minifies '', '' '',''" "minifies '':'' '':''" "minifies ''['' ''[''" "minifies '']'' '']''"
  "minifies ''{'' ''{''" "minifies ''}'' ''}''" "minifies ''[]'' ''[]''"
  by (simp add: minifies_blank tabs_def)
    (simp_all add: minifies_def newline_def append_fun option.map_ident option.map_comp comp_def)

lemma minifies_int: "minifies (show_int i) (show_int i)"
proof (rule minifies_plain, rule ballI)
  fix c assume "c \<in> set (show_int i)"
  then have "c = CHR ''-'' \<or> isdigit c" using show_nat_digits by (auto simp: show_int_def split: if_splits)
  then show "c \<notin> {CHR '' '', CHR 0x09, CHR 0x0D, CHR 0x0A, CHR ''/'', CHR 0x22}" by (auto simp: isdigit_def code_def)
qed

lemma print_minifies:
  "plain_json v \<Longrightarrow> print_value True depth v = Some t \<Longrightarrow> \<exists>u. print_value False depth v = Some u \<and> minifies t u"
proof (induction v arbitrary: depth t)
  case (Node k s i d cs n)
  show ?case
  proof (cases k)
    case cJSON_Array
    show ?thesis
    proof (cases "cs = []")
      case False
      with cJSON_Array Node.prems obtain es where es: "those (map (print_value True (depth + 1)) cs) = Some es"
        "t = ''['' @ join '', '' es @ '']''" by (auto simp: print_array_def)
      have "\<exists>us. those (map (print_value False (depth + 1)) cs) = Some us \<and> list_all2 minifies es us"
        using Node.IH Node.prems(1) cJSON_Array by (intro those_all2_pair [OF es(1)]) auto
      then obtain us where us: "those (map (print_value False (depth + 1)) cs) = Some us" "list_all2 minifies es us" by blast
      have "minifies t (''['' @ join '','' us @ '']'')"
        unfolding es(2) by (intro minifies_append minifies_join us(2)) simp_all
      then show ?thesis using False cJSON_Array us(1) by (simp add: print_array_def)
    qed (use cJSON_Array Node.prems in \<open>auto simp: print_array_def\<close>)
  next
    case cJSON_Object
    let ?p = "\<lambda>f c. print_member f (depth + 1) (item_name c) (print_value f (depth + 1) c)"
    show ?thesis
    proof (cases "cs = []")
      case True
      have "minifies (''{'' @ newline True @ tabs (depth - 1) @ ''}'') (''{'' @ [] @ [] @ ''}'')"
        by (intro minifies_append) simp_all
      with True show ?thesis using cJSON_Object Node.prems by (simp add: print_object_def newline_def)
    next
      case False
      with cJSON_Object Node.prems obtain es where es: "those (map (?p True) cs) = Some es"
        "t = ''{'' @ newline True @ join ('','' @ newline True) es @ newline True @ tabs depth @ ''}''" by (auto simp: print_object_def)
      have "\<exists>u. ?p False c = Some u \<and> minifies m u" if c: "c \<in> set cs" and m: "?p True c = Some m" for c m
      proof -
        obtain nm where nm: "item_name c = Some nm" "is_cstr nm" "plain_json c"
          using Node.prems(1) cJSON_Object c by (auto split: option.splits)
        with m obtain e where e: "print_value True (depth + 1) c = Some e"
          "m = tabs (depth + 1) @ print_string_ptr nm @ '':'' @ tabs 1 @ e" by (auto simp: print_member_def)
        obtain u where u: "print_value False (depth + 1) c = Some u" "minifies e u"
          using Node.IH [OF c nm(3) e(1)] by blast
        have "minifies m ([] @ print_string_ptr nm @ '':'' @ [] @ u)"
          unfolding e(2) by (intro minifies_append minifies_string nm u) simp_all
        then show ?thesis using nm u by (simp add: print_member_def)
      qed
      then have "\<exists>us. those (map (?p False) cs) = Some us \<and> list_all2 minifies es us"
        by (intro those_all2_pair [OF es(1)]) blast
      then obtain us where us: "those (map (?p False) cs) = Some us" "list_all2 minifies es us" by blast
      have "minifies t (''{'' @ [] @ join '','' us @ [] @ [] @ ''}'')"
        unfolding es(2) by (intro minifies_append minifies_join us(2)) simp_all
      then show ?thesis using False cJSON_Object us(1) by (simp add: print_object_def newline_def)
    qed
  qed (use Node.prems in \<open>auto split: option.splits intro: minifies_string minifies_int minifies_plain
    simp: print_number_int\<close>)
qed

text \<open>C32: \<open>cJSON_Minify\<close> turns the formatted text of a document into exactly the text that
  \<open>cJSON_PrintUnformatted\<close> writes.\<close>

theorem minify_print:
  assumes "plain_json v"
  shows "\<exists>t u. cJSON_Print v = Some t \<and> cJSON_PrintUnformatted v = Some u \<and> cJSON_Minify t = Some u"
proof -
  obtain t where t: "print_value True 0 v = Some t" using print_reads [OF assms] by blast
  then obtain u where "print_value False 0 v = Some u" "minifies t u" using print_minifies [OF assms] by blast
  moreover have "cJSON_Minify t = Some u"
    using \<open>minifies t u\<close> unfolding minifies_def by (metis append_Nil2 cJSON_Minify.simps(1) option.simps(9))
  ultimately show ?thesis using t by (simp add: cJSON_Print_def cJSON_PrintUnformatted_def)
qed

theorem minify_print_witness:
  "\<exists>t u. cJSON_Print (cJSON_AddStringToObject cJSON_CreateObject ''a'' '' b '') = Some t \<and>
     cJSON_PrintUnformatted (cJSON_AddStringToObject cJSON_CreateObject ''a'' '' b '') = Some u \<and> cJSON_Minify t = Some u"
  by (rule minify_print)
    (simp add: cJSON_AddStringToObject_def cJSON_CreateObject_def cJSON_AddItemToObject_def
      cJSON_AddItemToArray_def cJSON_CreateString_def is_cstr_def)

end
