(* ===== verification/World.thy ===== *)
theory World
  imports C_Library "HOL-Library.Monad_Syntax"
begin

text \<open>
  The outside of the programs: the MySQL server and its client library, the Redis server, the file
  system, the clock, the random numbers and the commands of the operating system. None of them is
  part of the sources, so they are the parameters of the record \<open>env\<close>, functions on a state of
  arbitrary type. What the programs write to their standard output (the answer to the browser) and
  the sequence of their external calls are kept in the record \<open>world\<close>.

  A function of the programs is a function from worlds to \<open>(result \<times> world) option\<close>; \<open>None\<close> is
  undefined behaviour of C: a null pointer that is dereferenced, an array that is overrun. \<open>ok P m\<close>
  says that every defined outcome of \<open>m\<close> satisfies \<open>P\<close>; it moves through the control flow of a
  program by rewriting (collection \<open>ok_simps\<close>).
\<close>

named_theorems ok_simps \<open>the control flow of programs under ok\<close>
named_theorems runs_simps \<open>the control flow of programs under runs\<close>

subsection \<open>Answers of the servers\<close>

datatype sql_reply = SqlError | SqlOk | SqlRows "string option list list"

datatype redisReply =
    R_STRING string
  | R_ARRAY "redisReply list"
  | R_INTEGER int
  | R_NIL
  | R_STATUS string
  | R_ERROR string

text \<open>The fields of a reply object; those that its type does not use are zero.\<close>

fun reply_integer :: "redisReply \<Rightarrow> int" where
  "reply_integer (R_INTEGER i) = i"
| "reply_integer _ = 0"

fun reply_str :: "redisReply \<Rightarrow> string option" where
  "reply_str (R_STRING s) = Some s"
| "reply_str (R_STATUS s) = Some s"
| "reply_str (R_ERROR s) = Some s"
| "reply_str _ = None"

datatype connection = Conn_null | Conn_err | Conn_ok

datatype address = Tcp string int | Tcp_timeout string int "int \<times> int" | Unix string

subsection \<open>Environment and world\<close>

text \<open>\<open>env_garbage\<close> is what a \<open>%s\<close> directive without an argument reads; \<open>None\<close> is a crash.\<close>

record 'x env =
  env_file :: "string \<Rightarrow> string option"
  env_mysql_connect :: "string \<Rightarrow> string \<Rightarrow> string \<Rightarrow> 'x \<Rightarrow> bool \<times> 'x"
  env_mysql_query :: "string \<Rightarrow> 'x \<Rightarrow> sql_reply \<times> 'x"
  env_redis_connect :: "address \<Rightarrow> 'x \<Rightarrow> connection \<times> 'x"
  env_redis :: "string list \<Rightarrow> 'x \<Rightarrow> redisReply option \<times> 'x"
  env_system :: "string \<Rightarrow> 'x \<Rightarrow> int \<times> 'x"
  env_pipe :: "string list \<Rightarrow> 'x \<Rightarrow> string option \<times> 'x"
  env_write_file :: "string \<Rightarrow> string \<Rightarrow> 'x \<Rightarrow> bool \<times> 'x"
  env_unlink :: "string \<Rightarrow> 'x \<Rightarrow> 'x"
  env_now :: "'x \<Rightarrow> string"
  env_rand :: "'x \<Rightarrow> nat \<times> 'x"
  env_garbage :: "'x \<Rightarrow> string option"

datatype event =
    Mysql_connect
  | Sql string
  | Redis_connect address
  | Redis "string list"
  | System string
  | Pipe "string list"
  | Write_file string
  | Unlink string

record 'x world =
  ext :: 'x
  out :: string
  trace :: "event list"

subsection \<open>External calls\<close>

definition put :: "string \<Rightarrow> 'x world \<Rightarrow> 'x world" where
  "put s w = w\<lparr>out := out w @ s\<rparr>"

definition logged :: "event \<Rightarrow> 'x world \<Rightarrow> 'x world" where
  "logged v w = w\<lparr>trace := trace w @ [v]\<rparr>"

definition external :: "event \<Rightarrow> ('x \<Rightarrow> 'a \<times> 'x) \<Rightarrow> 'x world \<Rightarrow> ('a \<times> 'x world) option" where
  "external v f w = (case f (ext w) of (a, x) \<Rightarrow> Some (a, (logged v w)\<lparr>ext := x\<rparr>))"

definition mysql_query :: "'x env \<Rightarrow> string \<Rightarrow> 'x world \<Rightarrow> (sql_reply \<times> 'x world) option" where
  "mysql_query e sql w = external (Sql sql) (env_mysql_query e sql) w"

definition system :: "'x env \<Rightarrow> string \<Rightarrow> 'x world \<Rightarrow> (int \<times> 'x world) option" where
  "system e cmd w = external (System cmd) (env_system e cmd) w"

definition strftime_now :: "'x env \<Rightarrow> 'x world \<Rightarrow> string" where
  "strftime_now e w = env_now e (ext w)"

text \<open>\<open>printf(out)\<close> with a computed text as format string.\<close>

definition printf_out :: "string \<Rightarrow> 'x world \<Rightarrow> 'x world option" where
  "printf_out s w = map_option (\<lambda>t. put t w) (printf_plain s)"

subsection \<open>Outcomes\<close>

definition ok :: "('a \<Rightarrow> bool) \<Rightarrow> 'a option \<Rightarrow> bool" where
  "ok P m = (case m of None \<Rightarrow> True | Some a \<Rightarrow> P a)"

lemma ok_control [ok_simps]:
  "ok P (Some a) = P a"
  "ok P None = True"
  "ok P (k \<bind> f) = ok (\<lambda>x. ok P (f x)) k"
  "ok P (if b then m else n) = ((b \<longrightarrow> ok P m) \<and> (\<not> b \<longrightarrow> ok P n))"
  "ok P (case p of (x, y) \<Rightarrow> g x y) = (case p of (x, y) \<Rightarrow> ok P (g x y))"
  by (auto simp: ok_def split: option.split prod.split bind_split)

lemma okD: "ok P m \<Longrightarrow> m = Some a \<Longrightarrow> P a"
  by (simp add: ok_def)

lemma okI: "(\<And>a. m = Some a \<Longrightarrow> P a) \<Longrightarrow> ok P m"
  by (simp add: ok_def split: option.split)

lemma ok_mono: "ok P m \<Longrightarrow> (\<And>a. P a \<Longrightarrow> Q a) \<Longrightarrow> ok Q m"
  by (auto simp: ok_def split: option.splits)

lemma ok_store [ok_simps]: "ok P (store cap s) = (length s < cap \<longrightarrow> P s)"
  by (simp add: ok_def store_def)

text \<open>\<open>runs P m\<close> says in addition that \<open>m\<close> has an outcome.\<close>

definition runs :: "('a \<Rightarrow> bool) \<Rightarrow> 'a option \<Rightarrow> bool" where
  "runs P m = (case m of None \<Rightarrow> False | Some a \<Rightarrow> P a)"

lemma runs_control [runs_simps]:
  "runs P (Some a) = P a"
  "runs P None = False"
  "runs P (k \<bind> f) = runs (\<lambda>x. runs P (f x)) k"
  "runs P (if b then m else n) = ((b \<longrightarrow> runs P m) \<and> (\<not> b \<longrightarrow> runs P n))"
  "runs P (case p of (x, y) \<Rightarrow> g x y) = (case p of (x, y) \<Rightarrow> runs P (g x y))"
  by (auto simp: runs_def split: option.split prod.split bind_split)

lemma runs_store [runs_simps]: "runs P (store cap s) = (length s < cap \<and> P s)"
  by (simp add: runs_def store_def)

lemma runs_iff: "runs P m \<longleftrightarrow> (\<exists>a. m = Some a \<and> P a)"
  by (auto simp: runs_def split: option.splits)

lemma runs_ok: "runs P m \<Longrightarrow> ok Q m \<Longrightarrow> runs (\<lambda>a. P a \<and> Q a) m"
  by (auto simp: runs_iff ok_def)

lemma runs_mono: "runs P m \<Longrightarrow> (\<And>a. P a \<Longrightarrow> Q a) \<Longrightarrow> runs Q m"
  by (auto simp: runs_iff)

lemma put_sel [simp]: "ext (put s w) = ext w" "trace (put s w) = trace w" "out (put s w) = out w @ s"
  by (simp_all add: put_def)

lemma logged_sel [simp]: "ext (logged v w) = ext w" "trace (logged v w) = trace w @ [v]" "out (logged v w) = out w"
  by (simp_all add: logged_def)

lemma ok_external [ok_simps]:
  "ok P (external v f w) = P (fst (f (ext w)), (logged v w)\<lparr>ext := snd (f (ext w))\<rparr>)"
  by (simp add: external_def ok_def split: prod.split)

lemma runs_external [runs_simps]:
  "runs P (external v f w) = P (fst (f (ext w)), (logged v w)\<lparr>ext := snd (f (ext w))\<rparr>)"
  by (simp add: external_def runs_def split: prod.split)

lemma printf_out_plain: "CHR ''%'' \<notin> set s \<Longrightarrow> printf_out s w = Some (put s w)"
  by (simp add: printf_out_def printf_plain_id)

end
