(* ===== verification/Sql_Spec.thy ===== *)
theory Sql_Spec
  imports World
begin

text \<open>
  The part of SQL that the programs use, as the documentation of MySQL describes it: the tables of
  \<^verbatim>\<open>resource/HFDFS.sql\<close>, statements on a single table and their effect. \<open>sql_parse\<close> reads the text of a
  statement; literals with a backslash or a doubled quote are outside the described part. Texts are
  compared by a collation, an equivalence relation that need not be equality.

  The locale \<open>sql_server\<close> states what is relied upon of the server: a statement of the described part
  either fails and changes nothing or has the described effect, and a \<open>select\<close> never changes anything.
\<close>

named_theorems sql_texts \<open>the statements that the programs' formats denote\<close>

subsection \<open>Tables\<close>

datatype column_type = Varchar nat | Int_column | Bigint_column

definition schema :: "string \<Rightarrow> (string \<times> column_type) list" where
  "schema t =
    (if t = ''file_info'' then
       [(''md5'', Varchar 200), (''file_id'', Varchar 256), (''url'', Varchar 512), (''size'', Bigint_column),
        (''type'', Varchar 20), (''count'', Int_column)]
     else if t = ''share_file_list'' then
       [(''user'', Varchar 128), (''md5'', Varchar 200), (''createtime'', Varchar 128), (''filename'', Varchar 128),
        (''pv'', Int_column)]
     else if t = ''user'' then
       [(''id'', Bigint_column), (''name'', Varchar 128), (''nickname'', Varchar 128), (''password'', Varchar 128),
        (''phone'', Varchar 15), (''createtime'', Varchar 128), (''email'', Varchar 100)]
     else if t = ''user_file_count'' then [(''user'', Varchar 128), (''count'', Int_column)]
     else if t = ''user_file_list'' then
       [(''user'', Varchar 128), (''md5'', Varchar 200), (''createtime'', Varchar 128), (''filename'', Varchar 128),
        (''shared_status'', Int_column), (''pv'', Int_column)]
     else [])"

definition unique_keys :: "string \<Rightarrow> string list" where
  "unique_keys t =
    (if t = ''file_info'' then [''md5'']
     else if t = ''user'' then [''id'', ''nickname'', ''name'']
     else if t = ''user_file_count'' then [''user'']
     else [])"

type_synonym row = "string \<Rightarrow> string option"
type_synonym db = "string \<Rightarrow> row list"

subsection \<open>Statements\<close>

datatype stmt =
    SetNames
  | Select string string "(string \<times> string) list"
  | Insert string "string list" "string list"
  | Update string string string "(string \<times> string) list"
  | Delete string "(string \<times> string) list"

datatype token = TWord string | TStr string | TSym char

definition word_char :: "char \<Rightarrow> bool" where
  "word_char c \<longleftrightarrow> isdigit c \<or> 65 \<le> code c \<and> code c \<le> 90 \<or> 97 \<le> code c \<and> code c \<le> 122 \<or>
     c = CHR ''_'' \<or> c = CHR ''*'' \<or> c = CHR ''.'' \<or> c = CHR ''-''"

definition lex_string :: "char \<Rightarrow> string \<Rightarrow> (string \<times> string) option" where
  "lex_string q s =
    (let t = takeWhile (\<lambda>c. c \<noteq> q) s in
     if length t < length s \<and> CHR 0x5C \<notin> set t then Some (t, drop (length t + 1) s) else None)"

function lex :: "string \<Rightarrow> token list option" where
  "lex [] = Some []"
| "lex (c # s) =
    (if c = CHR '' '' then lex s
     else if c = CHR 0x27 \<or> c = CHR 0x22 then
       (case lex_string c s of
          None \<Rightarrow> None
        | Some (t, r) \<Rightarrow> map_option (Cons (TStr t)) (lex r))
     else if word_char c then
       map_option (Cons (TWord (c # takeWhile word_char s))) (lex (dropWhile word_char s))
     else if c \<in> {CHR ''('', CHR '')'', CHR '','', CHR ''=''} then map_option (Cons (TSym c)) (lex s)
     else None)"
  by pat_completeness auto
termination
  by (relation "measure length")
    (auto simp: lex_string_def Let_def length_dropWhile_le less_Suc_eq_le split: if_splits)

fun literal :: "token \<Rightarrow> string option" where
  "literal (TStr s) = Some s"
| "literal (TWord s) = Some s"
| "literal (TSym c) = None"

fun parse_conds :: "token list \<Rightarrow> (string \<times> string) list option" where
  "parse_conds [TWord c, TSym eq, v] =
    (if eq = CHR ''='' then map_option (\<lambda>x. [(c, x)]) (literal v) else None)"
| "parse_conds (TWord c # TSym eq # v # TWord a # ts) =
    (if eq = CHR ''='' \<and> a = ''and'' then
       (case literal v of None \<Rightarrow> None | Some x \<Rightarrow> map_option (Cons (c, x)) (parse_conds ts))
     else None)"
| "parse_conds _ = None"

text \<open>A list in parentheses: its elements and what follows.\<close>

fun parse_list :: "token list \<Rightarrow> (string list \<times> token list) option" where
  "parse_list (v # TSym c # ts) =
    (case literal v of
       None \<Rightarrow> None
     | Some x \<Rightarrow>
         if c = CHR '')'' then Some ([x], ts)
         else if c = CHR '','' then map_option (apfst (Cons x)) (parse_list ts)
         else None)"
| "parse_list _ = None"

definition parse_insert :: "string \<Rightarrow> token list \<Rightarrow> stmt option" where
  "parse_insert t ts =
    (case parse_list ts of
       Some (cols, TWord vals # TSym p # ts') \<Rightarrow>
         if vals = ''values'' \<and> p = CHR ''('' then
           (case parse_list ts' of
              Some (vs, []) \<Rightarrow> if length cols = length vs then Some (Insert t cols vs) else None
            | _ \<Rightarrow> None)
         else None
     | _ \<Rightarrow> None)"

definition parse_tokens :: "token list \<Rightarrow> stmt option" where
  "parse_tokens ts =
    (case ts of
       TWord k # TWord a # TWord b # rest \<Rightarrow>
         if k = ''set'' \<and> a = ''names'' \<and> rest = [] then Some SetNames
         else if k = ''select'' \<and> b = ''from'' then
           (case rest of
              TWord t # TWord wh # cs \<Rightarrow>
                if wh = ''where'' then map_option (Select a t) (parse_conds cs) else None
            | _ \<Rightarrow> None)
         else if k = ''insert'' \<and> a = ''into'' then
           (case rest of
              TSym p # cs \<Rightarrow> if p = CHR ''('' then parse_insert b cs else None
            | _ \<Rightarrow> None)
         else if k = ''update'' \<and> b = ''set'' then
           (case rest of
              TWord col # TSym eq # v # TWord wh # cs \<Rightarrow>
                if eq = CHR ''='' \<and> wh = ''where'' then
                  (case literal v of None \<Rightarrow> None | Some x \<Rightarrow> map_option (Update a col x) (parse_conds cs))
                else None
            | _ \<Rightarrow> None)
         else if k = ''delete'' \<and> a = ''from'' then
           (case rest of
              TWord wh # cs \<Rightarrow> if wh = ''where'' then map_option (Delete b) (parse_conds cs) else None
            | _ \<Rightarrow> None)
         else None
     | _ \<Rightarrow> None)"

definition sql_parse :: "string \<Rightarrow> stmt option" where
  "sql_parse s = (case lex s of None \<Rightarrow> None | Some ts \<Rightarrow> parse_tokens ts)"

subsection \<open>Effects\<close>

definition matches :: "(string \<Rightarrow> string \<Rightarrow> bool) \<Rightarrow> (string \<times> string) list \<Rightarrow> row \<Rightarrow> bool" where
  "matches eq cs r = list_all (\<lambda>(c, v). case r c of None \<Rightarrow> False | Some x \<Rightarrow> eq x v) cs"

definition key_clash :: "(string \<Rightarrow> string \<Rightarrow> bool) \<Rightarrow> string \<Rightarrow> row \<Rightarrow> row list \<Rightarrow> bool" where
  "key_clash eq t new rows =
     list_ex (\<lambda>k. case new k of None \<Rightarrow> False | Some v \<Rightarrow> list_ex (matches eq [(k, v)]) rows) (unique_keys t)"

definition project :: "string \<Rightarrow> string \<Rightarrow> row \<Rightarrow> string option list" where
  "project col t r = (if col = ''*'' then map (\<lambda>(c, _). r c) (schema t) else [r col])"

fun exec :: "(string \<Rightarrow> string \<Rightarrow> bool) \<Rightarrow> stmt \<Rightarrow> db \<Rightarrow> sql_reply \<times> db" where
  "exec eq SetNames d = (SqlOk, d)"
| "exec eq (Select col t cs) d = (SqlRows (map (project col t) (filter (matches eq cs) (d t))), d)"
| "exec eq (Insert t cols vals) d =
    (let new = map_of (zip cols vals) in
     if key_clash eq t new (d t) then (SqlError, d) else (SqlOk, d(t := d t @ [new])))"
| "exec eq (Update t col v cs) d =
    (SqlOk, d(t := map (\<lambda>r. if matches eq cs r then r(col \<mapsto> v) else r) (d t)))"
| "exec eq (Delete t cs) d = (SqlOk, d(t := filter (\<lambda>r. \<not> matches eq cs r) (d t)))"

text \<open>A row of \<open>select *\<close> may have columns that the server fills in, so only their number is described.\<close>

fun reply_agrees :: "stmt \<Rightarrow> sql_reply \<Rightarrow> sql_reply \<Rightarrow> bool" where
  "reply_agrees (Select col t cs) r r' =
    (if col = ''*'' then
       (case (r, r') of (SqlRows a, SqlRows b) \<Rightarrow> length a = length b | _ \<Rightarrow> r = r')
     else r = r')"
| "reply_agrees _ r r' = (r = r')"

subsection \<open>Values that a column stores unchanged\<close>

definition plain :: "string \<Rightarrow> bool" where
  "plain s \<longleftrightarrow> list_all (\<lambda>c. 32 \<le> code c \<and> code c \<le> 126 \<and> c \<noteq> CHR 0x27 \<and> c \<noteq> CHR 0x22 \<and> c \<noteq> CHR 0x5C) s"

definition plain_text :: "nat \<Rightarrow> string \<Rightarrow> bool" where
  "plain_text n s \<longleftrightarrow> length s \<le> n \<and> plain s"

definition stored :: "string \<Rightarrow> string \<Rightarrow> string \<Rightarrow> bool" where
  "stored t col v =
    (case map_of (schema t) col of
       None \<Rightarrow> False
     | Some (Varchar n) \<Rightarrow> plain_text n v
     | Some Int_column \<Rightarrow> v = show_int (strtol v) \<and> - (2 ^ 31) \<le> strtol v \<and> strtol v < 2 ^ 31
     | Some Bigint_column \<Rightarrow> v = show_int (strtol v))"

fun stmt_ok :: "stmt \<Rightarrow> bool" where
  "stmt_ok SetNames = True"
| "stmt_ok (Select col t cs) = ((col = ''*'' \<or> col \<in> fst ` set (schema t)) \<and> list_all (\<lambda>(c, v). stored t c v) cs)"
| "stmt_ok (Insert t cols vals) = list_all (\<lambda>(c, v). stored t c v) (zip cols vals)"
| "stmt_ok (Update t col v cs) = (stored t col v \<and> list_all (\<lambda>(c, v). stored t c v) cs)"
| "stmt_ok (Delete t cs) = list_all (\<lambda>(c, v). stored t c v) cs"

subsection \<open>What is relied upon of the server\<close>

locale collation =
  fixes colleq :: "string \<Rightarrow> string \<Rightarrow> bool"
  assumes colleq_refl: "colleq a a"
    and colleq_sym: "colleq a b \<Longrightarrow> colleq b a"
    and colleq_trans: "colleq a b \<Longrightarrow> colleq b c \<Longrightarrow> colleq a c"

locale sql_server = collation colleq for colleq :: "string \<Rightarrow> string \<Rightarrow> bool" +
  fixes query :: "string \<Rightarrow> 'x \<Rightarrow> sql_reply \<times> 'x"
    and view :: "'x \<Rightarrow> db"
  assumes query_law: "sql_parse q = Some s \<Longrightarrow> stmt_ok s \<Longrightarrow>
      (fst (query q x) = SqlError \<and> view (snd (query q x)) = view x) \<or>
      (reply_agrees s (fst (query q x)) (fst (exec colleq s (view x))) \<and>
       view (snd (query q x)) = snd (exec colleq s (view x)))"
    and select_law: "prefix_of ''select '' q \<Longrightarrow> view (snd (query q x)) = view x"

end
