(* ===== verification/Hiredis.thy ===== *)
theory Hiredis
  imports World
begin

text \<open>
  How a Redis command travels: \<open>redisvFormatCommand\<close> of the client library
  (\<^verbatim>\<open>hiredis-master/hiredis.c\<close>) splits a format string into an argument vector and encodes it, and
  \<open>processMultibulkBuffer\<close> of the server (\<^verbatim>\<open>redis/src/networking.c\<close>) decodes it, reading lengths with
  \<open>string2ll\<close> (\<^verbatim>\<open>redis/src/util.c\<close>). The encoder writes exactly as many bytes as it computed
  (\<open>resp_length\<close>), and the server gets back the argument vector whatever bytes the arguments have
  (\<open>resp_roundtrip\<close>). Conversions with flags, widths or precisions, and binary and floating-point
  arguments, which no format of the program has, are format errors of the model.
\<close>

subsection \<open>Splitting a format into arguments\<close>

datatype format_result = Formatted "string list" | Format_error | Missing_argument

fun map_formatted :: "(string list \<Rightarrow> string list) \<Rightarrow> format_result \<Rightarrow> format_result" where
  "map_formatted g (Formatted argv) = Formatted (g argv)"
| "map_formatted g Format_error = Format_error"
| "map_formatted g Missing_argument = Missing_argument"

text \<open>The rest of the format after an integer conversion with its length modifier.\<close>

definition skip_modifier :: "string \<Rightarrow> string" where
  "skip_modifier p =
    (if take 2 p = ''hh'' \<or> take 2 p = ''ll'' then drop 2 p
     else if deref p = CHR ''h'' \<or> deref p = CHR ''l'' then tl p else p)"

definition int_conversion :: "string \<Rightarrow> string option" where
  "int_conversion p =
    (case skip_modifier p of
       [] \<Rightarrow> None
     | c # r \<Rightarrow> if c \<in> set ''diouxX'' then Some r else None)"

lemma int_conversion_shorter: "int_conversion p = Some r \<Longrightarrow> length r < length p"
proof -
  assume "int_conversion p = Some r"
  then obtain c where "skip_modifier p = c # r" by (auto simp: int_conversion_def split: list.splits if_splits)
  moreover have "length (skip_modifier p) \<le> length p" by (simp add: skip_modifier_def)
  ultimately show ?thesis by simp
qed

function format_args :: "string \<Rightarrow> farg list \<Rightarrow> string \<Rightarrow> bool \<Rightarrow> format_result" where
  "format_args [] args curarg touched = Formatted (if touched then [curarg] else [])"
| "format_args (c # f) args curarg touched =
    (if c \<noteq> CHR ''%'' \<or> f = [] then
       (if c = CHR '' '' then
          (if touched then map_formatted (Cons curarg) (format_args f args [] False)
           else format_args f args curarg touched)
        else format_args f args (curarg @ [c]) True)
     else if hd f = CHR ''s'' then
       (case args of
          Str s # args' \<Rightarrow> format_args (tl f) args' (curarg @ s) True
        | _ \<Rightarrow> Missing_argument)
     else if hd f = CHR ''%'' then format_args (tl f) args (curarg @ ''%'') True
     else (case int_conversion f of
         None \<Rightarrow> Format_error
       | Some r \<Rightarrow>
           (case args of
              Num i # args' \<Rightarrow> format_args r args' (curarg @ show_int i) True
            | _ \<Rightarrow> Missing_argument)))"
  by pat_completeness auto
termination
  by (relation "measure (\<lambda>(f, _). length f)") (auto dest: int_conversion_shorter)

definition redisFormatCommand :: "string \<Rightarrow> farg list \<Rightarrow> format_result" where
  "redisFormatCommand format args = format_args format args [] False"

subsection \<open>The encoding\<close>

fun countDigits :: "nat \<Rightarrow> nat \<Rightarrow> nat" where
  "countDigits v result =
    (if v < 10 then result
     else if v < 100 then result + 1
     else if v < 1000 then result + 2
     else if v < 10000 then result + 3
     else countDigits (v div 10000) (result + 4))"

declare countDigits.simps [simp del]

definition bulklen :: "nat \<Rightarrow> nat" where
  "bulklen len = 1 + countDigits len 1 + 2 + len + 2"

definition CRLF :: string where
  "CRLF = [CHR 0x0D, CHR 0x0A]"

definition bulk :: "string \<Rightarrow> string" where
  "bulk arg = ''$'' @ show_nat (length arg) @ CRLF @ arg @ CRLF"

definition totlen :: "string list \<Rightarrow> nat" where
  "totlen argv = sum_list (map (\<lambda>a. bulklen (length a)) argv) + 1 + countDigits (length argv) 1 + 2"

definition resp :: "string list \<Rightarrow> string" where
  "resp argv = ''*'' @ show_nat (length argv) @ CRLF @ concat (map bulk argv)"

subsection \<open>The decoding\<close>

definition string2ll :: "string \<Rightarrow> int option" where
  "string2ll s =
    (if s = ''0'' then Some 0
     else
       (let negative = (deref s = CHR ''-''); p = (if negative then tl s else s) in
        if p = [] \<or> \<not> isdigit (hd p) \<or> hd p = CHR ''0'' then None
        else if \<not> list_all isdigit p then None
        else if negative then (if read_nat p > 2 ^ 63 then None else Some (- int (read_nat p)))
        else (if read_nat p \<ge> 2 ^ 63 then None else Some (int (read_nat p)))))"

text \<open>The text up to a carriage return and what follows the line end; \<open>None\<close> while the line is not
  complete.\<close>

definition split_line :: "string \<Rightarrow> (string \<times> string) option" where
  "split_line s =
    (let l = takeWhile (\<lambda>c. c \<noteq> CHR 0x0D \<and> c \<noteq> NUL) s in
     if deref (drop (length l) s) = CHR 0x0D \<and> length l + 2 \<le> length s then Some (l, drop (length l + 2) s)
     else None)"

datatype request =
    Complete "string list" string
  | Incomplete
  | Protocol_error

definition proto_max_bulk_len :: int where
  "proto_max_bulk_len = 512 * 1024 * 1024"

fun read_bulks :: "nat \<Rightarrow> string \<Rightarrow> string list \<Rightarrow> request" where
  "read_bulks 0 s argv = Complete argv s"
| "read_bulks (Suc multibulklen) s argv =
    (case split_line s of
       None \<Rightarrow> Incomplete
     | Some (l, r) \<Rightarrow>
         if deref s \<noteq> CHR ''$'' then Protocol_error
         else case string2ll (tl l) of
           None \<Rightarrow> Protocol_error
         | Some ll \<Rightarrow>
             if ll < 0 \<or> ll > proto_max_bulk_len then Protocol_error
             else if length r < nat ll + 2 then Incomplete
             else read_bulks multibulklen (drop (nat ll + 2) r) (argv @ [take (nat ll) r]))"

definition processMultibulkBuffer :: "string \<Rightarrow> request" where
  "processMultibulkBuffer querybuf =
    (case split_line querybuf of
       None \<Rightarrow> Incomplete
     | Some (l, r) \<Rightarrow>
         case string2ll (tl l) of
           None \<Rightarrow> Protocol_error
         | Some ll \<Rightarrow>
             if ll > 1024 * 1024 then Protocol_error
             else if ll \<le> 0 then Complete [] r
             else read_bulks (nat ll) r [])"

subsection \<open>The encoder fills its buffer exactly\<close>

lemma countDigits_show: "countDigits v r + 1 = r + length (show_nat v)"
proof (induction v r rule: countDigits.induct)
  case (1 v r)
  have step: "length (show_nat n) = (if n < 10 then 1 else Suc (length (show_nat (n div 10))))" for n
    by (simp add: show_nat.simps [of n])
  have d: "v div 10 div 10 = v div 100" "v div 100 div 10 = v div 1000" "v div 1000 div 10 = v div 10000"
    by (simp_all add: div_mult2_eq [symmetric])
  have "length (show_nat v) =
      (if v < 10 then 1 else if v < 100 then 2 else if v < 1000 then 3 else if v < 10000 then 4
       else 4 + length (show_nat (v div 10000)))"
    by (simp add: step [of v] step [of "v div 10"] step [of "v div 100"] step [of "v div 1000"] d
      div_less_iff_less_mult)
  with 1 show ?case by (subst countDigits.simps) auto
qed

lemma bulklen_bulk: "length (bulk a) = bulklen (length a)"
  using countDigits_show [of "length a" 1] by (simp add: bulk_def bulklen_def CRLF_def)

text \<open>The size that \<open>redisvFormatCommand\<close> computes digit by digit before it allocates the
  command is exactly the number of bytes it then writes, so its assertion \<open>pos == totlen\<close> never fails.\<close>

lemma resp_length: "length (resp argv) = totlen argv"
proof -
  have "length (concat (map bulk argv)) = sum_list (map (\<lambda>a. bulklen (length a)) argv)"
    by (induction argv) (simp_all add: bulklen_bulk)
  then show ?thesis using countDigits_show [of "length argv" 1] by (simp add: resp_def totlen_def CRLF_def)
qed

subsection \<open>The server reads what the client wrote\<close>

lemma string2ll_show: "n < 2 ^ 63 \<Longrightarrow> string2ll (show_nat n) = Some (int n)"
proof (cases "n = 0")
  case False
  assume "n < 2 ^ 63"
  obtain c r where c: "show_nat n = c # r" "isdigit c" using show_nat_head by blast
  have "c \<noteq> CHR ''0''" using show_nat_head_nonzero [of n] False c by simp
  moreover have "c \<noteq> CHR ''-''" using c digit_not_special by simp
  moreover have "list_all isdigit (show_nat n)" using show_nat_digits [of n] by (simp add: list_all_iff)
  ultimately show ?thesis
    using \<open>n < 2 ^ 63\<close> c read_show_nat [of n] by (simp add: string2ll_def Let_def)
qed (simp add: string2ll_def)

lemma takeWhile_show_line:
  "takeWhile (\<lambda>c. c \<noteq> CHR 0x0D \<and> c \<noteq> NUL) (show_nat n @ CHR 0x0D # r) = show_nat n"
proof -
  have "\<forall>c \<in> set (show_nat n). c \<noteq> CHR 0x0D \<and> c \<noteq> NUL"
    using show_nat_digits [of n] by (auto simp: isdigit_def code_def)
  then show ?thesis by (simp add: takeWhile_append)
qed

lemma split_line_show:
  "m \<noteq> CHR 0x0D \<Longrightarrow> m \<noteq> NUL \<Longrightarrow> split_line (m # show_nat n @ CRLF @ r) = Some (m # show_nat n, r)"
  by (simp add: split_line_def CRLF_def takeWhile_show_line)

lemma CRLF_length: "length CRLF = 2"
  by (simp add: CRLF_def)

lemma read_bulks_bulk:
  assumes "\<forall>a \<in> set argv. int (length a) \<le> proto_max_bulk_len"
  shows "read_bulks (length argv) (concat (map bulk argv) @ r) acc = Complete (acc @ argv) r"
  using assms
proof (induction argv arbitrary: acc)
  case (Cons a argv)
  have sp: "split_line (CHR ''$'' # show_nat (length a) @ CRLF @ a @ CRLF @ concat (map bulk argv) @ r) =
      Some (CHR ''$'' # show_nat (length a), a @ CRLF @ concat (map bulk argv) @ r)"
    by (rule split_line_show) simp_all
  have "string2ll (show_nat (length a)) = Some (int (length a))"
    using Cons.prems by (intro string2ll_show) (simp add: proto_max_bulk_len_def)
  moreover have "drop 2 (CRLF @ t) = t" for t by (simp add: CRLF_def)
  ultimately show ?case
    using Cons.IH [of "acc @ [a]"] Cons.prems sp by (simp add: bulk_def [of a] CRLF_length)
qed simp

lemma processMultibulkBuffer_resp:
  assumes "argv \<noteq> []" "length argv \<le> 1024 * 1024" "\<forall>a \<in> set argv. int (length a) \<le> proto_max_bulk_len"
  shows "processMultibulkBuffer (resp argv @ rest) = Complete argv rest"
proof -
  have "split_line (CHR ''*'' # show_nat (length argv) @ CRLF @ concat (map bulk argv) @ rest) =
      Some (CHR ''*'' # show_nat (length argv), concat (map bulk argv) @ rest)"
    by (rule split_line_show) simp_all
  moreover have "string2ll (show_nat (length argv)) = Some (int (length argv))"
    using assms(2) by (intro string2ll_show) simp
  ultimately show ?thesis
    using assms read_bulks_bulk [OF assms(3), of rest "[]"]
    by (simp add: processMultibulkBuffer_def resp_def)
qed

text \<open>C14: the argument vector that the server decodes from the bytes of the client library is the
  one the client encoded, whatever characters its arguments contain; a pipelined command that follows is left
  untouched. No argument of a command can turn into another argument or another command.\<close>

theorem resp_roundtrip:
  assumes "argv \<noteq> []" "length argv \<le> 1024 * 1024" "\<forall>a \<in> set argv. int (length a) \<le> proto_max_bulk_len"
  shows "processMultibulkBuffer (resp argv @ rest) = Complete argv rest"
  using assms by (rule processMultibulkBuffer_resp)

theorem resp_roundtrip_witness:
  "processMultibulkBuffer (resp [''set'', ''key'', [CHR 0x0D, CHR 0x0A]] @ resp [''get'', ''key'']) =
     Complete [''set'', ''key'', [CHR 0x0D, CHR 0x0A]] (resp [''get'', ''key''])"
  by (rule resp_roundtrip) (simp_all add: proto_max_bulk_len_def)

end
