(* ===== verification/Redis_Op.thy ===== *)
theory Redis_Op
  imports Hiredis
begin

text \<open>
  The wrapper \<^verbatim>\<open>common/redis_op.c\<close> around the Redis client library, function by function. A reply
  that is the null pointer (the connection broke) and is dereferenced without a test gives \<open>None\<close>, as
  does a text that does not fit its array.
\<close>

definition REDIS_COMMAND_SIZE :: nat where "REDIS_COMMAND_SIZE = 300"
definition FIELD_ID_SIZE :: nat where "FIELD_ID_SIZE = 100"
definition VALUES_ID_SIZE :: nat where "VALUES_ID_SIZE = 1024"

definition redisCommand ::
    "'x env \<Rightarrow> string \<Rightarrow> farg list \<Rightarrow> 'x world \<Rightarrow> (redisReply option \<times> 'x world) option" where
  "redisCommand e format args w =
    (case redisFormatCommand format args of
       Formatted argv \<Rightarrow> external (Redis argv) (env_redis e argv) w
     | Format_error \<Rightarrow> Some (None, w)
     | Missing_argument \<Rightarrow> None)"

definition redis_connect :: "'x env \<Rightarrow> address \<Rightarrow> 'x world \<Rightarrow> (connection \<times> 'x world) option" where
  "redis_connect e a w = external (Redis_connect a) (env_redis_connect e a) w"

fun is_integer :: "redisReply \<Rightarrow> bool" where
  "is_integer (R_INTEGER _) = True"
| "is_integer _ = False"

subsection \<open>Databases and keys\<close>

definition rop_selectdatabase :: "'x env \<Rightarrow> int \<Rightarrow> 'x world \<Rightarrow> (int \<times> 'x world) option" where
  "rop_selectdatabase e db_no w = do {
     (reply, w) \<leftarrow> redisCommand e ''select %d'' [Num (wrap32 db_no)] w;
     if reply = None then Some (- 1, w)
     else Some (0, put (sprintf (''[+][GMS_REDIS]Select database %d SUCCESS!'' @ [CHR 0x0A]) [Num (wrap32 db_no)]) w)
   }"

definition rop_flush_database :: "'x env \<Rightarrow> 'x world \<Rightarrow> (int \<times> 'x world) option" where
  "rop_flush_database e w = do {
     (reply, w) \<leftarrow> redisCommand e ''FLUSHDB'' [] w;
     if reply = None then Some (- 1, w)
     else Some (0, put (''[+][GMS_REDIS]Clear all data!!'' @ [CHR 0x0A]) w)
   }"

definition rop_is_key_exist :: "'x env \<Rightarrow> string \<Rightarrow> 'x world \<Rightarrow> (int \<times> 'x world) option" where
  "rop_is_key_exist e key w = do {
     (reply, w) \<leftarrow> redisCommand e ''EXISTS %s'' [Str key] w;
     r \<leftarrow> reply;
     Some (if \<not> is_integer r then - 1 else if reply_integer r = 1 then 1 else 0, w)
   }"

definition rop_del_key :: "'x env \<Rightarrow> string \<Rightarrow> 'x world \<Rightarrow> (int \<times> 'x world) option" where
  "rop_del_key e key w = do {
     (reply, w) \<leftarrow> redisCommand e ''DEL %s'' [Str key] w;
     r \<leftarrow> reply;
     Some (if \<not> is_integer r then - 1 else if reply_integer r > 0 then 0 else - 1, w)
   }"

definition rop_set_key_lifecycle :: "'x env \<Rightarrow> string \<Rightarrow> int \<Rightarrow> 'x world \<Rightarrow> (int \<times> 'x world) option" where
  "rop_set_key_lifecycle e key delete_time w = do {
     (reply, w) \<leftarrow> redisCommand e ''EXPIREAT %s %d'' [Str key, Num (wrap32 delete_time)] w;
     r \<leftarrow> reply;
     Some (if reply_integer r = 1 then 0 else - 1, w)
   }"

definition show_key :: "redisReply \<Rightarrow> string" where
  "show_key r = ''======['' @ (case reply_str r of Some s \<Rightarrow> cstr s | None \<Rightarrow> ''(null)'') @ '']======'' @ [CHR 0x0A]"

definition rop_show_keys :: "'x env \<Rightarrow> string \<Rightarrow> 'x world \<Rightarrow> 'x world option" where
  "rop_show_keys e pattern w = do {
     (reply, w) \<leftarrow> redisCommand e ''keys %s'' [Str pattern] w;
     r \<leftarrow> reply;
     Some (case r of R_ARRAY rs \<Rightarrow> put (concat (map show_key rs)) w | _ \<Rightarrow> w)
   }"

subsection \<open>Commands of the caller and pipelines\<close>

text \<open>The second loop of the append functions: one reply per command, up to the first that does not come.\<close>

fun commit :: "'x env \<Rightarrow> string list list \<Rightarrow> 'x world \<Rightarrow> (int \<times> 'x world) option" where
  "commit e [] w = Some (0, w)"
| "commit e (argv # argvs) w = do {
     (reply, w) \<leftarrow> external (Redis argv) (env_redis e argv) w;
     if reply = None then Some (- 1, w) else commit e argvs w
   }"

fun append_commands :: "format_result list \<Rightarrow> string list list option option" where
  "append_commands [] = Some (Some [])"
| "append_commands (r # rs) =
    (case r of
       Missing_argument \<Rightarrow> None
     | Format_error \<Rightarrow> Some None
     | Formatted argv \<Rightarrow> map_option (map_option (Cons argv)) (append_commands rs))"

definition pipeline :: "'x env \<Rightarrow> format_result list \<Rightarrow> 'x world \<Rightarrow> (int \<times> 'x world) option" where
  "pipeline e cmds w = do {
     argvs \<leftarrow> append_commands cmds;
     (case argvs of None \<Rightarrow> Some (- 1, w) | Some as \<Rightarrow> commit e as w)
   }"

definition rop_redis_append :: "'x env \<Rightarrow> string list \<Rightarrow> 'x world \<Rightarrow> (int \<times> 'x world) option" where
  "rop_redis_append e cmds w = pipeline e (map (\<lambda>c. redisFormatCommand c []) cmds) w"

definition rop_redis_command :: "'x env \<Rightarrow> string \<Rightarrow> 'x world \<Rightarrow> (int \<times> 'x world) option" where
  "rop_redis_command e cmd w = do {
     (reply, w) \<leftarrow> redisCommand e cmd [] w;
     Some (if reply = None then - 1 else 0, w)
   }"

subsection \<open>Connections\<close>

definition connected :: "connection \<Rightarrow> bool" where
  "connected c = (case c of Conn_null \<Rightarrow> False | Conn_err \<Rightarrow> False | Conn_ok \<Rightarrow> True)"

definition port_number :: "string \<Rightarrow> int" where
  "port_number port_str = atoi port_str mod 65536"

definition rop_connectdb_nopwd :: "'x env \<Rightarrow> string \<Rightarrow> string \<Rightarrow> 'x world \<Rightarrow> (bool \<times> 'x world) option" where
  "rop_connectdb_nopwd e ip_str port_str w = do {
     (conn, w) \<leftarrow> redis_connect e (Tcp ip_str (port_number port_str)) w;
     Some (connected conn, w)
   }"

definition authenticate :: "'x env \<Rightarrow> string \<Rightarrow> connection \<Rightarrow> 'x world \<Rightarrow> (bool \<times> 'x world) option" where
  "authenticate e pwd conn w =
    (if \<not> connected conn then Some (False, w)
     else do {
       auth_cmd \<leftarrow> store REDIS_COMMAND_SIZE (sprintf ''auth %s'' [Str pwd]);
       (reply, w) \<leftarrow> redisCommand e auth_cmd [] w;
       Some (reply \<noteq> None, w)
     })"

definition rop_connectdb :: "'x env \<Rightarrow> string \<Rightarrow> string \<Rightarrow> string \<Rightarrow> 'x world \<Rightarrow> (bool \<times> 'x world) option" where
  "rop_connectdb e ip_str port_str pwd w = do {
     (conn, w) \<leftarrow> redis_connect e (Tcp ip_str (port_number port_str)) w;
     authenticate e pwd conn w
   }"

definition rop_connectdb_unix :: "'x env \<Rightarrow> string \<Rightarrow> string \<Rightarrow> 'x world \<Rightarrow> (bool \<times> 'x world) option" where
  "rop_connectdb_unix e sock_path pwd w = do {
     (conn, w) \<leftarrow> redis_connect e (Unix sock_path) w;
     authenticate e pwd conn w
   }"

definition rop_connectdb_timeout ::
    "'x env \<Rightarrow> string \<Rightarrow> string \<Rightarrow> int \<times> int \<Rightarrow> 'x world \<Rightarrow> (bool \<times> 'x world) option" where
  "rop_connectdb_timeout e ip_str port_str timeout w = do {
     (conn, w) \<leftarrow> redis_connect e (Tcp_timeout ip_str (port_number port_str) timeout) w;
     Some (connected conn, w)
   }"

subsection \<open>Hashes\<close>

text \<open>The command buffer of \<open>make_hmset_command\<close>: its text, the bytes it has, and the two counters by which
  the code decides to enlarge it.\<close>

record hmbuf =
  hm_cmd :: string
  hm_cap :: nat
  hm_buf_size :: nat
  hm_use_size :: nat

definition hm_strncat :: "string \<Rightarrow> hmbuf \<Rightarrow> hmbuf option" where
  "hm_strncat s b =
    (if length (hm_cmd b @ s) < hm_cap b then Some (b\<lparr>hm_cmd := hm_cmd b @ s\<rparr>) else None)"

definition hm_grow :: "nat \<Rightarrow> hmbuf \<Rightarrow> hmbuf" where
  "hm_grow n b =
    (let use_size = hm_use_size b + n in
     if use_size \<ge> hm_buf_size b then
       b\<lparr>hm_use_size := use_size, hm_cap := use_size + 1024 * 1024, hm_buf_size := hm_buf_size b + 1024 * 1024\<rparr>
     else b\<lparr>hm_use_size := use_size\<rparr>)"

fun hm_elements :: "(string \<times> string) list \<Rightarrow> hmbuf \<Rightarrow> hmbuf option" where
  "hm_elements [] b = Some b"
| "hm_elements ((f, v) # fvs) b = do {
     b \<leftarrow> hm_strncat '' '' b;
     let b = hm_grow 1 b;
     b \<leftarrow> hm_strncat (take FIELD_ID_SIZE f) b;
     let b = hm_grow (length f) b;
     b \<leftarrow> hm_strncat '' '' b;
     let b = hm_grow 1 b;
     b \<leftarrow> hm_strncat (take VALUES_ID_SIZE v) b;
     hm_elements fvs (hm_grow (length v) b)
   }"

definition make_hmset_command :: "string \<Rightarrow> (string \<times> string) list \<Rightarrow> string option" where
  "make_hmset_command key fvs =
     map_option hm_cmd (hm_elements fvs
       \<lparr>hm_cmd = ''hmset '' @ take 200 key, hm_cap = 1024 * 1024, hm_buf_size = 1024 * 1024,
        hm_use_size = 206\<rparr>)"

definition rop_hash_set_append ::
    "'x env \<Rightarrow> string \<Rightarrow> (string \<times> string) list \<Rightarrow> 'x world \<Rightarrow> (int \<times> 'x world) option" where
  "rop_hash_set_append e key fvs w =
     pipeline e (map (\<lambda>(f, v). redisFormatCommand ''hset %s %s %s'' [Str key, Str f, Str v]) fvs) w"

definition rop_hash_set :: "'x env \<Rightarrow> string \<Rightarrow> string \<Rightarrow> string \<Rightarrow> 'x world \<Rightarrow> (int \<times> 'x world) option" where
  "rop_hash_set e key field val w = do {
     (reply, w) \<leftarrow> redisCommand e ''hset %s %s %s'' [Str key, Str field, Str val] w;
     Some (case reply of Some (R_INTEGER _) \<Rightarrow> 0 | _ \<Rightarrow> - 1, w)
   }"

text \<open>\<open>cap\<close> is the size of the array that the caller passes.\<close>

definition rop_hash_get ::
    "'x env \<Rightarrow> nat \<Rightarrow> string \<Rightarrow> string \<Rightarrow> 'x world \<Rightarrow> (string option \<times> 'x world) option" where
  "rop_hash_get e cap key field w = do {
     (reply, w) \<leftarrow> redisCommand e ''hget %s %s'' [Str key, Str field] w;
     (case reply of
        Some (R_STRING s) \<Rightarrow>
          (let len = min (length s) VALUES_ID_SIZE in
           if len < cap then Some (Some (cstr (take len s)), w) else None)
      | _ \<Rightarrow> Some (None, w))
   }"

text \<open>The log message of the error path has one directive more than arguments.\<close>

definition rop_hash_del :: "'x env \<Rightarrow> string \<Rightarrow> string \<Rightarrow> 'x world \<Rightarrow> (int \<times> 'x world) option" where
  "rop_hash_del e key field w = do {
     (reply, w) \<leftarrow> redisCommand e ''hdel %s %s'' [Str key, Str field] w;
     r \<leftarrow> reply;
     if reply_integer r \<noteq> 1 then do {
       _ \<leftarrow> env_garbage e (ext w);
       Some (- 1, w)
     }
     else Some (0, w)
   }"

definition rop_create_or_replace_hash_table ::
    "'x env \<Rightarrow> string \<Rightarrow> (string \<times> string) list \<Rightarrow> 'x world \<Rightarrow> (int \<times> 'x world) option" where
  "rop_create_or_replace_hash_table e key fvs w = do {
     cmd \<leftarrow> make_hmset_command key fvs;
     (reply, w) \<leftarrow> redisCommand e cmd [] w;
     r \<leftarrow> reply;
     s \<leftarrow> reply_str r;
     Some (if cstr s \<noteq> ''OK'' then - 1 else 0, w)
   }"

definition rop_hincrement_one_field ::
    "'x env \<Rightarrow> string \<Rightarrow> string \<Rightarrow> int \<Rightarrow> 'x world \<Rightarrow> (int \<times> 'x world) option" where
  "rop_hincrement_one_field e key field num w = do {
     (reply, w) \<leftarrow> redisCommand e ''HINCRBY %s %s %d'' [Str key, Str field, Num (wrap32 num)] w;
     Some (if reply = None then - 1 else 0, w)
   }"

subsection \<open>Lists and strings\<close>

definition rop_list_push_append :: "'x env \<Rightarrow> string \<Rightarrow> string list \<Rightarrow> 'x world \<Rightarrow> (int \<times> 'x world) option" where
  "rop_list_push_append e key vals w =
     pipeline e (map (\<lambda>v. redisFormatCommand ''lpush %s %s'' [Str key, Str v]) vals) w"

definition rop_list_push :: "'x env \<Rightarrow> string \<Rightarrow> string \<Rightarrow> 'x world \<Rightarrow> (int \<times> 'x world) option" where
  "rop_list_push e key val w = do {
     (reply, w) \<leftarrow> redisCommand e ''LPUSH %s %s'' [Str key, Str val] w;
     r \<leftarrow> reply;
     Some (if is_integer r then 0 else - 1, w)
   }"

definition rop_get_list_cnt :: "'x env \<Rightarrow> string \<Rightarrow> 'x world \<Rightarrow> (int \<times> 'x world) option" where
  "rop_get_list_cnt e key w = do {
     (reply, w) \<leftarrow> redisCommand e ''LLEN %s'' [Str key] w;
     r \<leftarrow> reply;
     Some (if is_integer r then wrap32 (reply_integer r) else - 1, w)
   }"

definition rop_trim_list :: "'x env \<Rightarrow> string \<Rightarrow> int \<Rightarrow> int \<Rightarrow> 'x world \<Rightarrow> (int \<times> 'x world) option" where
  "rop_trim_list e key begin_pos end_pos w = do {
     (reply, w) \<leftarrow> redisCommand e ''LTRIM %s %d %d'' [Str key, Num begin_pos, Num end_pos] w;
     r \<leftarrow> reply;
     Some (case r of R_STATUS _ \<Rightarrow> 0 | _ \<Rightarrow> - 1, w)
   }"

text \<open>Copying at most \<open>count\<close> elements of a reply into an array of \<open>rows\<close> lines of \<open>VALUES_ID_SIZE\<close>
  characters; a negative \<open>count\<close> becomes a huge unsigned number in the comparison.\<close>

definition max_elements :: "int \<Rightarrow> nat \<Rightarrow> nat" where
  "max_elements count elements = (if 0 \<le> count \<and> nat count < elements then nat count else elements)"

definition copy_elements :: "nat \<Rightarrow> redisReply list \<Rightarrow> string list option" where
  "copy_elements rows rs =
    (if length rs \<le> rows
     then those (map (\<lambda>r. map_option (\<lambda>s. take (VALUES_ID_SIZE - 1) (cstr s)) (reply_str r)) rs)
     else None)"

definition rop_range_list ::
    "'x env \<Rightarrow> nat \<Rightarrow> string \<Rightarrow> int \<Rightarrow> int \<Rightarrow> 'x world \<Rightarrow> (string list option \<times> 'x world) option" where
  "rop_range_list e rows key from_pos end_pos w = do {
     (reply, w) \<leftarrow> redisCommand e ''LRANGE %s %d %d'' [Str key, Num from_pos, Num end_pos] w;
     r \<leftarrow> reply;
     (case r of
        R_ARRAY rs \<Rightarrow>
          if rs = [] then Some (None, w)
          else map_option (\<lambda>vs. (Some vs, w))
            (copy_elements rows (take (max_elements (end_pos - from_pos + 1) (length rs)) rs))
      | _ \<Rightarrow> Some (None, w))
   }"

definition reply_ok :: "redisReply \<Rightarrow> int option" where
  "reply_ok r = map_option (\<lambda>s. if cstr s \<noteq> ''OK'' then - 1 else 0) (reply_str r)"

definition rop_set_string :: "'x env \<Rightarrow> string \<Rightarrow> string \<Rightarrow> 'x world \<Rightarrow> (int \<times> 'x world) option" where
  "rop_set_string e key val w = do {
     (reply, w) \<leftarrow> redisCommand e ''set %s %s'' [Str key, Str val] w;
     r \<leftarrow> reply;
     retn \<leftarrow> reply_ok r;
     Some (retn, w)
   }"

definition rop_setex_string ::
    "'x env \<Rightarrow> string \<Rightarrow> int \<Rightarrow> string \<Rightarrow> 'x world \<Rightarrow> (int \<times> 'x world) option" where
  "rop_setex_string e key seconds val w = do {
     (reply, w) \<leftarrow> redisCommand e ''setex %s %u %s'' [Str key, Num seconds, Str val] w;
     r \<leftarrow> reply;
     retn \<leftarrow> reply_ok r;
     Some (retn, w)
   }"

definition rop_get_string ::
    "'x env \<Rightarrow> nat \<Rightarrow> string \<Rightarrow> 'x world \<Rightarrow> (string option \<times> 'x world) option" where
  "rop_get_string e cap key w = do {
     (reply, w) \<leftarrow> redisCommand e ''get %s'' [Str key] w;
     r \<leftarrow> reply;
     (case r of
        R_STRING s \<Rightarrow> if length s < cap then Some (Some (cstr s), w) else None
      | _ \<Rightarrow> Some (None, w))
   }"

subsection \<open>Sorted sets\<close>

definition rop_zset_add :: "'x env \<Rightarrow> string \<Rightarrow> int \<Rightarrow> string \<Rightarrow> 'x world \<Rightarrow> (int \<times> 'x world) option" where
  "rop_zset_add e key score member w = do {
     (reply, w) \<leftarrow> redisCommand e ''ZADD %s %ld %s'' [Str key, Num score, Str member] w;
     r \<leftarrow> reply;
     Some (if reply_integer r \<noteq> 1 then - 1 else 0, w)
   }"

definition rop_zset_zrem :: "'x env \<Rightarrow> string \<Rightarrow> string \<Rightarrow> 'x world \<Rightarrow> (int \<times> 'x world) option" where
  "rop_zset_zrem e key member w = do {
     (reply, w) \<leftarrow> redisCommand e ''ZREM %s %s'' [Str key, Str member] w;
     r \<leftarrow> reply;
     Some (if reply_integer r \<noteq> 1 then - 1 else 0, w)
   }"

definition rop_zset_del_all :: "'x env \<Rightarrow> string \<Rightarrow> 'x world \<Rightarrow> (int \<times> 'x world) option" where
  "rop_zset_del_all e key w = do {
     (reply, w) \<leftarrow> redisCommand e ''ZREMRANGEBYRANK %s 0 -1'' [Str key] w;
     r \<leftarrow> reply;
     Some (if is_integer r then 0 else - 1, w)
   }"

definition rop_zset_zrevrange ::
    "'x env \<Rightarrow> nat \<Rightarrow> string \<Rightarrow> int \<Rightarrow> int \<Rightarrow> 'x world \<Rightarrow> (string list option \<times> 'x world) option" where
  "rop_zset_zrevrange e rows key from_pos end_pos w = do {
     (reply, w) \<leftarrow> redisCommand e ''ZREVRANGE %s %d %d'' [Str key, Num from_pos, Num end_pos] w;
     r \<leftarrow> reply;
     (case r of
        R_ARRAY rs \<Rightarrow>
          map_option (\<lambda>vs. (Some vs, w))
            (copy_elements rows (take (max_elements (end_pos - from_pos + 1) (length rs)) rs))
      | _ \<Rightarrow> Some (None, w))
   }"

definition rop_zset_increment :: "'x env \<Rightarrow> string \<Rightarrow> string \<Rightarrow> 'x world \<Rightarrow> (int \<times> 'x world) option" where
  "rop_zset_increment e key member w = do {
     (reply, w) \<leftarrow> redisCommand e ''ZINCRBY %s 1 %s'' [Str key, Str member] w;
     r \<leftarrow> reply;
     retn \<leftarrow> reply_ok r;
     Some (retn, w)
   }"

definition rop_zset_zcard :: "'x env \<Rightarrow> string \<Rightarrow> 'x world \<Rightarrow> (int \<times> 'x world) option" where
  "rop_zset_zcard e key w = do {
     (reply, w) \<leftarrow> redisCommand e ''ZCARD %s'' [Str key] w;
     r \<leftarrow> reply;
     Some (if is_integer r then wrap32 (reply_integer r) else - 1, w)
   }"

definition rop_zset_get_score :: "'x env \<Rightarrow> string \<Rightarrow> string \<Rightarrow> 'x world \<Rightarrow> (int \<times> 'x world) option" where
  "rop_zset_get_score e key member w = do {
     (reply, w) \<leftarrow> redisCommand e ''ZSCORE %s %s'' [Str key, Str member] w;
     r \<leftarrow> reply;
     Some (case r of R_STRING s \<Rightarrow> atoi (cstr s) | _ \<Rightarrow> - 1, w)
   }"

definition rop_zset_exit :: "'x env \<Rightarrow> string \<Rightarrow> string \<Rightarrow> 'x world \<Rightarrow> (int \<times> 'x world) option" where
  "rop_zset_exit e key member w = do {
     (reply, w) \<leftarrow> redisCommand e ''zlexcount %s [%s [%s'' [Str key, Str member, Str member] w;
     r \<leftarrow> reply;
     Some (if is_integer r then wrap32 (reply_integer r) else - 1, w)
   }"

definition rop_zset_increment_append :: "'x env \<Rightarrow> string \<Rightarrow> string list \<Rightarrow> 'x world \<Rightarrow> (int \<times> 'x world) option" where
  "rop_zset_increment_append e key vals w =
     pipeline e (map (\<lambda>v. redisFormatCommand ''ZINCRBY %s 1 %s'' [Str key, Str v]) vals) w"

end
