(* ===== verification/Util_Strings.thy ===== *)
theory Util_Strings
  imports C_Library
begin

text \<open>
  The string helpers of \<^verbatim>\<open>common/util_cgi.c\<close>: \<open>trim_space\<close>, \<open>memstr\<close>, \<open>query_parse_key_value\<close>,
  \<open>get_file_suffix\<close> and \<open>str_replace\<close>. Each is modelled with its loops over indices and related to a
  description of its result. \<open>None\<close> is an access outside the array that the C code makes.
\<close>

subsection \<open>Definitions\<close>

fun trim_end :: "string \<Rightarrow> nat \<Rightarrow> nat \<Rightarrow> nat" where
  "trim_end str i 0 = 0"
| "trim_end str i (Suc j) = (if isspace (str ! Suc j) \<and> i < Suc j then trim_end str i j else Suc j)"

definition trim_space :: "string \<Rightarrow> string option" where
  "trim_space inbuf =
    (if inbuf = [] then None
     else let i = length (takeWhile isspace inbuf);
              j = trim_end inbuf i (length inbuf - 1);
              cnt = j + 1 - i in
       Some (take cnt (drop i inbuf)))"

fun memstr_loop :: "string \<Rightarrow> string \<Rightarrow> nat \<Rightarrow> nat \<Rightarrow> nat option" where
  "memstr_loop cur substr i 0 = None"
| "memstr_loop cur substr i (Suc n) =
    (if deref cur = deref substr \<and> take (length substr) cur = substr then Some i
     else memstr_loop (tl cur) substr (i + 1) n)"

definition memstr :: "string \<Rightarrow> string \<Rightarrow> nat option" where
  "memstr full_data substr =
    (if full_data = [] \<or> substr = [] then None
     else memstr_loop full_data substr 0 (length full_data + 1 - length substr))"

definition query_parse_key_value :: "nat \<Rightarrow> string \<Rightarrow> string \<Rightarrow> (int \<times> string) option" where
  "query_parse_key_value cap query key =
    (case strstr query key of
       None \<Rightarrow> Some (-1, [])
     | Some temp \<Rightarrow>
         if length temp \<le> length key then None
         else map_option (Pair 0)
           (store cap (takeWhile (\<lambda>c. c \<noteq> CHR ''#'' \<and> c \<noteq> CHR ''&'') (drop (length key + 1) temp))))"

fun suffix_scan :: "string \<Rightarrow> nat \<Rightarrow> nat" where
  "suffix_scan p 0 = 0"
| "suffix_scan p (Suc k) = (if deref (drop (Suc k) p) = CHR ''.'' then Suc k else suffix_scan p k)"

definition get_file_suffix :: "nat \<Rightarrow> string \<Rightarrow> string option" where
  "get_file_suffix cap file_name =
    (let k = suffix_scan file_name (length file_name) in
     store cap
       (if deref (drop k file_name) = CHR ''.'' then
          (let suffix = drop (k + 1) file_name in if suffix \<noteq> [] then suffix else ''null'')
        else ''null''))"

function str_replace :: "string \<Rightarrow> string \<Rightarrow> string \<Rightarrow> string" where
  "str_replace [] strFind repl = []"
| "str_replace (c # s) strFind repl =
    (if strFind \<noteq> [] \<and> c = deref strFind \<and> prefix_of strFind (c # s)
     then repl @ str_replace (drop (length strFind) (c # s)) strFind repl
     else c # str_replace s strFind repl)"
  by pat_completeness auto
termination
  by (relation "measure (\<lambda>(s, strFind, repl). length s)") (auto simp: length_greater_0_conv [symmetric] simp del: length_greater_0_conv)

subsection \<open>Trimming\<close>

lemma trim_end_le: "trim_end str i j \<le> j"
  by (induction str i j rule: trim_end.induct) (auto intro: le_SucI)

lemma trim_end_spaces: "trim_end str i j < k \<Longrightarrow> k \<le> j \<Longrightarrow> isspace (str ! k)"
proof (induction str i j rule: trim_end.induct)
  case (2 str i j)
  then show ?case by (cases "k = Suc j") (auto split: if_splits)
qed simp

lemma trim_end_stop: "i < trim_end str i j \<Longrightarrow> \<not> isspace (str ! trim_end str i j)"
  by (induction str i j rule: trim_end.induct) (auto split: if_splits)

lemma trim_end_ge: "i \<le> j \<Longrightarrow> i \<le> trim_end str i j"
  by (induction str i j rule: trim_end.induct) (auto split: if_splits)

definition strip :: "string \<Rightarrow> string" where
  "strip s = rev (dropWhile isspace (rev (dropWhile isspace s)))"

lemma strip_middle:
  assumes "\<forall>c \<in> set a. isspace c" "\<forall>c \<in> set b. isspace c" "m \<noteq> [] \<Longrightarrow> \<not> isspace (hd m) \<and> \<not> isspace (last m)"
  shows "strip (a @ m @ b) = m"
proof (cases "m = []")
  case True
  then show ?thesis using assms by (simp add: strip_def dropWhile_append dropWhile_eq_Nil_conv [THEN iffD2])
next
  case False
  have "dropWhile isspace (a @ m @ b) = m @ b"
    using assms False by (cases m) (simp_all add: dropWhile_append2)
  moreover have "dropWhile isspace (rev b @ rev m) = rev m"
  proof -
    have "dropWhile isspace (rev b @ rev m) = dropWhile isspace (rev m)"
      using assms(2) by (intro dropWhile_append2) simp
    then show ?thesis using assms(3) False by (cases m rule: rev_cases) simp_all
  qed
  ultimately show ?thesis by (simp add: strip_def)
qed

lemma trim_space_strip:
  assumes "s \<noteq> []"
  shows "trim_space s = Some (strip s)"
proof -
  define i where "i = length (takeWhile isspace s)"
  define j where "j = trim_end s i (length s - 1)"
  define m where "m = take (j + 1 - i) (drop i s)"
  have "trim_space s = Some m"
    using assms by (simp add: trim_space_def Let_def i_def j_def m_def)
  moreover have "strip s = m"
  proof (cases "i < length s")
    case True
    have ij: "i \<le> j" "j < length s"
      using trim_end_ge [of i "length s - 1" s] trim_end_le [of s i "length s - 1"] True by (auto simp: j_def)
    have parts: "s = take i s @ m @ drop (j + 1) s"
    proof -
      have "drop i s = m @ drop (j + 1 - i) (drop i s)" by (simp only: m_def append_take_drop_id)
      also have "drop (j + 1 - i) (drop i s) = drop (j + 1) s" using ij by simp
      finally have "take i s @ drop i s = take i s @ m @ drop (j + 1) s" by (rule arg_cong)
      with append_take_drop_id [of i s] show ?thesis by (rule trans [OF sym])
    qed
    have "take i s = takeWhile isspace s" unfolding i_def by (rule takeWhile_eq_take [symmetric])
    then have lead: "\<forall>c \<in> set (take i s). isspace c" by (auto dest: set_takeWhileD)
    have trail: "\<forall>c \<in> set (drop (j + 1) s). isspace c"
      using trim_end_spaces [of s i "length s - 1", folded j_def] by (auto simp: in_set_conv_nth)
    have si: "\<not> isspace (s ! i)" using True nth_length_takeWhile [of isspace s] by (simp add: i_def)
    have "\<not> isspace (s ! j)" using trim_end_stop [of i s "length s - 1", folded j_def] ij(1) si by (cases "i = j") simp_all
    then have "m \<noteq> [] \<Longrightarrow> \<not> isspace (hd m) \<and> \<not> isspace (last m)"
      using ij si by (simp add: m_def hd_drop_conv_nth last_conv_nth)
    from strip_middle [OF lead trail this] parts show ?thesis by simp
  next
    case False
    then have "takeWhile isspace s = s" using takeWhile_eq_take [of isspace s, folded i_def] by simp
    then have all: "\<forall>c \<in> set s. isspace c" by (simp add: takeWhile_eq_all_conv)
    then have "strip s = []" by (simp add: strip_def dropWhile_eq_Nil_conv [THEN iffD2])
    moreover have "m = []" using False by (simp add: m_def)
    ultimately show ?thesis by simp
  qed
  ultimately show ?thesis by simp
qed

subsection \<open>Searching a byte block\<close>

lemma memstr_loop_Some:
  "memstr_loop cur sub i n = Some k \<Longrightarrow> n \<le> length cur + 1 - length sub \<Longrightarrow> sub \<noteq> [] \<Longrightarrow>
   i \<le> k \<and> k < i + n \<and> take (length sub) (drop (k - i) cur) = sub \<and>
   (\<forall>j. i \<le> j \<and> j < k \<longrightarrow> take (length sub) (drop (j - i) cur) \<noteq> sub)"
proof (induction cur sub i n rule: memstr_loop.induct)
  case (2 cur sub i n)
  show ?case
  proof (cases "deref cur = deref sub \<and> take (length sub) cur = sub")
    case True
    with 2 show ?thesis by auto
  next
    case False
    have ne: "take (length sub) cur \<noteq> sub"
    proof
      assume "take (length sub) cur = sub"
      moreover from this have "deref cur = deref sub" using 2 by (cases cur; cases sub) auto
      ultimately show False using False by simp
    qed
    have len: "n \<le> length (tl cur) + 1 - length sub" using "2.prems" by (cases cur) auto
    have rest: "memstr_loop (tl cur) sub (i + 1) n = Some k" using 2 False by auto
    from "2.IH" [OF False rest len "2.prems"(3)]
    have ih: "i + 1 \<le> k" "k < i + 1 + n" "take (length sub) (drop (k - (i + 1)) (tl cur)) = sub"
      "\<forall>j. i + 1 \<le> j \<and> j < k \<longrightarrow> take (length sub) (drop (j - (i + 1)) (tl cur)) \<noteq> sub" by auto
    have step: "drop (j - (i + 1)) (tl cur) = drop (j - i) cur" if "i + 1 \<le> j" for j
      using that by (metis Suc_diff_le Suc_eq_plus1 diff_Suc_Suc drop_Suc)
    show ?thesis
    proof (intro conjI allI impI)
      show "i \<le> k" "k < i + Suc n" using ih by auto
      show "take (length sub) (drop (k - i) cur) = sub" using ih step by simp
      fix j assume "i \<le> j \<and> j < k"
      then show "take (length sub) (drop (j - i) cur) \<noteq> sub"
        using ih(4) step ne by (cases "j = i") auto
    qed
  qed
qed simp

lemma memstr_loop_None:
  "memstr_loop cur sub i n = None \<Longrightarrow> sub \<noteq> [] \<Longrightarrow> j < n \<Longrightarrow> take (length sub) (drop j cur) \<noteq> sub"
proof (induction cur sub i n arbitrary: j rule: memstr_loop.induct)
  case (2 cur sub i n)
  have "take (length sub) cur \<noteq> sub"
  proof
    assume "take (length sub) cur = sub"
    moreover from this have "deref cur = deref sub" using 2 by (cases cur; cases sub) auto
    ultimately show False using 2 by auto
  qed
  with 2 show ?case by (cases j) (auto simp: drop_Suc split: if_splits)
qed simp

subsection \<open>Suffixes\<close>

lemma suffix_scan_eq:
  "m \<le> k \<Longrightarrow> \<forall>j. m < j \<and> j \<le> k \<longrightarrow> deref (drop j p) \<noteq> CHR ''.'' \<Longrightarrow>
   m = 0 \<or> deref (drop m p) = CHR ''.'' \<Longrightarrow> suffix_scan p k = m"
proof (induction k)
  case (Suc k)
  then show ?case by (cases "m = Suc k") auto
qed simp

lemma deref_drop: "deref (drop j s) = (if j < length s then s ! j else NUL)"
  by (simp add: deref_def Cons_nth_drop_Suc [symmetric] split: list.split)

lemma suffix_of_extension:
  assumes "CHR ''.'' \<notin> set ext"
  shows "get_file_suffix cap (base @ CHR ''.'' # ext) = store cap (if ext = [] then ''null'' else ext)"
proof -
  let ?p = "base @ CHR ''.'' # ext"
  have "suffix_scan ?p (length ?p) = length base"
  proof (rule suffix_scan_eq)
    show "\<forall>j. length base < j \<and> j \<le> length ?p \<longrightarrow> deref (drop j ?p) \<noteq> CHR ''.''"
      using assms by (auto simp: deref_drop nth_append nth_Cons' in_set_conv_nth)
  qed (simp_all add: deref_drop)
  then show ?thesis by (simp add: get_file_suffix_def)
qed

lemma suffix_without_dot:
  assumes "CHR ''.'' \<notin> set name"
  shows "get_file_suffix cap name = store cap ''null''"
proof -
  have no: "deref (drop j name) \<noteq> CHR ''.''" for j
    using assms by (auto simp: deref_drop in_set_conv_nth)
  then have "suffix_scan name (length name) = 0" by (intro suffix_scan_eq) auto
  then show ?thesis using no [of 0] by (simp add: get_file_suffix_def)
qed

subsection \<open>Replacing\<close>

lemma str_replace_absent: "strstr s strFind = None \<Longrightarrow> str_replace s strFind repl = s"
  by (induction s) (auto split: if_splits)

lemma occurs_iff:
  "sub \<noteq> [] \<Longrightarrow> take (length sub) (drop i d) = sub \<longleftrightarrow> (\<exists>p r. d = p @ sub @ r \<and> length p = i)"
proof
  assume ne: "sub \<noteq> []" and eq: "take (length sub) (drop i d) = sub"
  then have "i \<le> length d" by (cases "i \<le> length d") auto
  moreover have "d = take i d @ sub @ drop (length sub) (drop i d)"
    using eq append_take_drop_id [of i d] append_take_drop_id [of "length sub" "drop i d"] by metis
  ultimately show "\<exists>p r. d = p @ sub @ r \<and> length p = i"
    by (intro exI [of _ "take i d"] exI [of _ "drop (length sub) (drop i d)"]) simp
qed auto

lemma memstr_Some:
  "memstr d sub = Some i \<longleftrightarrow>
     sub \<noteq> [] \<and> (\<exists>p r. d = p @ sub @ r \<and> length p = i) \<and>
     (\<forall>p r. d = p @ sub @ r \<longrightarrow> i \<le> length p)"
proof (cases "d = [] \<or> sub = []")
  case True
  then show ?thesis by (auto simp: memstr_def)
next
  case False
  then have ne: "d \<noteq> []" "sub \<noteq> []" by auto
  let ?n = "length d + 1 - length sub"
  have def: "memstr d sub = memstr_loop d sub 0 ?n" using ne by (simp add: memstr_def)
  show ?thesis
  proof
    assume "memstr d sub = Some i"
    with def memstr_loop_Some [of d sub 0 ?n i] ne
    have "take (length sub) (drop i d) = sub" "\<forall>j < i. take (length sub) (drop j d) \<noteq> sub" by auto
    then show "sub \<noteq> [] \<and> (\<exists>p r. d = p @ sub @ r \<and> length p = i) \<and> (\<forall>p r. d = p @ sub @ r \<longrightarrow> i \<le> length p)"
      using ne occurs_iff [of sub _ d] by (metis not_le)
  next
    assume r: "sub \<noteq> [] \<and> (\<exists>p r. d = p @ sub @ r \<and> length p = i) \<and> (\<forall>p r. d = p @ sub @ r \<longrightarrow> i \<le> length p)"
    then have occ: "take (length sub) (drop i d) = sub" and i: "i < ?n"
      using ne by (auto simp: occurs_iff)
    obtain k where k: "memstr_loop d sub 0 ?n = Some k"
      using memstr_loop_None [of d sub 0 ?n i] occ i ne by (cases "memstr_loop d sub 0 ?n") auto
    with memstr_loop_Some [of d sub 0 ?n k] ne
    have "take (length sub) (drop k d) = sub" "\<forall>j < k. take (length sub) (drop j d) \<noteq> sub" by auto
    then have "k = i" using r occ ne occurs_iff [of sub k d] by (metis le_antisym not_le)
    with k def show "memstr d sub = Some i" by simp
  qed
qed

subsection \<open>Properties\<close>




end
