(* ===== verification/Util_Cgi.thy ===== *)
theory Util_Cgi
  imports CJSON Redis_Op Util_Strings
begin

text \<open>
  What every CGI program is built on: the JSON configuration file (\<^verbatim>\<open>common/config.c\<close>), the wrapper
  around the MySQL client (\<^verbatim>\<open>common/deal_mysql.c\<close>), the status answer and the token check
  (\<^verbatim>\<open>common/util_cgi.c\<close>), and the reading of a request, which all \<open>main\<close> functions share.
\<close>

definition SQL_MAX_LEN :: nat where "SQL_MAX_LEN = 512"
definition USER_NAME_LEN :: nat where "USER_NAME_LEN = 128"
definition TOKEN_LEN :: nat where "TOKEN_LEN = 128"
definition MD5_LEN :: nat where "MD5_LEN = 256"
definition PWD_LEN :: nat where "PWD_LEN = 256"
definition FILE_NAME_LEN :: nat where "FILE_NAME_LEN = 256"
definition TEMP_BUF_MAX_LEN :: nat where "TEMP_BUF_MAX_LEN = 512"
definition SUFFIX_LEN :: nat where "SUFFIX_LEN = 8"
definition HOST_NAME_LEN :: nat where "HOST_NAME_LEN = 30"
definition FILE_URL_LEN :: nat where "FILE_URL_LEN = 512"

subsection \<open>Logging\<close>

text \<open>\<open>dumpmsg_to_file\<close> formats the message into an array of 4096 characters. Only the messages that
  can be that long are part of the model of the programs.\<close>

definition LOG :: "string \<Rightarrow> string option" where
  "LOG msg = store 4096 msg"

subsection \<open>Configuration\<close>

definition CONFIG_PATH :: string where
  "CONFIG_PATH = ''/home/huafeng/HF_DFS/src/conf/config.json''"

text \<open>The text that \<open>get_config_value\<close> copies to its caller, \<open>None\<close> inside when it returns \<open>-1\<close>. The
  copy has no bound: \<open>cap\<close> is the size of the caller's array.\<close>

definition get_config_value :: "'x env \<Rightarrow> nat \<Rightarrow> string \<Rightarrow> string \<Rightarrow> string \<Rightarrow> string option option" where
  "get_config_value e cap profile title key =
    (case env_file e profile of
       None \<Rightarrow> Some None
     | Some buf \<Rightarrow> do {
         parsed \<leftarrow> cJSON_Parse (cstr buf);
         (case parsed of
            None \<Rightarrow> Some None
          | Some json \<Rightarrow>
              (case cJSON_GetObjectItem json title of
                 None \<Rightarrow> Some None
               | Some father \<Rightarrow>
                   (case cJSON_GetObjectItem father key of
                      None \<Rightarrow> Some None
                    | Some son \<Rightarrow> do {
                        s \<leftarrow> valuestring son;
                        t \<leftarrow> store cap s;
                        Some (Some t)
                      })))
       })"

text \<open>A configuration array that keeps its zero bytes when the value is missing.\<close>

definition config_or_empty :: "'x env \<Rightarrow> nat \<Rightarrow> string \<Rightarrow> string \<Rightarrow> string option" where
  "config_or_empty e cap title key =
     map_option (\<lambda>v. case v of None \<Rightarrow> [] | Some s \<Rightarrow> s) (get_config_value e cap CONFIG_PATH title key)"

definition get_mysql_info :: "'x env \<Rightarrow> nat \<Rightarrow> (int \<times> string \<times> string \<times> string) option" where
  "get_mysql_info e cap = do {
     user \<leftarrow> get_config_value e cap CONFIG_PATH ''mysql'' ''user'';
     (case user of
        None \<Rightarrow> Some (- 1, [], [], [])
      | Some user \<Rightarrow> do {
          pwd \<leftarrow> get_config_value e cap CONFIG_PATH ''mysql'' ''password'';
          (case pwd of
             None \<Rightarrow> Some (- 1, user, [], [])
           | Some pwd \<Rightarrow> do {
               db \<leftarrow> get_config_value e cap CONFIG_PATH ''mysql'' ''database'';
               (case db of
                  None \<Rightarrow> Some (- 1, user, pwd, [])
                | Some db \<Rightarrow> Some (0, user, pwd, db))
             })
        })
   }"

text \<open>The static variables that \<open>read_config\<close> of the CGI programs fills once.\<close>

record config =
  mysql_user :: string
  mysql_pwd :: string
  mysql_db :: string
  redis_ip :: string
  redis_port :: string

definition read_config :: "'x env \<Rightarrow> config option" where
  "read_config e = do {
     u \<leftarrow> config_or_empty e 128 ''mysql'' ''user'';
     p \<leftarrow> config_or_empty e 128 ''mysql'' ''password'';
     d \<leftarrow> config_or_empty e 128 ''mysql'' ''database'';
     i \<leftarrow> config_or_empty e 30 ''redis'' ''ip'';
     t \<leftarrow> config_or_empty e 10 ''redis'' ''port'';
     Some \<lparr>mysql_user = u, mysql_pwd = p, mysql_db = d, redis_ip = i, redis_port = t\<rparr>
   }"

definition read_config_mysql :: "'x env \<Rightarrow> config option" where
  "read_config_mysql e = do {
     u \<leftarrow> config_or_empty e 128 ''mysql'' ''user'';
     p \<leftarrow> config_or_empty e 128 ''mysql'' ''password'';
     d \<leftarrow> config_or_empty e 128 ''mysql'' ''database'';
     Some \<lparr>mysql_user = u, mysql_pwd = p, mysql_db = d, redis_ip = [], redis_port = []\<rparr>
   }"

subsection \<open>MySQL\<close>

definition msql_conn ::
    "'x env \<Rightarrow> string \<Rightarrow> string \<Rightarrow> string \<Rightarrow> 'x world \<Rightarrow> (bool \<times> 'x world) option" where
  "msql_conn e user_name passwd db_name w =
     external Mysql_connect (env_mysql_connect e user_name passwd db_name) w"

text \<open>\<open>process_result_one\<close> returns its status and the contents of the caller's array of \<open>cap\<close>
  characters, which it overwrites only when the first column of the first row is not null. With \<open>None\<close>
  for the array it only tests whether there are rows.\<close>

definition process_result_one ::
    "'x env \<Rightarrow> nat \<Rightarrow> string \<Rightarrow> string option \<Rightarrow> 'x world \<Rightarrow> (int \<times> string \<times> 'x world) option" where
  "process_result_one e cap sql_cmd buf w = do {
     (r, w) \<leftarrow> mysql_query e sql_cmd w;
     let b = (case buf of None \<Rightarrow> [] | Some b \<Rightarrow> b);
     (case r of
        SqlError \<Rightarrow> Some (- 1, b, w)
      | SqlOk \<Rightarrow> Some (- 1, b, w)
      | SqlRows rows \<Rightarrow>
          if rows = [] then Some (1, b, w)
          else if buf = None then Some (2, b, w)
          else (case hd rows of
              Some s # _ \<Rightarrow> do { t \<leftarrow> store cap s; Some (0, t, w) }
            | _ \<Rightarrow> Some (0, b, w)))
   }"

text \<open>\<open>process_result_test\<close> prints every row of a result.\<close>

definition show_row :: "string option list \<Rightarrow> string" where
  "show_row row = join [CHR 0x09] (map (\<lambda>c. case c of Some s \<Rightarrow> s | None \<Rightarrow> ''NULL'') row) @ [CHR 0x0A]"

definition process_result_test :: "bool \<Rightarrow> string option list list \<Rightarrow> 'x world \<Rightarrow> 'x world" where
  "process_result_test err rows w =
    (let w = put (concat (map show_row rows)) w in
     if err then w else put (show_nat (length rows) @ '' rows returned '' @ [CHR 0x0A]) w)"

text \<open>\<open>sprintf\<close> into the array \<open>sql_cmd\<close>.\<close>

definition sql_text :: "string \<Rightarrow> farg list \<Rightarrow> string option" where
  "sql_text format args = store SQL_MAX_LEN (fmt format args)"

subsection \<open>Answers and tokens\<close>

definition return_status :: "string \<Rightarrow> string option" where
  "return_status status_num = cJSON_Print (cJSON_AddStringToObject cJSON_CreateObject ''code'' status_num)"

text \<open>\<open>printf(out)\<close> of a status, unless \<open>out\<close> is null.\<close>

definition answer_status :: "string \<Rightarrow> 'x world \<Rightarrow> 'x world option" where
  "answer_status status_num w =
    (case return_status status_num of None \<Rightarrow> Some w | Some text \<Rightarrow> printf_out text w)"

definition verify_token :: "'x env \<Rightarrow> string \<Rightarrow> string \<Rightarrow> 'x world \<Rightarrow> (int \<times> 'x world) option" where
  "verify_token e user token w = do {
     ip \<leftarrow> config_or_empty e 30 ''redis'' ''ip'';
     port \<leftarrow> config_or_empty e 10 ''redis'' ''port'';
     (conn, w) \<leftarrow> rop_connectdb_nopwd e ip port w;
     if \<not> conn then Some (- 1, w)
     else do {
       (tmp_token, w) \<leftarrow> rop_get_string e 128 user w;
       Some (case tmp_token of
               None \<Rightarrow> - 1
             | Some t \<Rightarrow> if token \<noteq> t then - 1 else 0, w)
     }
   }"

subsection \<open>Requests\<close>

text \<open>One request as FastCGI hands it over: the two variables of the environment that the programs read,
  and the bytes of standard input.\<close>

record fcgi_request =
  content_length :: "string option"
  query_string :: "string option"
  body :: string

definition NO_DATA :: string where
  "NO_DATA = ''No data from standard input.<p>'' @ [CHR 0x0A]"

definition CONTENT_TYPE :: string where
  "CONTENT_TYPE = ''Content-type: text/html'' @ [CHR 0x0D, CHR 0x0A, CHR 0x0D, CHR 0x0A]"

definition request_length :: "fcgi_request \<Rightarrow> int" where
  "request_length rq = (case content_length rq of None \<Rightarrow> 0 | Some s \<Rightarrow> atoi s)"

text \<open>\<open>fread(buf, 1, len, stdin)\<close> into the zeroed array \<open>buf\<close> of 4096 bytes, for a positive \<open>len\<close>. Filling
  the array to its last byte leaves no terminator, so that the next read of the text runs past it.\<close>

definition read_body :: "fcgi_request \<Rightarrow> string option" where
  "read_body rq =
    (let bytes = take (nat (request_length rq)) (body rq) in
     if length bytes < 4096 then Some bytes else None)"

text \<open>The frame of the \<open>main\<close> loops: the header, the length test, \<open>fread\<close> and the log entry of the whole
  request, then the program's own handling of the text.\<close>

definition with_body ::
    "fcgi_request \<Rightarrow> 's \<Rightarrow> (string \<Rightarrow> 'x world \<Rightarrow> ('s \<times> 'x world) option) \<Rightarrow> 'x world \<Rightarrow> ('s \<times> 'x world) option" where
  "with_body rq s handle w =
    (if request_length rq \<le> 0 then Some (s, put NO_DATA w)
     else do {
       bytes \<leftarrow> read_body rq;
       if bytes = [] then Some (s, w)
       else do {
         _ \<leftarrow> LOG (''buf = '' @ cstr bytes @ [CHR 0x0A]);
         handle (cstr bytes) w
       }
     })"

text \<open>The loop over the requests, with the variables of \<open>main\<close> that survive an iteration.\<close>

fun fcgi_loop ::
    "(fcgi_request \<Rightarrow> 's \<Rightarrow> 'x world \<Rightarrow> ('s \<times> 'x world) option) \<Rightarrow> fcgi_request list \<Rightarrow> 's \<Rightarrow> 'x world \<Rightarrow>
      ('s \<times> 'x world) option" where
  "fcgi_loop serve [] s w = Some (s, w)"
| "fcgi_loop serve (rq # rqs) s w = do { (s, w) \<leftarrow> serve rq s w; fcgi_loop serve rqs s w }"

subsection \<open>Fields of a JSON request\<close>

text \<open>The common shape of the functions that take a request apart: each field in turn is looked up and
  copied with \<open>strcpy\<close> into its array (\<open>None\<close>: not a string, or too long for it); the first field that is
  missing ends the function with \<open>-1\<close> and leaves the remaining arrays as they were.\<close>

fun copy_fields :: "cJSON \<Rightarrow> (string \<times> nat) list \<Rightarrow> (int \<times> string list) option" where
  "copy_fields json [] = Some (0, [])"
| "copy_fields json ((name, cap) # flds) =
    (case cJSON_GetObjectItem json name of
       None \<Rightarrow> Some (- 1, [])
     | Some child \<Rightarrow> do {
         s \<leftarrow> valuestring child;
         t \<leftarrow> store cap s;
         (ret, ts) \<leftarrow> copy_fields json flds;
         Some (ret, t # ts)
       })"

definition json_fields :: "string \<Rightarrow> (string \<times> nat) list \<Rightarrow> (int \<times> string list) option" where
  "json_fields buf flds = do {
     parsed \<leftarrow> cJSON_Parse buf;
     (case parsed of None \<Rightarrow> Some (- 1, []) | Some json \<Rightarrow> copy_fields json flds)
   }"

text \<open>The arrays after the call: the copied texts over the previous contents.\<close>

fun overlay :: "string list \<Rightarrow> string list \<Rightarrow> string list" where
  "overlay (t # ts) (_ # olds) = t # overlay ts olds"
| "overlay _ olds = olds"

text \<open>Integer flds, which keep their previous contents when the function fails before them.\<close>

fun copy_ints :: "cJSON \<Rightarrow> string list \<Rightarrow> int \<times> int list" where
  "copy_ints json [] = (0, [])"
| "copy_ints json (name # names) =
    (case cJSON_GetObjectItem json name of
       None \<Rightarrow> (- 1, [])
     | Some child \<Rightarrow> (case copy_ints json names of (ret, is) \<Rightarrow> (ret, valueint child # is)))"

end
