(* ===== verification/File_Cgi.thy ===== *)
theory File_Cgi
  imports Util_Cgi
begin

text \<open>
  The programs that change a user's files: \<^verbatim>\<open>cgi/md5_cgi.c\<close> (a file whose digest is known is added
  without an upload), \<^verbatim>\<open>cgi/dealfile_cgi.c\<close> (share, delete, count a download) and
  \<^verbatim>\<open>cgi/dealsharefile_cgi.c\<close> (count a download of a shared file, cancel a share, save a shared file).
  Each handler is split into the segments between its jumps to \<open>END\<close>; \<open>tmp\<close> is the array into which all
  queries of a handler write their first column, and it keeps its old contents where they do not.
\<close>

definition FILE_PUBLIC_ZSET :: string where "FILE_PUBLIC_ZSET = ''FILE_PUBLIC_ZSET''"
definition FILE_NAME_HASH :: string where "FILE_NAME_HASH = ''FILE_NAME_HASH''"
definition SHARE_COUNT_USER :: string where
  "SHARE_COUNT_USER = ''xxx_share_xxx_file_xxx_list_xxx_count_xxx''"

subsection \<open>Segments shared by the handlers\<close>

definition connect_mysql :: "'x env \<Rightarrow> config \<Rightarrow> 'x world \<Rightarrow> (bool \<times> 'x world) option" where
  "connect_mysql e c w = do {
     (conn, w) \<leftarrow> msql_conn e (mysql_user c) (mysql_pwd c) (mysql_db c) w;
     if \<not> conn then Some (False, w)
     else do { (_, w) \<leftarrow> mysql_query e ''set names utf8'' w; Some (True, w) }
   }"

definition run_sql :: "'x env \<Rightarrow> string \<Rightarrow> farg list \<Rightarrow> 'x world \<Rightarrow> (bool \<times> 'x world) option" where
  "run_sql e format args w = do {
     sql_cmd \<leftarrow> sql_text format args;
     (r, w) \<leftarrow> mysql_query e sql_cmd w;
     Some (r \<noteq> SqlError, w)
   }"

definition query_one ::
    "'x env \<Rightarrow> string \<Rightarrow> farg list \<Rightarrow> string option \<Rightarrow> 'x world \<Rightarrow> (int \<times> string \<times> 'x world) option" where
  "query_one e format args buf w = do {
     sql_cmd \<leftarrow> sql_text format args;
     process_result_one e 512 sql_cmd buf w
   }"

text \<open>One more file for \<open>user\<close>: insert the counter or increment it. When the query fails its text stays in
  \<open>sql_cmd\<close> and is run again.\<close>

definition count_user_file ::
    "'x env \<Rightarrow> string \<Rightarrow> string \<Rightarrow> string \<Rightarrow> 'x world \<Rightarrow> (int \<times> 'x world) option" where
  "count_user_file e insert_format user tmp w = do {
     (ret2, tmp, w) \<leftarrow> query_one e ''select count from user_file_count where user = `%s`'' [Str user] (Some tmp) w;
     (done, w) \<leftarrow>
       (if ret2 = 1 then run_sql e insert_format [Str user, Num 1] w
        else if ret2 = 0 then
          run_sql e ''update user_file_count set count = %d where user = `%s`''
            [Num (wrap32 (atoi tmp + 1)), Str user] w
        else run_sql e ''select count from user_file_count where user = `%s`'' [Str user] w);
     Some (if done then 0 else - 1, w)
   }"

definition INSERT_USER_FILE :: string where
  "INSERT_USER_FILE = ''insert into user_file_list(user, md5, createtime, filename, shared_status, pv) values (`%s`, `%s`, `%s`, `%s`, %d, %d)''"

definition INSERT_USER_COUNT :: string where
  "INSERT_USER_COUNT = '' insert into user_file_count (user, count) values(`%s`, %d)''"

text \<open>A further owner of a stored file: the reference counter, the owner's list, the owner's file count.\<close>

definition add_reference ::
    "'x env \<Rightarrow> string \<Rightarrow> string \<Rightarrow> string \<Rightarrow> string \<Rightarrow> 'x world \<Rightarrow> (int \<times> 'x world) option" where
  "add_reference e user md5 filename tmp w = do {
     (done, w) \<leftarrow> run_sql e ''update file_info set count = %d where md5 = `%s`'' [Num (wrap32 (atoi tmp + 1)), Str md5] w;
     if \<not> done then Some (- 1, w)
     else do {
       (done, w) \<leftarrow> run_sql e INSERT_USER_FILE
         [Str user, Str md5, Str (strftime_now e w), Str filename, Num 0, Num 0] w;
       if \<not> done then Some (- 1, w) else count_user_file e INSERT_USER_COUNT user tmp w
     }
   }"

subsection \<open>Instant upload\<close>

definition get_md5_info :: "string \<Rightarrow> (int \<times> string list) option" where
  "get_md5_info buf = json_fields buf [(''user'', 128), (''md5'', 256), (''fileName'', 128), (''token'', 256)]"

definition deal_md5_body ::
    "'x env \<Rightarrow> config \<Rightarrow> string \<Rightarrow> string \<Rightarrow> string \<Rightarrow> 'x world \<Rightarrow> (int \<times> 'x world) option" where
  "deal_md5_body e c user md5 filename w = do {
     (conn, w) \<leftarrow> connect_mysql e c w;
     if \<not> conn then Some (- 1, w)
     else do {
       (ret2, tmp, w) \<leftarrow> query_one e ''select count from file_info where md5 = `%s`'' [Str md5] (Some []) w;
       if ret2 = 0 then do {
         (ret2, _, w) \<leftarrow> query_one e ''select * from user_file_list where user = `%s` and md5 = `%s` and filename = `%s`''
           [Str user, Str md5, Str filename] None w;
         if ret2 = 2 then Some (- 2, w) else add_reference e user md5 filename tmp w
       }
       else if ret2 = 1 then Some (- 3, w)
       else Some (0, w)
     }
   }"

definition deal_md5 ::
    "'x env \<Rightarrow> config \<Rightarrow> string \<Rightarrow> string \<Rightarrow> string \<Rightarrow> 'x world \<Rightarrow> (int \<times> 'x world) option" where
  "deal_md5 e c user md5 filename w = do {
     (ret, w) \<leftarrow> deal_md5_body e c user md5 filename w;
     w \<leftarrow> answer_status (if ret = 0 then ''006'' else if ret = - 2 then ''005'' else ''007'') w;
     Some (ret, w)
   }"

definition md5_serve ::
    "'x env \<Rightarrow> config \<Rightarrow> fcgi_request \<Rightarrow> unit \<Rightarrow> 'x world \<Rightarrow> (unit \<times> 'x world) option" where
  "md5_serve e c rq u w =
     with_body rq u (\<lambda>buf w. do {
       (ret, flds) \<leftarrow> get_md5_info buf;
       if ret \<noteq> 0 then Some (u, w)
       else do {
         (ret, w) \<leftarrow> verify_token e (flds ! 0) (flds ! 3) w;
         if ret = 0 then do {
           (_, w) \<leftarrow> deal_md5 e c (flds ! 0) (flds ! 1) (flds ! 2) w;
           Some (u, w)
         }
         else do { w \<leftarrow> answer_status ''111'' w; Some (u, w) }
       }
     }) (put CONTENT_TYPE w)"

definition md5_main :: "'x env \<Rightarrow> fcgi_request list \<Rightarrow> 'x world \<Rightarrow> (unit \<times> 'x world) option" where
  "md5_main e rqs w = do { c \<leftarrow> read_config_mysql e; fcgi_loop (md5_serve e c) rqs () w }"

subsection \<open>Sharing\<close>

definition share_file_body ::
    "'x env \<Rightarrow> config \<Rightarrow> string \<Rightarrow> string \<Rightarrow> string \<Rightarrow> 'x world \<Rightarrow> (int \<times> 'x world) option" where
  "share_file_body e c user md5 filename w = do {
     (conn, w) \<leftarrow> rop_connectdb_nopwd e (redis_ip c) (redis_port c) w;
     if \<not> conn then Some (- 1, w)
     else do {
       (conn, w) \<leftarrow> connect_mysql e c w;
       if \<not> conn then Some (- 1, w)
       else do {
         fileid \<leftarrow> store 1024 (md5 @ filename);
         (ret2, w) \<leftarrow> rop_zset_exit e FILE_PUBLIC_ZSET fileid w;
         if ret2 = 1 then Some (- 2, w)
         else if ret2 = 0 then do {
           (ret2, _, w) \<leftarrow> query_one e ''select * from share_file_list where md5 = `%s` and filename = `%s`''
             [Str md5, Str filename] None w;
           if ret2 = 2 then do { (_, w) \<leftarrow> rop_zset_add e FILE_PUBLIC_ZSET 0 fileid w; Some (- 2, w) }
           else do {
             (done, w) \<leftarrow> run_sql e ''update user_file_list set shared_status = 1 where user = `%s` and md5 = `%s` and filename = `%s`''
               [Str user, Str md5, Str filename] w;
             if \<not> done then Some (- 1, w)
             else do {
               (done, w) \<leftarrow> run_sql e ''insert into share_file_list (user, md5, createtime, filename, pv) values (`%s`, `%s`, `%s`, `%s`, %d)''
                 [Str user, Str md5, Str (strftime_now e w), Str filename, Num 0] w;
               if \<not> done then Some (- 1, w)
               else do {
                 (ret, w) \<leftarrow> count_user_file e ''insert into user_file_count (user, count) values(`%s`, %d)'' SHARE_COUNT_USER [] w;
                 if ret \<noteq> 0 then Some (- 1, w)
                 else do {
                   (_, w) \<leftarrow> rop_zset_add e FILE_PUBLIC_ZSET 0 fileid w;
                   (_, w) \<leftarrow> rop_hash_set e FILE_NAME_HASH fileid filename w;
                   Some (0, w)
                 }
               }
             }
           }
         }
         else Some (- 1, w)
       }
     }
   }"

definition share_file ::
    "'x env \<Rightarrow> config \<Rightarrow> string \<Rightarrow> string \<Rightarrow> string \<Rightarrow> 'x world \<Rightarrow> (int \<times> 'x world) option" where
  "share_file e c user md5 filename w = do {
     (ret, w) \<leftarrow> share_file_body e c user md5 filename w;
     w \<leftarrow> (if ret = 0 then answer_status ''010'' w
          else if ret = - 1 then answer_status ''011'' w
          else if ret = - 2 then answer_status ''012'' w
          else Some w);
     Some (ret, w)
   }"

subsection \<open>Deletion\<close>

definition remove_file_from_storage :: "'x env \<Rightarrow> string \<Rightarrow> 'x world \<Rightarrow> (int \<times> 'x world) option" where
  "remove_file_from_storage e fileid w = do {
     path \<leftarrow> config_or_empty e 256 ''dfs_path'' ''client'';
     cmd \<leftarrow> store 2048 (sprintf ''fdfs_delete_file %s %s'' [Str path, Str fileid]);
     system e cmd w
   }"

text \<open>The share status of the file, whether Redis has it, and \<open>tmp\<close>; \<open>None\<close> inside when the query failed.\<close>

definition shared_state ::
    "'x env \<Rightarrow> string \<Rightarrow> string \<Rightarrow> string \<Rightarrow> string \<Rightarrow> 'x world \<Rightarrow> ((int \<times> bool \<times> string) option \<times> 'x world) option" where
  "shared_state e user md5 filename fileid w = do {
     (ret2, w) \<leftarrow> rop_zset_exit e FILE_PUBLIC_ZSET fileid w;
     if ret2 = 1 then Some (Some (1, True, []), w)
     else if ret2 = 0 then do {
       (ret2, tmp, w) \<leftarrow> query_one e ''select shared_status from user_file_list where user = `%s` and md5 = `%s` and filename = `%s`''
         [Str user, Str md5, Str filename] (Some []) w;
       Some (if ret2 = 0 then Some (atoi tmp, False, tmp)
             else if ret2 = - 1 then None
             else Some (0, False, tmp), w)
     }
     else Some (None, w)
   }"

definition del_share ::
    "'x env \<Rightarrow> string \<Rightarrow> string \<Rightarrow> string \<Rightarrow> string \<Rightarrow> bool \<Rightarrow> string \<Rightarrow> 'x world \<Rightarrow> (int \<times> string \<times> 'x world) option" where
  "del_share e user md5 filename fileid flag tmp w = do {
     (done, w) \<leftarrow> run_sql e ''delete from share_file_list where user = `%s` and md5 = `%s` and filename = `%s`''
       [Str user, Str md5, Str filename] w;
     if \<not> done then Some (- 1, tmp, w)
     else do {
       (ret2, tmp, w) \<leftarrow> query_one e ''select count from user_file_count where user = `%s`'' [Str SHARE_COUNT_USER] (Some tmp) w;
       if ret2 \<noteq> 0 then Some (- 1, tmp, w)
       else do {
         (done, w) \<leftarrow> run_sql e ''update user_file_count set count = %d where user = `%s`''
           [Num (wrap32 (atoi tmp - 1)), Str SHARE_COUNT_USER] w;
         if \<not> done then Some (- 1, tmp, w)
         else if flag then do {
           (_, w) \<leftarrow> rop_zset_zrem e FILE_PUBLIC_ZSET fileid w;
           (_, w) \<leftarrow> rop_hash_del e FILE_NAME_HASH fileid w;
           Some (0, tmp, w)
         }
         else Some (0, tmp, w)
       }
     }
   }"

definition del_user_file ::
    "'x env \<Rightarrow> string \<Rightarrow> string \<Rightarrow> string \<Rightarrow> string \<Rightarrow> 'x world \<Rightarrow> (int \<times> string \<times> 'x world) option" where
  "del_user_file e user md5 filename tmp w = do {
     (ret2, tmp, w) \<leftarrow> query_one e ''select count from user_file_count where user = `%s`'' [Str user] (Some tmp) w;
     if ret2 \<noteq> 0 then Some (- 1, tmp, w)
     else do {
       (done, w) \<leftarrow>
         (if atoi tmp = 1 then run_sql e ''delete from user_file_count where user = `%s`'' [Str user] w
          else run_sql e ''update user_file_count set count = %d where user = `%s`''
            [Num (wrap32 (atoi tmp - 1)), Str user] w);
       if \<not> done then Some (- 1, tmp, w)
       else do {
         (done, w) \<leftarrow> run_sql e ''delete from user_file_list where user = `%s` and md5 = `%s` and filename = `%s`''
           [Str user, Str md5, Str filename] w;
         Some (if done then 0 else - 1, tmp, w)
       }
     }
   }"

definition del_reference ::
    "'x env \<Rightarrow> string \<Rightarrow> string \<Rightarrow> 'x world \<Rightarrow> (int \<times> 'x world) option" where
  "del_reference e md5 tmp w = do {
     (ret2, tmp, w) \<leftarrow> query_one e ''select count from file_info where md5 = `%s`'' [Str md5] (Some tmp) w;
     if ret2 \<noteq> 0 then Some (- 1, w)
     else do {
       let refs = wrap32 (atoi tmp - 1);
       (done, w) \<leftarrow> run_sql e ''update file_info set count=%d where md5 = `%s`'' [Num refs, Str md5] w;
       if \<not> done then Some (- 1, w)
       else if refs = 0 then do {
         (ret2, tmp, w) \<leftarrow> query_one e ''select file_id from file_info where md5 = `%s`'' [Str md5] (Some tmp) w;
         if ret2 \<noteq> 0 then Some (- 1, w)
         else do {
           (done, w) \<leftarrow> run_sql e ''delete from file_info where md5 = `%s`'' [Str md5] w;
           if \<not> done then Some (- 1, w)
           else do {
             (ret2, w) \<leftarrow> remove_file_from_storage e tmp w;
             Some (if ret2 \<noteq> 0 then - 1 else 0, w)
           }
         }
       }
       else Some (0, w)
     }
   }"

definition del_file_body ::
    "'x env \<Rightarrow> config \<Rightarrow> string \<Rightarrow> string \<Rightarrow> string \<Rightarrow> 'x world \<Rightarrow> (int \<times> 'x world) option" where
  "del_file_body e c user md5 filename w = do {
     (conn, w) \<leftarrow> rop_connectdb_nopwd e (redis_ip c) (redis_port c) w;
     if \<not> conn then Some (- 1, w)
     else do {
       (conn, w) \<leftarrow> connect_mysql e c w;
       if \<not> conn then Some (- 1, w)
       else do {
         fileid \<leftarrow> store 1024 (md5 @ filename);
         (st, w) \<leftarrow> shared_state e user md5 filename fileid w;
         (case st of
            None \<Rightarrow> Some (- 1, w)
          | Some (share, flag, tmp) \<Rightarrow> do {
              (ret, tmp, w) \<leftarrow> (if share = 1 then del_share e user md5 filename fileid flag tmp w else Some (0, tmp, w));
              if ret \<noteq> 0 then Some (ret, w)
              else do {
                (ret, tmp, w) \<leftarrow> del_user_file e user md5 filename tmp w;
                if ret \<noteq> 0 then Some (ret, w) else del_reference e md5 tmp w
              }
            })
       }
     }
   }"

definition del_file ::
    "'x env \<Rightarrow> config \<Rightarrow> string \<Rightarrow> string \<Rightarrow> string \<Rightarrow> 'x world \<Rightarrow> (int \<times> 'x world) option" where
  "del_file e c user md5 filename w = do {
     (ret, w) \<leftarrow> del_file_body e c user md5 filename w;
     w \<leftarrow> answer_status (if ret = 0 then ''013'' else ''014'') w;
     Some (ret, w)
   }"

subsection \<open>Counting a download\<close>

definition pv_file_body ::
    "'x env \<Rightarrow> config \<Rightarrow> string \<Rightarrow> string \<Rightarrow> string \<Rightarrow> 'x world \<Rightarrow> (int \<times> 'x world) option" where
  "pv_file_body e c user md5 filename w = do {
     (conn, w) \<leftarrow> connect_mysql e c w;
     if \<not> conn then Some (- 1, w)
     else do {
       (ret2, tmp, w) \<leftarrow> query_one e ''select pv from user_file_list where user = `%s` and md5 = `%s` and filename = `%s`''
         [Str user, Str md5, Str filename] (Some []) w;
       if ret2 \<noteq> 0 then Some (- 1, w)
       else do {
         (done, w) \<leftarrow> run_sql e ''update user_file_list set pv = %d where user = `%s` and md5 = `%s` and filename = `%s`''
           [Num (wrap32 (atoi tmp + 1)), Str user, Str md5, Str filename] w;
         Some (if done then 0 else - 1, w)
       }
     }
   }"

definition pv_file ::
    "'x env \<Rightarrow> config \<Rightarrow> string \<Rightarrow> string \<Rightarrow> string \<Rightarrow> 'x world \<Rightarrow> (int \<times> 'x world) option" where
  "pv_file e c user md5 filename w = do {
     (ret, w) \<leftarrow> pv_file_body e c user md5 filename w;
     w \<leftarrow> answer_status (if ret = 0 then ''016'' else ''017'') w;
     Some (ret, w)
   }"

subsection \<open>The program for a user's own files\<close>

text \<open>The arrays of \<open>main\<close> outlive an iteration of its loop and start uninitialised.\<close>

record vars =
  v_cmd :: string
  v_user :: string
  v_token :: string
  v_md5 :: string
  v_filename :: string

definition parse_cmd :: "fcgi_request \<Rightarrow> string \<Rightarrow> string option" where
  "parse_cmd rq old = do {
     query \<leftarrow> query_string rq;
     (r, cmd) \<leftarrow> query_parse_key_value 20 query ''cmd'';
     Some (if r = 0 then cmd else old)
   }"

definition get_json_info :: "string \<Rightarrow> vars \<Rightarrow> (int \<times> vars) option" where
  "get_json_info buf v = do {
     (ret, flds) \<leftarrow> json_fields buf [(''user'', USER_NAME_LEN), (''md5'', MD5_LEN), (''filename'', FILE_NAME_LEN), (''token'', TOKEN_LEN)];
     let flds = overlay flds [v_user v, v_md5 v, v_filename v, v_token v];
     Some (ret, v\<lparr>v_user := flds ! 0, v_md5 := flds ! 1, v_filename := flds ! 2, v_token := flds ! 3\<rparr>)
   }"

definition dealfile_handle ::
    "'x env \<Rightarrow> config \<Rightarrow> vars \<Rightarrow> string \<Rightarrow> 'x world \<Rightarrow> (vars \<times> 'x world) option" where
  "dealfile_handle e c v buf w = do {
     (_, v) \<leftarrow> get_json_info buf v;
     (ret, w) \<leftarrow> verify_token e (v_user v) (v_token v) w;
     if ret \<noteq> 0 then do { w \<leftarrow> answer_status ''111'' w; Some (v, w) }
     else if v_cmd v = ''share'' then do { (_, w) \<leftarrow> share_file e c (v_user v) (v_md5 v) (v_filename v) w; Some (v, w) }
     else if v_cmd v = ''del'' then do { (_, w) \<leftarrow> del_file e c (v_user v) (v_md5 v) (v_filename v) w; Some (v, w) }
     else if v_cmd v = ''pv'' then do { (_, w) \<leftarrow> pv_file e c (v_user v) (v_md5 v) (v_filename v) w; Some (v, w) }
     else Some (v, w)
   }"

definition dealfile_serve ::
    "'x env \<Rightarrow> config \<Rightarrow> fcgi_request \<Rightarrow> vars \<Rightarrow> 'x world \<Rightarrow> (vars \<times> 'x world) option" where
  "dealfile_serve e c rq v w = do {
     cmd \<leftarrow> parse_cmd rq (v_cmd v);
     let v = v\<lparr>v_cmd := cmd\<rparr>;
     with_body rq v (dealfile_handle e c v) (put CONTENT_TYPE w)
   }"

definition dealfile_main ::
    "'x env \<Rightarrow> vars \<Rightarrow> fcgi_request list \<Rightarrow> 'x world \<Rightarrow> (vars \<times> 'x world) option" where
  "dealfile_main e v rqs w = do { c \<leftarrow> read_config e; fcgi_loop (dealfile_serve e c) rqs v w }"

end
