(* ===== verification/Share_Cgi.thy ===== *)
theory Share_Cgi
  imports File_Cgi
begin

text \<open>
  The program \<^verbatim>\<open>cgi/dealsharefile_cgi.c\<close> for shared files: count a download, cancel a share, save a
  shared file into one's own list. It has no token check. Functions that carry the name of a function of
  \<^verbatim>\<open>cgi/dealfile_cgi.c\<close> get the prefix \<open>share_\<close>.
\<close>

subsection \<open>Counting a download of a shared file\<close>

definition share_pv_file_body ::
    "'x env \<Rightarrow> config \<Rightarrow> string \<Rightarrow> string \<Rightarrow> 'x world \<Rightarrow> (int \<times> 'x world) option" where
  "share_pv_file_body e c md5 filename w = do {
     (conn, w) \<leftarrow> rop_connectdb_nopwd e (redis_ip c) (redis_port c) w;
     if \<not> conn then Some (- 1, w)
     else do {
       fileid \<leftarrow> store 1024 (md5 @ filename);
       (conn, w) \<leftarrow> connect_mysql e c w;
       if \<not> conn then Some (- 1, w)
       else do {
         (ret2, tmp, w) \<leftarrow> query_one e ''select pv from share_file_list where md5 = `%s` and filename = `%s`''
           [Str md5, Str filename] (Some []) w;
         if ret2 \<noteq> 0 then Some (- 1, w)
         else do {
           let pv = atoi tmp;
           (done, w) \<leftarrow> run_sql e ''update share_file_list set pv = %d where md5 = `%s` and filename = `%s`''
             [Num (wrap32 (pv + 1)), Str md5, Str filename] w;
           if \<not> done then Some (- 1, w)
           else do {
             (ret2, w) \<leftarrow> rop_zset_exit e FILE_PUBLIC_ZSET fileid w;
             if ret2 = 1 then rop_zset_increment e FILE_PUBLIC_ZSET fileid w
             else if ret2 = 0 then do {
               (_, w) \<leftarrow> rop_zset_add e FILE_PUBLIC_ZSET (wrap32 (pv + 1)) fileid w;
               (_, w) \<leftarrow> rop_hash_set e FILE_NAME_HASH fileid filename w;
               Some (0, w)
             }
             else Some (- 1, w)
           }
         }
       }
     }
   }"

definition share_pv_file ::
    "'x env \<Rightarrow> config \<Rightarrow> string \<Rightarrow> string \<Rightarrow> 'x world \<Rightarrow> (int \<times> 'x world) option" where
  "share_pv_file e c md5 filename w = do {
     (ret, w) \<leftarrow> share_pv_file_body e c md5 filename w;
     w \<leftarrow> answer_status (if ret = 0 then ''016'' else ''017'') w;
     Some (ret, w)
   }"

subsection \<open>Cancelling a share\<close>

definition cancel_share_file_body ::
    "'x env \<Rightarrow> config \<Rightarrow> string \<Rightarrow> string \<Rightarrow> string \<Rightarrow> 'x world \<Rightarrow> (int \<times> 'x world) option" where
  "cancel_share_file_body e c user md5 filename w = do {
     (conn, w) \<leftarrow> rop_connectdb_nopwd e (redis_ip c) (redis_port c) w;
     if \<not> conn then Some (- 1, w)
     else do {
       (conn, w) \<leftarrow> connect_mysql e c w;
       if \<not> conn then Some (- 1, w)
       else do {
         fileid \<leftarrow> store 1024 (md5 @ filename);
         (done, w) \<leftarrow> run_sql e ''update user_file_list set shared_status = 0 where user = `%s` and md5 = `%s` and filename = `%s`''
           [Str user, Str md5, Str filename] w;
         if \<not> done then Some (- 1, w)
         else do {
           (ret2, tmp, w) \<leftarrow> query_one e ''select count from user_file_count where user = `%s`'' [Str SHARE_COUNT_USER] (Some []) w;
           if ret2 \<noteq> 0 then Some (- 1, w)
           else do {
             (done, w) \<leftarrow>
               (if atoi tmp = 1 then run_sql e ''delete from user_file_count where user = `%s`'' [Str SHARE_COUNT_USER] w
                else run_sql e ''update user_file_count set count = %d where user = `%s`''
                  [Num (wrap32 (atoi tmp - 1)), Str SHARE_COUNT_USER] w);
             if \<not> done then Some (- 1, w)
             else do {
               (done, w) \<leftarrow> run_sql e ''delete from share_file_list where user = `%s` and md5 = `%s` and filename = `%s`''
                 [Str user, Str md5, Str filename] w;
               if \<not> done then Some (- 1, w)
               else do {
                 (ret, w) \<leftarrow> rop_zset_zrem e FILE_PUBLIC_ZSET fileid w;
                 if ret \<noteq> 0 then Some (ret, w) else rop_hash_del e FILE_NAME_HASH fileid w
               }
             }
           }
         }
       }
     }
   }"

definition cancel_share_file ::
    "'x env \<Rightarrow> config \<Rightarrow> string \<Rightarrow> string \<Rightarrow> string \<Rightarrow> 'x world \<Rightarrow> (int \<times> 'x world) option" where
  "cancel_share_file e c user md5 filename w = do {
     (ret, w) \<leftarrow> cancel_share_file_body e c user md5 filename w;
     w \<leftarrow> answer_status (if ret = 0 then ''018'' else ''019'') w;
     Some (ret, w)
   }"

subsection \<open>Saving a shared file\<close>

definition save_file_body ::
    "'x env \<Rightarrow> config \<Rightarrow> string \<Rightarrow> string \<Rightarrow> string \<Rightarrow> 'x world \<Rightarrow> (int \<times> 'x world) option" where
  "save_file_body e c user md5 filename w = do {
     (conn, w) \<leftarrow> connect_mysql e c w;
     if \<not> conn then Some (- 1, w)
     else do {
       (ret2, _, w) \<leftarrow> query_one e ''select * from user_file_list where user = `%s` and md5 = `%s` and filename = `%s`''
         [Str user, Str md5, Str filename] None w;
       if ret2 = 2 then Some (- 2, w)
       else do {
         (ret2, tmp, w) \<leftarrow> query_one e ''select count from file_info where md5 = `%s`'' [Str md5] (Some []) w;
         if ret2 \<noteq> 0 then Some (- 1, w) else add_reference e user md5 filename tmp w
       }
     }
   }"

definition save_file ::
    "'x env \<Rightarrow> config \<Rightarrow> string \<Rightarrow> string \<Rightarrow> string \<Rightarrow> 'x world \<Rightarrow> (int \<times> 'x world) option" where
  "save_file e c user md5 filename w = do {
     (ret, w) \<leftarrow> save_file_body e c user md5 filename w;
     w \<leftarrow> (if ret = 0 then answer_status ''020'' w
          else if ret = - 1 then answer_status ''022'' w
          else if ret = - 2 then answer_status ''021'' w
          else Some w);
     Some (ret, w)
   }"

subsection \<open>The program\<close>

definition share_get_json_info :: "string \<Rightarrow> vars \<Rightarrow> (int \<times> vars) option" where
  "share_get_json_info buf v = do {
     (ret, flds) \<leftarrow> json_fields buf [(''user'', USER_NAME_LEN), (''md5'', MD5_LEN), (''filename'', FILE_NAME_LEN)];
     let flds = overlay flds [v_user v, v_md5 v, v_filename v];
     Some (ret, v\<lparr>v_user := flds ! 0, v_md5 := flds ! 1, v_filename := flds ! 2\<rparr>)
   }"

definition dealsharefile_handle ::
    "'x env \<Rightarrow> config \<Rightarrow> vars \<Rightarrow> string \<Rightarrow> 'x world \<Rightarrow> (vars \<times> 'x world) option" where
  "dealsharefile_handle e c v buf w = do {
     (_, v) \<leftarrow> share_get_json_info buf v;
     if v_cmd v = ''pv'' then do { (_, w) \<leftarrow> share_pv_file e c (v_md5 v) (v_filename v) w; Some (v, w) }
     else if v_cmd v = ''cancel'' then do { (_, w) \<leftarrow> cancel_share_file e c (v_user v) (v_md5 v) (v_filename v) w; Some (v, w) }
     else if v_cmd v = ''save'' then do { (_, w) \<leftarrow> save_file e c (v_user v) (v_md5 v) (v_filename v) w; Some (v, w) }
     else Some (v, w)
   }"

definition dealsharefile_serve ::
    "'x env \<Rightarrow> config \<Rightarrow> fcgi_request \<Rightarrow> vars \<Rightarrow> 'x world \<Rightarrow> (vars \<times> 'x world) option" where
  "dealsharefile_serve e c rq v w = do {
     cmd \<leftarrow> parse_cmd rq (v_cmd v);
     let v = v\<lparr>v_cmd := cmd\<rparr>;
     with_body rq v (dealsharefile_handle e c v) (put CONTENT_TYPE w)
   }"

definition dealsharefile_main ::
    "'x env \<Rightarrow> vars \<Rightarrow> fcgi_request list \<Rightarrow> 'x world \<Rightarrow> (vars \<times> 'x world) option" where
  "dealsharefile_main e v rqs w = do { c \<leftarrow> read_config e; fcgi_loop (dealsharefile_serve e c) rqs v w }"

end
