(* ===== verification/List_Cgi.thy ===== *)
theory List_Cgi
  imports Share_Cgi
begin

text \<open>
  The programs that list files: \<^verbatim>\<open>cgi/myfiles_cgi.c\<close> for the files of a user and
  \<^verbatim>\<open>cgi/sharefiles_cgi.c\<close> for the shared files, including the ranking by downloads that it keeps in
  Redis and rebuilds from MySQL when the two disagree about the number of files. Functions of
  \<^verbatim>\<open>myfiles_cgi.c\<close> whose name another program uses get the prefix \<open>my_\<close>.
\<close>

definition add_opt_string :: "string \<Rightarrow> string option \<Rightarrow> cJSON \<Rightarrow> cJSON" where
  "add_opt_string name v item = (case v of None \<Rightarrow> item | Some s \<Rightarrow> cJSON_AddStringToObject item name s)"

definition add_opt_number :: "string \<Rightarrow> (string \<Rightarrow> int) \<Rightarrow> string option \<Rightarrow> cJSON \<Rightarrow> cJSON" where
  "add_opt_number name conv v item =
    (case v of None \<Rightarrow> item | Some s \<Rightarrow> cJSON_AddNumberToObject item name (conv s))"

text \<open>A row that has fewer columns than the code reads is outside the array of columns.\<close>

definition column :: "string option list \<Rightarrow> nat \<Rightarrow> string option option" where
  "column row i = (if i < length row then Some (row ! i) else None)"

text \<open>Common to the listings: the result of a query as a JSON object with one entry per row.\<close>

definition files_object :: "cJSON list \<Rightarrow> cJSON" where
  "files_object items =
     cJSON_AddItemToObject cJSON_CreateObject ''files'' (set_children items cJSON_CreateArray)"

definition answer_listing :: "string option \<Rightarrow> 'x world \<Rightarrow> (int \<times> 'x world) option" where
  "answer_listing text w =
    (case text of
       None \<Rightarrow> do { w \<leftarrow> answer_status ''015'' w; Some (- 1, w) }
     | Some t \<Rightarrow> Some (0, put t w))"

definition list_query ::
    "'x env \<Rightarrow> string \<Rightarrow> (string option list \<Rightarrow> cJSON option) \<Rightarrow> 'x world \<Rightarrow> (string option \<times> 'x world) option" where
  "list_query e sql_cmd item w = do {
     (r, w) \<leftarrow> mysql_query e sql_cmd w;
     (case r of
        SqlRows rows \<Rightarrow>
          if rows = [] then Some (None, w)
          else do {
            items \<leftarrow> those (map item rows);
            text \<leftarrow> cJSON_Print (files_object items);
            _ \<leftarrow> LOG (text @ [CHR 0x0A]);
            Some (Some text, w)
          }
      | _ \<Rightarrow> Some (None, w))
   }"

subsection \<open>The files of a user\<close>

definition get_count_json_info :: "string \<Rightarrow> vars \<Rightarrow> (int \<times> vars) option" where
  "get_count_json_info buf v = do {
     (ret, flds) \<leftarrow> json_fields buf [(''user'', USER_NAME_LEN), (''token'', TOKEN_LEN)];
     let flds = overlay flds [v_user v, v_token v];
     Some (ret, v\<lparr>v_user := flds ! 0, v_token := flds ! 1\<rparr>)
   }"

definition my_return_login_status :: "int \<Rightarrow> int \<Rightarrow> 'x world \<Rightarrow> 'x world option" where
  "my_return_login_status num token_flag w =
    (case cJSON_Print (cJSON_AddStringToObject (cJSON_AddStringToObject cJSON_CreateObject ''num'' (show_int num))
        ''code'' (if token_flag = 0 then ''110'' else ''111'')) of
       None \<Rightarrow> Some w
     | Some text \<Rightarrow> printf_out text w)"

definition get_user_files_count :: "'x env \<Rightarrow> config \<Rightarrow> string \<Rightarrow> int \<Rightarrow> 'x world \<Rightarrow> 'x world option" where
  "get_user_files_count e c user ret w = do {
     (conn, w) \<leftarrow> connect_mysql e c w;
     (line, w) \<leftarrow>
       (if \<not> conn then Some (0, w)
        else do {
          (ret2, tmp, w) \<leftarrow> query_one e (''select count from user_file_count where user='' @ [CHR 0x22] @ ''%s'' @ [CHR 0x22])
            [Str user] (Some []) w;
          Some (if ret2 \<noteq> 0 then 0 else strtol tmp, w)
        });
     my_return_login_status line ret w
   }"

text \<open>\<open>start\<close> and \<open>num\<close> start uninitialised in every iteration; the list of integers holds what was read.\<close>

definition get_fileslist_json_info :: "string \<Rightarrow> vars \<Rightarrow> (int \<times> vars \<times> int list) option" where
  "get_fileslist_json_info buf v = do {
     parsed \<leftarrow> cJSON_Parse buf;
     (case parsed of
        None \<Rightarrow> Some (- 1, v, [])
      | Some json \<Rightarrow> do {
          (ret, flds) \<leftarrow> copy_fields json [(''user'', USER_NAME_LEN), (''token'', TOKEN_LEN)];
          let flds' = overlay flds [v_user v, v_token v];
          let v = v\<lparr>v_user := flds' ! 0, v_token := flds' ! 1\<rparr>;
          if ret \<noteq> 0 then Some (ret, v, [])
          else (case copy_ints json [''start'', ''count''] of (ret, is) \<Rightarrow> Some (ret, v, is))
        })
   }"

definition my_item :: "string option list \<Rightarrow> cJSON option" where
  "my_item row = do {
     c0 \<leftarrow> column row 0; c1 \<leftarrow> column row 1; c2 \<leftarrow> column row 2; c3 \<leftarrow> column row 3; c4 \<leftarrow> column row 4;
     c5 \<leftarrow> column row 5; c6 \<leftarrow> column row 6; c7 \<leftarrow> column row 7; c8 \<leftarrow> column row 8;
     Some (add_opt_string ''type'' c8 (add_opt_number ''size'' strtol c7 (add_opt_string ''url'' c6
       (add_opt_number ''pv'' strtol c5 (add_opt_number ''share_status'' atoi c4 (add_opt_string ''filename'' c3
       (add_opt_string ''time'' c2 (add_opt_string ''md5'' c1 (add_opt_string ''user'' c0 cJSON_CreateObject)))))))))
   }"

definition user_filelist_format :: "string \<Rightarrow> string option" where
  "user_filelist_format cmd =
    (if cmd = ''normal'' then
       Some ''select user_file_list.*, file_info.url, file_info.size, file_info.type from file_info, user_file_list where user = `%s` and file_info.md5 = user_file_list.md5 limit %d, %d''
     else if cmd = ''pvasc'' then
       Some ''select user_file_list.*, file_info.url, file_info.size, file_info.type from file_info, user_file_list where user = `%s` and file_info.md5 = user_file_list.md5  order by pv asc limit %d, %d''
     else if cmd = ''pvdesc'' then
       Some ''select user_file_list.*, file_info.url, file_info.size, file_info.type from file_info, user_file_list where user = `%s` and file_info.md5 = user_file_list.md5 order by pv desc limit %d, %d''
     else None)"

definition get_user_filelist ::
    "'x env \<Rightarrow> config \<Rightarrow> string \<Rightarrow> string \<Rightarrow> int \<Rightarrow> int \<Rightarrow> 'x world \<Rightarrow> (int \<times> 'x world) option" where
  "get_user_filelist e c cmd user start num w = do {
     (conn, w) \<leftarrow> connect_mysql e c w;
     if \<not> conn then answer_listing None w
     else do {
       sql_cmd \<leftarrow> (case user_filelist_format cmd of
           None \<Rightarrow> Some []
         | Some f \<Rightarrow> sql_text f [Str user, Num start, Num num]);
       (text, w) \<leftarrow> list_query e sql_cmd my_item w;
       answer_listing text w
     }
   }"

text \<open>\<open>junk\<close> is what the uninitialised \<open>start\<close> and \<open>count\<close> hold.\<close>

definition myfiles_handle ::
    "'x env \<Rightarrow> config \<Rightarrow> int \<times> int \<Rightarrow> vars \<Rightarrow> string \<Rightarrow> 'x world \<Rightarrow> (vars \<times> 'x world) option" where
  "myfiles_handle e c junk v buf w =
    (if v_cmd v = ''count'' then do {
       (_, v) \<leftarrow> get_count_json_info buf v;
       (ret, w) \<leftarrow> verify_token e (v_user v) (v_token v) w;
       w \<leftarrow> get_user_files_count e c (v_user v) ret w;
       Some (v, w)
     }
     else do {
       (_, v, is) \<leftarrow> get_fileslist_json_info buf v;
       (ret, w) \<leftarrow> verify_token e (v_user v) (v_token v) w;
       if ret = 0 then do {
         (_, w) \<leftarrow> get_user_filelist e c (v_cmd v) (v_user v)
           (case is of i # _ \<Rightarrow> i | [] \<Rightarrow> fst junk) (case is of _ # i # _ \<Rightarrow> i | _ \<Rightarrow> snd junk) w;
         Some (v, w)
       }
       else do { w \<leftarrow> answer_status ''111'' w; Some (v, w) }
     })"

definition myfiles_serve ::
    "'x env \<Rightarrow> config \<Rightarrow> int \<times> int \<Rightarrow> fcgi_request \<Rightarrow> vars \<Rightarrow> 'x world \<Rightarrow> (vars \<times> 'x world) option" where
  "myfiles_serve e c junk rq v w = do {
     cmd \<leftarrow> parse_cmd rq (v_cmd v);
     let v = v\<lparr>v_cmd := cmd\<rparr>;
     with_body rq v (myfiles_handle e c junk v) (put CONTENT_TYPE w)
   }"

definition myfiles_main ::
    "'x env \<Rightarrow> int \<times> int \<Rightarrow> vars \<Rightarrow> fcgi_request list \<Rightarrow> 'x world \<Rightarrow> (vars \<times> 'x world) option" where
  "myfiles_main e junk v rqs w = do { c \<leftarrow> read_config_mysql e; fcgi_loop (myfiles_serve e c junk) rqs v w }"

subsection \<open>The shared files\<close>

definition COUNT_SHARED :: string where
  "COUNT_SHARED = ''select count from user_file_count where user='' @ [CHR 0x22] @ ''%s'' @ [CHR 0x22]"

definition get_share_files_count :: "'x env \<Rightarrow> config \<Rightarrow> 'x world \<Rightarrow> 'x world option" where
  "get_share_files_count e c w = do {
     (conn, w) \<leftarrow> connect_mysql e c w;
     (line, w) \<leftarrow>
       (if \<not> conn then Some (0, w)
        else do {
          (ret2, tmp, w) \<leftarrow> query_one e COUNT_SHARED [Str SHARE_COUNT_USER] (Some []) w;
          Some (if ret2 \<noteq> 0 then 0 else strtol tmp, w)
        });
     Some (put (show_int line) w)
   }"

definition share_get_fileslist_json_info :: "string \<Rightarrow> (int \<times> int list) option" where
  "share_get_fileslist_json_info buf = do {
     parsed \<leftarrow> cJSON_Parse buf;
     Some (case parsed of None \<Rightarrow> (- 1, []) | Some json \<Rightarrow> copy_ints json [''start'', ''count''])
   }"

definition share_item :: "string option list \<Rightarrow> cJSON option" where
  "share_item row = do {
     c0 \<leftarrow> column row 0; c1 \<leftarrow> column row 1; c2 \<leftarrow> column row 2; c3 \<leftarrow> column row 3; c4 \<leftarrow> column row 4;
     c5 \<leftarrow> column row 5; c6 \<leftarrow> column row 6; c7 \<leftarrow> column row 7;
     Some (add_opt_string ''type'' c7 (add_opt_number ''size'' strtol c6 (add_opt_string ''url'' c5
       (add_opt_number ''pv'' strtol c4 (cJSON_AddNumberToObject (add_opt_string ''filename'' c3
       (add_opt_string ''time'' c2 (add_opt_string ''md5'' c1 (add_opt_string ''user'' c0 cJSON_CreateObject))))
       ''share_status'' 1)))))
   }"

definition get_share_filelist ::
    "'x env \<Rightarrow> config \<Rightarrow> int \<Rightarrow> int \<Rightarrow> 'x world \<Rightarrow> (int \<times> 'x world) option" where
  "get_share_filelist e c start num w = do {
     (conn, w) \<leftarrow> connect_mysql e c w;
     if \<not> conn then answer_listing None w
     else do {
       sql_cmd \<leftarrow> sql_text ''select share_file_list.*, file_info.url, file_info.size, file_info.type from file_info, share_file_list where file_info.md5 = share_file_list.md5 limit %d, %d''
         [Num start, Num num];
       (text, w) \<leftarrow> list_query e sql_cmd share_item w;
       answer_listing text w
     }
   }"

subsection \<open>The ranking\<close>

text \<open>Importing the shared files of MySQL into Redis, row by row; a row with a null column ends it with \<open>-1\<close>.\<close>

fun import_rows :: "'x env \<Rightarrow> string option list list \<Rightarrow> 'x world \<Rightarrow> (int \<times> 'x world) option" where
  "import_rows e [] w = Some (0, w)"
| "import_rows e (row # rows) w =
    (case row of
       Some md5 # Some filename # Some pv # _ \<Rightarrow> do {
         fileid \<leftarrow> store 1024 (md5 @ filename);
         (_, w) \<leftarrow> rop_zset_add e FILE_PUBLIC_ZSET (atoi pv) fileid w;
         (_, w) \<leftarrow> rop_hash_set e FILE_NAME_HASH fileid filename w;
         import_rows e rows w
       }
     | _ # _ # _ # _ \<Rightarrow> Some (- 1, w)
     | _ \<Rightarrow> None)"

definition sync_redis :: "'x env \<Rightarrow> 'x world \<Rightarrow> (int \<times> 'x world) option" where
  "sync_redis e w = do {
     (_, w) \<leftarrow> rop_del_key e FILE_PUBLIC_ZSET w;
     (_, w) \<leftarrow> rop_del_key e FILE_NAME_HASH w;
     (r, w) \<leftarrow> mysql_query e ''select md5, filename, pv from share_file_list order by pv desc'' w;
     (case r of
        SqlRows rows \<Rightarrow> if rows = [] then Some (- 1, w) else import_rows e rows w
      | _ \<Rightarrow> Some (- 1, w))
   }"

definition ranking_item :: "string \<Rightarrow> int \<Rightarrow> cJSON" where
  "ranking_item filename score =
     cJSON_AddNumberToObject (cJSON_AddStringToObject cJSON_CreateObject ''filename'' filename) ''pv'' score"

fun ranking_items :: "'x env \<Rightarrow> string list \<Rightarrow> 'x world \<Rightarrow> (cJSON list option \<times> 'x world) option" where
  "ranking_items e [] w = Some (Some [], w)"
| "ranking_items e (v # vs) w = do {
     (filename, w) \<leftarrow> rop_hash_get e 1024 FILE_NAME_HASH v w;
     (case filename of
        None \<Rightarrow> Some (None, w)
      | Some filename \<Rightarrow> do {
          (score, w) \<leftarrow> rop_zset_get_score e FILE_PUBLIC_ZSET v w;
          if score = - 1 then Some (None, w)
          else do {
            (items, w) \<leftarrow> ranking_items e vs w;
            Some (map_option (Cons (ranking_item filename score)) items, w)
          }
        })
   }"

definition ranking_text ::
    "'x env \<Rightarrow> int \<Rightarrow> int \<Rightarrow> 'x world \<Rightarrow> (string option \<times> 'x world) option" where
  "ranking_text e start num w =
    (if num < 0 then Some (None, w)
     else do {
       (vals, w) \<leftarrow> rop_zset_zrevrange e (nat num) FILE_PUBLIC_ZSET start (wrap32 (start + num - 1)) w;
       (case vals of
          None \<Rightarrow> Some (None, w)
        | Some vs \<Rightarrow> do {
            (items, w) \<leftarrow> ranking_items e vs w;
            (case items of
               None \<Rightarrow> Some (None, w)
             | Some items \<Rightarrow> do {
                 text \<leftarrow> cJSON_Print (files_object items);
                 _ \<leftarrow> LOG (text @ [CHR 0x0A]);
                 Some (Some text, w)
               })
          })
     })"

definition get_ranking_filelist ::
    "'x env \<Rightarrow> config \<Rightarrow> int \<Rightarrow> int \<Rightarrow> 'x world \<Rightarrow> (int \<times> 'x world) option" where
  "get_ranking_filelist e c start num w = do {
     (conn, w) \<leftarrow> rop_connectdb_nopwd e (redis_ip c) (redis_port c) w;
     if \<not> conn then answer_listing None w
     else do {
       (conn, w) \<leftarrow> connect_mysql e c w;
       if \<not> conn then answer_listing None w
       else do {
         (ret2, tmp, w) \<leftarrow> query_one e COUNT_SHARED [Str SHARE_COUNT_USER] (Some []) w;
         if ret2 \<noteq> 0 then answer_listing None w
         else do {
           (redis_num, w) \<leftarrow> rop_zset_zcard e FILE_PUBLIC_ZSET w;
           if redis_num = - 1 then answer_listing None w
           else do {
             (ret, w) \<leftarrow> (if redis_num \<noteq> atoi tmp then sync_redis e w else Some (0, w));
             if ret \<noteq> 0 then answer_listing None w
             else do { (text, w) \<leftarrow> ranking_text e start num w; answer_listing text w }
           }
         }
       }
     }
   }"

subsection \<open>The program for shared files\<close>

definition sharefiles_handle ::
    "'x env \<Rightarrow> config \<Rightarrow> int \<times> int \<Rightarrow> string \<Rightarrow> string \<Rightarrow> 'x world \<Rightarrow> (string \<times> 'x world) option" where
  "sharefiles_handle e c junk cmd buf w = do {
     (_, is) \<leftarrow> share_get_fileslist_json_info buf;
     let start = (case is of i # _ \<Rightarrow> i | [] \<Rightarrow> fst junk);
     let num = (case is of _ # i # _ \<Rightarrow> i | _ \<Rightarrow> snd junk);
     if cmd = ''normal'' then do { (_, w) \<leftarrow> get_share_filelist e c start num w; Some (cmd, w) }
     else if cmd = ''pvdesc'' then do { (_, w) \<leftarrow> get_ranking_filelist e c start num w; Some (cmd, w) }
     else Some (cmd, w)
   }"

definition sharefiles_serve ::
    "'x env \<Rightarrow> config \<Rightarrow> int \<times> int \<Rightarrow> fcgi_request \<Rightarrow> string \<Rightarrow> 'x world \<Rightarrow> (string \<times> 'x world) option" where
  "sharefiles_serve e c junk rq old w = do {
     cmd \<leftarrow> parse_cmd rq old;
     let w = put CONTENT_TYPE w;
     if cmd = ''count'' then do { w \<leftarrow> get_share_files_count e c w; Some (cmd, w) }
     else with_body rq cmd (sharefiles_handle e c junk cmd) w
   }"

definition sharefiles_main ::
    "'x env \<Rightarrow> int \<times> int \<Rightarrow> string \<Rightarrow> fcgi_request list \<Rightarrow> 'x world \<Rightarrow> (string \<times> 'x world) option" where
  "sharefiles_main e junk cmd rqs w = do { c \<leftarrow> read_config e; fcgi_loop (sharefiles_serve e c junk) rqs cmd w }"

end
