(* ===== verification/Upload_Cgi.thy ===== *)
theory Upload_Cgi
  imports List_Cgi
begin

text \<open>
  The upload program \<^verbatim>\<open>cgi/upload_cgi.c\<close>: it takes the multipart body of a request apart, writes the
  file to the working directory, hands it to the storage system through the command \<open>fdfs_upload_file\<close>,
  asks for its address with \<open>fdfs_file_info\<close> and records it in MySQL. The body is a block of bytes
  without a terminator. A search that reaches the end of the block, and a null result whose value is
  used, give \<open>None\<close>, as does a body that is shorter than its announced length, since the
  rest of the block is uninitialised.
\<close>

subsection \<open>Searching in a block of bytes\<close>

text \<open>\<open>strstr\<close> and \<open>strchr\<close> on a block: \<open>Some (Some r)\<close> is the rest of the block from the match on,
  \<open>Some None\<close> the null pointer (a zero byte comes first), \<open>None\<close> a search past the end.\<close>

definition strstr_block :: "string \<Rightarrow> string \<Rightarrow> string option option" where
  "strstr_block s sub =
    (case strstr (cstr s) sub of
       Some r \<Rightarrow> Some (Some (drop (length (cstr s) - length r) s))
     | None \<Rightarrow> if is_cstr s then None else Some None)"

text \<open>A match that the code uses without testing it.\<close>

definition found :: "string \<Rightarrow> string \<Rightarrow> string option" where
  "found s sub = (case strstr_block s sub of Some (Some r) \<Rightarrow> Some r | _ \<Rightarrow> None)"

text \<open>A field \<open>name="value"\<close>: its trimmed value and the block from the closing quote on.\<close>

definition take_field :: "nat \<Rightarrow> string \<Rightarrow> string \<Rightarrow> (string \<times> string) option" where
  "take_field cap name begin_ptr = do {
     q \<leftarrow> found begin_ptr name;
     let q = drop (length name + 1) q;
     k \<leftarrow> found q [CHR 0x22];
     s \<leftarrow> store cap (take (length q - length k) q);
     t \<leftarrow> trim_space s;
     Some (t, k)
   }"

record upload =
  u_user :: string
  u_filename :: string
  u_md5 :: string
  u_size :: int

text \<open>The parsing part of \<open>recv_save_file\<close>: \<open>Some None\<close> is the return value \<open>-1\<close>, otherwise the header
  fields and the bytes of the file.\<close>

definition parse_upload :: "string \<Rightarrow> (upload \<times> string) option option" where
  "parse_upload file_buf = do {
     p \<leftarrow> strstr_block file_buf CRLF;
     (case p of
        None \<Rightarrow> Some None
      | Some p \<Rightarrow> do {
          boundary \<leftarrow> store TEMP_BUF_MAX_LEN (take (length file_buf - length p) file_buf);
          let begin_ptr = drop 2 p;
          p \<leftarrow> strstr_block begin_ptr CRLF;
          (case p of
             None \<Rightarrow> Some None
           | Some p \<Rightarrow> do {
               _ \<leftarrow> store TEMP_BUF_MAX_LEN (take (length begin_ptr - length p) begin_ptr);
               (user, k) \<leftarrow> take_field USER_NAME_LEN ''user='' begin_ptr;
               (filename, k) \<leftarrow> take_field FILE_NAME_LEN ''filename='' k;
               (md5, k) \<leftarrow> take_field MD5_LEN ''md5='' k;
               q \<leftarrow> found k ''size='';
               let q = drop 5 q;
               k \<leftarrow> found q CRLF;
               tmp \<leftarrow> store 256 (take (length q - length k) q);
               r \<leftarrow> found (drop 2 p) CRLF;
               let content = drop 4 r;
               (case memstr content boundary of
                  None \<Rightarrow> Some None
                | Some i \<Rightarrow>
                    if i < 2 then None
                    else Some (Some (\<lparr>u_user = user, u_filename = filename, u_md5 = md5, u_size = strtol tmp\<rparr>,
                      take (i - 2) content)))
             })
        })
   }"

definition recv_save_file ::
    "'x env \<Rightarrow> int \<Rightarrow> string \<Rightarrow> 'x world \<Rightarrow> (upload option \<times> 'x world) option" where
  "recv_save_file e len stdin w =
    (let file_buf = take (nat len) stdin in
     if file_buf = [] then Some (None, w)
     else if length file_buf < nat len then None
     else do {
       parsed \<leftarrow> parse_upload file_buf;
       (case parsed of
          None \<Rightarrow> Some (None, w)
        | Some (u, content) \<Rightarrow> do {
            (opened, w) \<leftarrow> external (Write_file (u_filename u)) (env_write_file e (u_filename u) content) w;
            Some (if opened then Some u else None, w)
          })
     })"

subsection \<open>The storage system\<close>

text \<open>What the parent reads from the pipe into a zeroed array of \<open>TEMP_BUF_MAX_LEN\<close> bytes; filling it
  completely leaves no terminator.\<close>

definition read_pipe :: "'x env \<Rightarrow> string list \<Rightarrow> 'x world \<Rightarrow> (string option \<times> 'x world) option" where
  "read_pipe e argv w = do {
     (text, w) \<leftarrow> external (Pipe argv) (env_pipe e argv) w;
     (case text of
        None \<Rightarrow> Some (None, w)
      | Some t \<Rightarrow> if length t < TEMP_BUF_MAX_LEN then Some (Some (cstr t), w) else None)
   }"

definition upload_to_dstorage :: "'x env \<Rightarrow> string \<Rightarrow> 'x world \<Rightarrow> (string option \<times> 'x world) option" where
  "upload_to_dstorage e filename w = do {
     path \<leftarrow> config_or_empty e 256 ''dfs_path'' ''client'';
     (text, w) \<leftarrow> read_pipe e [''fdfs_upload_file'', path, filename] w;
     (case text of
        None \<Rightarrow> Some (None, w)
      | Some t \<Rightarrow> do {
          fileid \<leftarrow> trim_space t;
          Some (if fileid = [] then None else Some fileid, w)
        })
   }"

definition make_file_url :: "'x env \<Rightarrow> string \<Rightarrow> 'x world \<Rightarrow> (string option \<times> 'x world) option" where
  "make_file_url e fileid w = do {
     path \<leftarrow> config_or_empty e 256 ''dfs_path'' ''client'';
     (text, w) \<leftarrow> read_pipe e [''fdfs_file_info'', path, fileid] w;
     (case text of
        None \<Rightarrow> Some (None, w)
      | Some stat_buf \<Rightarrow> do {
          p \<leftarrow> strstr stat_buf ''source ip address: '';
          let q = drop (length ''source ip address: '') p;
          k \<leftarrow> strstr q [CHR 0x0A];
          host_name \<leftarrow> store HOST_NAME_LEN (take (length q - length k) q);
          port \<leftarrow> config_or_empty e 20 ''storage_web_server'' ''port'';
          url \<leftarrow> store FILE_URL_LEN (''http://'' @ host_name @ '':'' @ port @ ''/'' @ fileid);
          Some (Some url, w)
        })
   }"

subsection \<open>Recording the file\<close>

definition store_fileinfo_to_mysql ::
    "'x env \<Rightarrow> config \<Rightarrow> upload \<Rightarrow> string \<Rightarrow> string \<Rightarrow> 'x world \<Rightarrow> (int \<times> 'x world) option" where
  "store_fileinfo_to_mysql e c u fileid url w = do {
     (conn, w) \<leftarrow> connect_mysql e c w;
     if \<not> conn then Some (- 1, w)
     else do {
       suffix \<leftarrow> get_file_suffix SUFFIX_LEN (u_filename u);
       (done, w) \<leftarrow> run_sql e ''insert into file_info (md5, file_id, url, size, type, count) values (`%s`, `%s`, `%s`, `%ld`, `%s`, %d)''
         [Str (u_md5 u), Str fileid, Str url, Num (u_size u), Str suffix, Num 1] w;
       if \<not> done then Some (- 1, w)
       else do {
         (done, w) \<leftarrow> run_sql e INSERT_USER_FILE
           [Str (u_user u), Str (u_md5 u), Str (strftime_now e w), Str (u_filename u), Num 0, Num 0] w;
         if \<not> done then Some (- 1, w) else count_user_file e INSERT_USER_COUNT (u_user u) [] w
       }
     }
   }"

subsection \<open>The program\<close>

definition upload_file :: "'x env \<Rightarrow> config \<Rightarrow> int \<Rightarrow> string \<Rightarrow> 'x world \<Rightarrow> (int \<times> 'x world) option" where
  "upload_file e c len stdin w = do {
     (u, w) \<leftarrow> recv_save_file e len stdin w;
     (case u of
        None \<Rightarrow> Some (- 1, w)
      | Some u \<Rightarrow> do {
          (fileid, w) \<leftarrow> upload_to_dstorage e (u_filename u) w;
          (case fileid of
             None \<Rightarrow> Some (- 1, w)
           | Some fileid \<Rightarrow> do {
               (_, w) \<leftarrow> external (Unlink (u_filename u)) (\<lambda>x. ((), env_unlink e (u_filename u) x)) w;
               (url, w) \<leftarrow> make_file_url e fileid w;
               (case url of
                  None \<Rightarrow> Some (- 1, w)
                | Some url \<Rightarrow> store_fileinfo_to_mysql e c u fileid url w)
             })
        })
   }"

definition upload_length :: "fcgi_request \<Rightarrow> int" where
  "upload_length rq = (case content_length rq of None \<Rightarrow> 0 | Some s \<Rightarrow> strtol s)"

definition upload_serve ::
    "'x env \<Rightarrow> config \<Rightarrow> fcgi_request \<Rightarrow> unit \<Rightarrow> 'x world \<Rightarrow> (unit \<times> 'x world) option" where
  "upload_serve e c rq un w =
    (let w = put CONTENT_TYPE w in
     if upload_length rq \<le> 0 then Some (un, put (''No data from standard input'' @ [CHR 0x0A]) w)
     else do {
       (ret, w) \<leftarrow> upload_file e c (upload_length rq) (body rq) w;
       w \<leftarrow> answer_status (if ret = 0 then ''008'' else ''009'') w;
       Some (un, w)
     })"

definition upload_main :: "'x env \<Rightarrow> fcgi_request list \<Rightarrow> 'x world \<Rightarrow> (unit \<times> 'x world) option" where
  "upload_main e rqs w = do { c \<leftarrow> read_config_mysql e; fcgi_loop (upload_serve e c) rqs () w }"

end
