(* ===== verification/Sql_Texts.thy ===== *)
theory Sql_Texts
  imports Sql_Spec Upload_Cgi
begin

text \<open>
  What the statements that the programs format mean: for texts that need no quoting, each format of the
  programs denotes the statement that its author had in mind. Without that condition it need not:
  \<open>sql_injection\<close>.
\<close>

subsection \<open>Lexing formatted text\<close>

lemma plain_quotes: "plain s \<Longrightarrow> CHR 0x27 \<notin> set s \<and> CHR 0x22 \<notin> set s \<and> CHR 0x5C \<notin> set s"
  by (auto simp: plain_def list_all_iff)

lemma lex_string_plain:
  "plain s \<Longrightarrow> q \<in> {CHR 0x27, CHR 0x22} \<Longrightarrow> lex_string q (s @ q # r) = Some (s, r)"
  using plain_quotes [of s] by (auto simp: lex_string_def Let_def takeWhile_append)

lemma word_char_int: "x \<in> set (show_int i) \<Longrightarrow> word_char x"
  using show_nat_digits by (auto simp: show_int_def word_char_def split: if_splits)

lemma lex_word:
  assumes "t \<noteq> []" "\<forall>x \<in> set t. word_char x" "\<not> word_char c"
  shows "lex (t @ c # r) = map_option (Cons (TWord t)) (lex (c # r))"
proof -
  obtain d ds where t: "t = d # ds" using assms(1) by (cases t) auto
  have "d \<noteq> CHR '' ''" "d \<noteq> CHR 0x27" "d \<noteq> CHR 0x22"
    using assms(2) t by (auto simp: word_char_def isdigit_def code_def)
  moreover have "takeWhile word_char (ds @ c # r) = ds" "dropWhile word_char (ds @ c # r) = c # r"
    using assms t by (simp_all add: takeWhile_append dropWhile_append)
  ultimately show ?thesis using assms t by (subst t, subst append_Cons, subst lex.simps(2)) simp
qed

lemma show_int_nonempty [simp]: "show_int i \<noteq> []"
  by (simp add: show_int_def)

lemma lex_int: "\<not> word_char c \<Longrightarrow> lex (show_int i @ c # r) = map_option (Cons (TWord (show_int i))) (lex (c # r))"
  by (rule lex_word) (auto simp: word_char_int)

lemmas sql_eval =
  sql_parse_def fmt_def unquote_def word_char_def code_def isdigit_def lex_string_plain lex_int parse_tokens_def
  parse_insert_def

subsection \<open>The statements\<close>


lemma sql_set_names [sql_texts]: "sql_parse ''set names utf8'' = Some SetNames"
  by (simp add: sql_eval)

lemma sql_count_of_file [sql_texts]:
  "plain md5 \<Longrightarrow> sql_parse (fmt ''select count from file_info where md5 = `%s`'' [Str md5]) =
     Some (Select ''count'' ''file_info'' [(''md5'', md5)])"
  by (simp add: sql_eval)

lemma sql_id_of_file [sql_texts]:
  "plain md5 \<Longrightarrow> sql_parse (fmt ''select file_id from file_info where md5 = `%s`'' [Str md5]) =
     Some (Select ''file_id'' ''file_info'' [(''md5'', md5)])"
  by (simp add: sql_eval)

lemma sql_owned [sql_texts]:
  "plain user \<Longrightarrow> plain md5 \<Longrightarrow> plain filename \<Longrightarrow>
     sql_parse (fmt ''select * from user_file_list where user = `%s` and md5 = `%s` and filename = `%s`''
       [Str user, Str md5, Str filename]) =
     Some (Select ''*'' ''user_file_list'' [(''user'', user), (''md5'', md5), (''filename'', filename)])"
  by (simp add: sql_eval)

lemma sql_set_count [sql_texts]:
  "plain md5 \<Longrightarrow> sql_parse (fmt ''update file_info set count = %d where md5 = `%s`'' [Num i, Str md5]) =
     Some (Update ''file_info'' ''count'' (show_int i) [(''md5'', md5)])"
  "plain md5 \<Longrightarrow> sql_parse (fmt ''update file_info set count=%d where md5 = `%s`'' [Num i, Str md5]) =
     Some (Update ''file_info'' ''count'' (show_int i) [(''md5'', md5)])"
  by (simp_all add: sql_eval)

lemma sql_insert_user_file [sql_texts]:
  "plain user \<Longrightarrow> plain md5 \<Longrightarrow> plain time \<Longrightarrow> plain filename \<Longrightarrow>
     sql_parse (fmt INSERT_USER_FILE [Str user, Str md5, Str time, Str filename, Num i, Num j]) =
     Some (Insert ''user_file_list'' [''user'', ''md5'', ''createtime'', ''filename'', ''shared_status'', ''pv'']
       [user, md5, time, filename, show_int i, show_int j])"
  by (simp add: sql_eval INSERT_USER_FILE_def)

lemma sql_count_of_user [sql_texts]:
  "plain user \<Longrightarrow> sql_parse (fmt ''select count from user_file_count where user = `%s`'' [Str user]) =
     Some (Select ''count'' ''user_file_count'' [(''user'', user)])"
  by (simp add: sql_eval)

lemma sql_insert_user_count [sql_texts]:
  "plain user \<Longrightarrow> sql_parse (fmt INSERT_USER_COUNT [Str user, Num i]) =
     Some (Insert ''user_file_count'' [''user'', ''count''] [user, show_int i])"
  "plain user \<Longrightarrow> sql_parse (fmt ''insert into user_file_count (user, count) values(`%s`, %d)'' [Str user, Num i]) =
     Some (Insert ''user_file_count'' [''user'', ''count''] [user, show_int i])"
  by (simp_all add: sql_eval INSERT_USER_COUNT_def)

lemma sql_set_user_count [sql_texts]:
  "plain user \<Longrightarrow> sql_parse (fmt ''update user_file_count set count = %d where user = `%s`'' [Num i, Str user]) =
     Some (Update ''user_file_count'' ''count'' (show_int i) [(''user'', user)])"
  by (simp add: sql_eval)

lemma sql_delete_user_count [sql_texts]:
  "plain user \<Longrightarrow> sql_parse (fmt ''delete from user_file_count where user = `%s`'' [Str user]) =
     Some (Delete ''user_file_count'' [(''user'', user)])"
  by (simp add: sql_eval)

lemma sql_delete_file [sql_texts]:
  "plain md5 \<Longrightarrow> sql_parse (fmt ''delete from file_info where md5 = `%s`'' [Str md5]) =
     Some (Delete ''file_info'' [(''md5'', md5)])"
  by (simp add: sql_eval)

lemma sql_delete_user_file [sql_texts]:
  "plain user \<Longrightarrow> plain md5 \<Longrightarrow> plain filename \<Longrightarrow>
     sql_parse (fmt ''delete from user_file_list where user = `%s` and md5 = `%s` and filename = `%s`''
       [Str user, Str md5, Str filename]) =
     Some (Delete ''user_file_list'' [(''user'', user), (''md5'', md5), (''filename'', filename)])"
  by (simp add: sql_eval)

lemma sql_delete_share [sql_texts]:
  "plain user \<Longrightarrow> plain md5 \<Longrightarrow> plain filename \<Longrightarrow>
     sql_parse (fmt ''delete from share_file_list where user = `%s` and md5 = `%s` and filename = `%s`''
       [Str user, Str md5, Str filename]) =
     Some (Delete ''share_file_list'' [(''user'', user), (''md5'', md5), (''filename'', filename)])"
  by (simp add: sql_eval)

lemma sql_shared_status [sql_texts]:
  "plain user \<Longrightarrow> plain md5 \<Longrightarrow> plain filename \<Longrightarrow>
     sql_parse (fmt ''select shared_status from user_file_list where user = `%s` and md5 = `%s` and filename = `%s`''
       [Str user, Str md5, Str filename]) =
     Some (Select ''shared_status'' ''user_file_list'' [(''user'', user), (''md5'', md5), (''filename'', filename)])"
  by (simp add: sql_eval)

lemma sql_set_shared [sql_texts]:
  "plain user \<Longrightarrow> plain md5 \<Longrightarrow> plain filename \<Longrightarrow>
     sql_parse (fmt ''update user_file_list set shared_status = 1 where user = `%s` and md5 = `%s` and filename = `%s`''
       [Str user, Str md5, Str filename]) =
     Some (Update ''user_file_list'' ''shared_status'' ''1'' [(''user'', user), (''md5'', md5), (''filename'', filename)])"
  "plain user \<Longrightarrow> plain md5 \<Longrightarrow> plain filename \<Longrightarrow>
     sql_parse (fmt ''update user_file_list set shared_status = 0 where user = `%s` and md5 = `%s` and filename = `%s`''
       [Str user, Str md5, Str filename]) =
     Some (Update ''user_file_list'' ''shared_status'' ''0'' [(''user'', user), (''md5'', md5), (''filename'', filename)])"
  by (simp_all add: sql_eval)

lemma sql_set_pv [sql_texts]:
  "plain user \<Longrightarrow> plain md5 \<Longrightarrow> plain filename \<Longrightarrow>
     sql_parse (fmt ''update user_file_list set pv = %d where user = `%s` and md5 = `%s` and filename = `%s`''
       [Num i, Str user, Str md5, Str filename]) =
     Some (Update ''user_file_list'' ''pv'' (show_int i) [(''user'', user), (''md5'', md5), (''filename'', filename)])"
  "plain md5 \<Longrightarrow> plain filename \<Longrightarrow>
     sql_parse (fmt ''update share_file_list set pv = %d where md5 = `%s` and filename = `%s`''
       [Num i, Str md5, Str filename]) =
     Some (Update ''share_file_list'' ''pv'' (show_int i) [(''md5'', md5), (''filename'', filename)])"
  by (simp_all add: sql_eval)

lemma sql_get_pv [sql_texts]:
  "plain user \<Longrightarrow> plain md5 \<Longrightarrow> plain filename \<Longrightarrow>
     sql_parse (fmt ''select pv from user_file_list where user = `%s` and md5 = `%s` and filename = `%s`''
       [Str user, Str md5, Str filename]) =
     Some (Select ''pv'' ''user_file_list'' [(''user'', user), (''md5'', md5), (''filename'', filename)])"
  "plain md5 \<Longrightarrow> plain filename \<Longrightarrow>
     sql_parse (fmt ''select pv from share_file_list where md5 = `%s` and filename = `%s`'' [Str md5, Str filename]) =
     Some (Select ''pv'' ''share_file_list'' [(''md5'', md5), (''filename'', filename)])"
  by (simp_all add: sql_eval)

lemma sql_insert_share [sql_texts]:
  "plain user \<Longrightarrow> plain md5 \<Longrightarrow> plain time \<Longrightarrow> plain filename \<Longrightarrow>
     sql_parse (fmt ''insert into share_file_list (user, md5, createtime, filename, pv) values (`%s`, `%s`, `%s`, `%s`, %d)''
       [Str user, Str md5, Str time, Str filename, Num i]) =
     Some (Insert ''share_file_list'' [''user'', ''md5'', ''createtime'', ''filename'', ''pv'']
       [user, md5, time, filename, show_int i])"
  by (simp add: sql_eval)

lemma sql_is_shared [sql_texts]:
  "plain md5 \<Longrightarrow> plain filename \<Longrightarrow>
     sql_parse (fmt ''select * from share_file_list where md5 = `%s` and filename = `%s`'' [Str md5, Str filename]) =
     Some (Select ''*'' ''share_file_list'' [(''md5'', md5), (''filename'', filename)])"
  by (simp add: sql_eval)

lemma plain_int: "plain (show_int i)"
  using show_nat_digits by (fastforce simp: plain_def list_all_iff show_int_def isdigit_def code_def split: if_splits)

lemma sql_insert_file [sql_texts]:
  "plain md5 \<Longrightarrow> plain fileid \<Longrightarrow> plain url \<Longrightarrow> plain suffix \<Longrightarrow>
     sql_parse (fmt ''insert into file_info (md5, file_id, url, size, type, count) values (`%s`, `%s`, `%s`, `%ld`, `%s`, %d)''
       [Str md5, Str fileid, Str url, Num sz, Str suffix, Num i]) =
     Some (Insert ''file_info'' [''md5'', ''file_id'', ''url'', ''size'', ''type'', ''count'']
       [md5, fileid, url, show_int sz, suffix, show_int i])"
  by (simp add: sql_eval lex_string_plain [OF plain_int])

lemma sql_user_exists [sql_texts]:
  "plain user \<Longrightarrow> sql_parse (fmt ''select * from user where name = `%s`'' [Str user]) =
     Some (Select ''*'' ''user'' [(''name'', user)])"
  by (simp add: sql_eval)

lemma sql_password [sql_texts]:
  "plain user \<Longrightarrow>
     sql_parse (fmt (''select password from user where name='' @ [CHR 0x22] @ ''%s'' @ [CHR 0x22]) [Str user]) =
     Some (Select ''password'' ''user'' [(''name'', user)])"
  by (simp add: sql_eval)

lemma sql_insert_user [sql_texts]:
  "plain user \<Longrightarrow> plain nick \<Longrightarrow> plain pwd \<Longrightarrow> plain tel \<Longrightarrow> plain time \<Longrightarrow>
     plain email \<Longrightarrow>
     sql_parse (fmt ''insert into user (name, nickname, password, phone, createtime, email) values (`%s`, `%s`, `%s`, `%s`, `%s`, `%s`)''
       [Str user, Str nick, Str pwd, Str tel, Str time, Str email]) =
     Some (Insert ''user'' [''name'', ''nickname'', ''password'', ''phone'', ''createtime'', ''email'']
       [user, nick, pwd, tel, time, email])"
  by (simp add: sql_eval)

text \<open>A quote in a field changes the statement: this user name adds a condition of its own to the login
  query.\<close>

lemma sql_injection:
  "sql_parse (fmt (''select password from user where name='' @ [CHR 0x22] @ ''%s'' @ [CHR 0x22])
       [Str (''x'' @ [CHR 0x22] @ '' and phone = '' @ [CHR 0x22] @ ''1'')]) =
     Some (Select ''password'' ''user'' [(''name'', ''x''), (''phone'', ''1'')])"
  by (simp add: sql_eval lex_string_def)

end
