(* ===== verification/Refcount.thy ===== *)
theory Refcount
  imports Sql_Texts
begin

text \<open>
  The reference counts of the stored files. Every row of \<open>user_file_list\<close> refers to the row of
  \<open>file_info\<close> with its digest; the column \<open>count\<close> there decides when the file is removed from the storage
  system. The invariant \<open>refcount_inv\<close> says that no count is below the number of references, so that
  no reference dangles. This theory shows what the single statements of the programs do to it.
\<close>

definition refs :: "(string \<Rightarrow> string \<Rightarrow> bool) \<Rightarrow> db \<Rightarrow> string \<Rightarrow> nat" where
  "refs eq d m = length (filter (matches eq [(''md5'', m)]) (d ''user_file_list''))"

definition counts :: "(string \<Rightarrow> string \<Rightarrow> bool) \<Rightarrow> db \<Rightarrow> string \<Rightarrow> string option list" where
  "counts eq d m = map (\<lambda>r. r ''count'') (filter (matches eq [(''md5'', m)]) (d ''file_info''))"

definition counted :: "(string \<Rightarrow> string \<Rightarrow> bool) \<Rightarrow> db \<Rightarrow> string \<Rightarrow> int \<Rightarrow> bool" where
  "counted eq d m i \<longleftrightarrow> counts eq d m = [Some (show_int i)]"

definition refcount_inv :: "(string \<Rightarrow> string \<Rightarrow> bool) \<Rightarrow> db \<Rightarrow> bool" where
  "refcount_inv eq d \<longleftrightarrow>
    (\<forall>m. counts eq d m = [] \<and> refs eq d m = 0 \<or>
         (\<exists>i. counted eq d m i \<and> int (refs eq d m) \<le> i \<and> i < 2 ^ 31))"

subsection \<open>Changes elsewhere\<close>

lemma matches_one: "matches eq [(c, v)] r = (case r c of None \<Rightarrow> False | Some x \<Rightarrow> eq x v)"
  by (simp add: matches_def)

lemma refs_cong: "d' ''user_file_list'' = d ''user_file_list'' \<Longrightarrow> refs eq d' = refs eq d"
  by (simp add: refs_def fun_eq_iff)

lemma counts_cong: "d' ''file_info'' = d ''file_info'' \<Longrightarrow> counts eq d' = counts eq d"
  by (simp add: counts_def fun_eq_iff)

lemma counted_cong: "counts eq d' = counts eq d \<Longrightarrow> counted eq d' = counted eq d"
  by (simp add: counted_def fun_eq_iff)

lemma refcount_inv_cong:
  "counts eq d' = counts eq d \<Longrightarrow> refs eq d' = refs eq d \<Longrightarrow> refcount_inv eq d' = refcount_inv eq d"
  by (simp add: refcount_inv_def counted_def)

lemma length_filter_map_same: "(\<And>x. Q (f x) = Q x) \<Longrightarrow> length (filter (Q \<circ> f) xs) = length (filter Q xs)"
  by (induction xs) auto

lemma refs_update_other:
  assumes "col \<noteq> ''md5''"
  shows "refs eq (snd (exec eq (Update t col v cs) d)) = refs eq d"
proof
  fix m
  have "matches eq [(''md5'', m)] (if matches eq cs r then r(col \<mapsto> v) else r) = matches eq [(''md5'', m)] r" for r
    using assms by (simp add: matches_one)
  then show "refs eq (snd (exec eq (Update t col v cs) d)) m = refs eq d m"
    by (simp add: refs_def filter_map length_filter_map_same)
qed

lemma refs_delete_le: "refs eq (snd (exec eq (Delete t cs) d)) m \<le> refs eq d m"
proof -
  have "length (filter P (filter Q xs)) \<le> length (filter P xs)" for P Q :: "row \<Rightarrow> bool" and xs
    by (induction xs) auto
  then show ?thesis by (simp add: refs_def)
qed

lemma refs_delete_less:
  assumes "r \<in> set (d ''user_file_list'')" "matches eq cs r" "matches eq [(''md5'', m)] r"
  shows "refs eq (snd (exec eq (Delete ''user_file_list'' cs) d)) m < refs eq d m"
proof -
  have "length (filter P (filter (\<lambda>x. \<not> Q x) xs)) < length (filter P xs)"
    if "r \<in> set xs" "P r" "Q r" for P Q :: "row \<Rightarrow> bool" and xs
    using that
  proof (induction xs)
    case (Cons x xs)
    have "length (filter P (filter (\<lambda>x. \<not> Q x) xs)) \<le> length (filter P xs)" by (induction xs) auto
    with Cons show ?case by (auto simp: le_imp_less_Suc)
  qed simp
  then show ?thesis using assms by (simp add: refs_def)
qed

lemma inv_fewer_refs:
  assumes "refcount_inv eq d" "counts eq d' = counts eq d" "\<And>m. refs eq d' m \<le> refs eq d m"
  shows "refcount_inv eq d'"
  unfolding refcount_inv_def
proof
  fix m
  show "counts eq d' m = [] \<and> refs eq d' m = 0 \<or>
      (\<exists>i. counted eq d' m i \<and> int (refs eq d' m) \<le> i \<and> i < 2 ^ 31)"
    using assms(1) [unfolded refcount_inv_def, rule_format, of m] assms(2) assms(3) [of m]
    by (fastforce simp: counted_def)
qed

lemma inv_cases:
  assumes "refcount_inv eq d"
  obtains "counts eq d m = []" "refs eq d m = 0"
  | i where "counted eq d m i" "int (refs eq d m) \<le> i" "i < 2 ^ 31"
  using assms [unfolded refcount_inv_def, rule_format, of m] by (elim disjE exE conjE) (rule that; assumption)+

text \<open>A count above the number of references: a further reference may be added, or the count lowered.\<close>

definition slack :: "(string \<Rightarrow> string \<Rightarrow> bool) \<Rightarrow> db \<Rightarrow> string \<Rightarrow> bool" where
  "slack eq d m \<longleftrightarrow> (\<exists>i. counted eq d m i \<and> int (refs eq d m) < i \<and> i < 2 ^ 31)"

subsection \<open>The statements on counted files\<close>

context collation
begin

lemma matches_class: "colleq m m' \<Longrightarrow> matches colleq [(c, m)] = matches colleq [(c, m')]"
  by (auto simp: matches_one fun_eq_iff split: option.splits intro: colleq_sym colleq_trans)

lemma matches_disjoint: "matches colleq [(c, m)] r \<Longrightarrow> matches colleq [(c, m')] r \<Longrightarrow> colleq m m'"
  by (auto simp: matches_one split: option.splits intro: colleq_sym colleq_trans)

lemma matches_same: "matches colleq [(c, m')] r \<Longrightarrow> matches colleq [(c, m)] r = colleq m m'"
  using matches_class [of m m' c] matches_disjoint [of c m r m'] by auto

lemma counts_class: "colleq m m' \<Longrightarrow> counts colleq d m = counts colleq d m'"
  by (simp add: counts_def matches_class)

lemma refs_class: "colleq m m' \<Longrightarrow> refs colleq d m = refs colleq d m'"
  by (simp add: refs_def matches_class)

lemma counts_update:
  "counts colleq (snd (exec colleq (Update ''file_info'' ''count'' v [(''md5'', m)]) d)) m' =
    (if colleq m m' then map (\<lambda>_. Some v) (counts colleq d m') else counts colleq d m')"
proof -
  let ?up = "\<lambda>r. if matches colleq [(''md5'', m)] r then r(''count'' \<mapsto> v) else r"
  have same: "matches colleq [(''md5'', m')] (?up r) = matches colleq [(''md5'', m')] r" for r
    by (simp add: matches_one)
  have "map (\<lambda>r. r ''count'') (filter (matches colleq [(''md5'', m')]) (map ?up rs)) =
      (if colleq m m' then map (\<lambda>_. Some v) (filter (matches colleq [(''md5'', m')]) rs)
       else map (\<lambda>r. r ''count'') (filter (matches colleq [(''md5'', m')]) rs))" for rs
    using matches_class [of m m' "''md5''"] matches_disjoint [of "''md5''" m _ m']
    by (induction rs) (auto simp: same simp del: filter_map)
  then show ?thesis by (simp add: counts_def comp_def del: filter_map)
qed

lemma inv_update_count:
  assumes "refcount_inv colleq d" "int (refs colleq d m) \<le> j" "j < 2 ^ 31"
    and d': "d' = snd (exec colleq (Update ''file_info'' ''count'' (show_int j) [(''md5'', m)]) d)"
  shows "refcount_inv colleq d'"
  unfolding refcount_inv_def
proof
  fix m'
  have r: "refs colleq d' = refs colleq d" by (simp add: d' refs_update_other del: exec.simps)
  show "counts colleq d' m' = [] \<and> refs colleq d' m' = 0 \<or>
      (\<exists>i. counted colleq d' m' i \<and> int (refs colleq d' m') \<le> i \<and> i < 2 ^ 31)"
    using assms(1)
  proof (cases rule: inv_cases [where m = m'])
    case 1
    then show ?thesis by (simp add: d' counts_update refs_update_other del: exec.simps)
  next
    case (2 i)
    show ?thesis
    proof (cases "colleq m m'")
      case True
      then have "counted colleq d' m' j"
        using 2 by (simp add: counted_def d' counts_update del: exec.simps)
      then show ?thesis using assms(2,3) refs_class [OF True] r by auto
    next
      case False
      then have "counted colleq d' m' i"
        using 2 by (simp add: counted_def d' counts_update del: exec.simps)
      then show ?thesis using 2 r by auto
    qed
  qed
qed

lemma refs_insert:
  assumes "new ''md5'' = Some m"
  shows "refs colleq (d(''user_file_list'' := d ''user_file_list'' @ [new])) m' =
    refs colleq d m' + (if colleq m m' then 1 else 0)"
  using assms by (simp add: refs_def matches_one)

lemma inv_insert_ref:
  assumes inv: "refcount_inv colleq d" and sl: "slack colleq d m" and new: "new ''md5'' = Some m"
    and d': "d' = d(''user_file_list'' := d ''user_file_list'' @ [new])"
  shows "refcount_inv colleq d'"
  unfolding refcount_inv_def
proof
  fix m'
  have c: "counts colleq d' = counts colleq d" by (rule counts_cong) (simp add: d')
  show "counts colleq d' m' = [] \<and> refs colleq d' m' = 0 \<or>
      (\<exists>i. counted colleq d' m' i \<and> int (refs colleq d' m') \<le> i \<and> i < 2 ^ 31)"
  proof (cases "colleq m m'")
    case True
    obtain i where "counted colleq d m i" "int (refs colleq d m) < i" "i < 2 ^ 31"
      using sl by (auto simp: slack_def)
    then have "counted colleq d' m' i" "int (refs colleq d' m') \<le> i"
      using True refs_insert [of new m d m', OF new] counts_class [OF True] refs_class [OF True]
      by (simp_all add: counted_def c flip: d')
    with \<open>i < 2 ^ 31\<close> show ?thesis by blast
  next
    case False
    then have "refs colleq d' m' = refs colleq d m'" using refs_insert [of new m d m', OF new] by (simp add: d')
    with inv c show ?thesis by (auto simp: refcount_inv_def counted_def)
  qed
qed

lemma slack_update_count:
  assumes "counted colleq d m i" "int (refs colleq d m) < j" "j < 2 ^ 31"
    and d': "d' = snd (exec colleq (Update ''file_info'' ''count'' (show_int j) [(''md5'', m)]) d)"
  shows "slack colleq d' m"
proof -
  have "counted colleq d' m j"
    using assms(1) colleq_refl by (simp add: counted_def d' counts_update del: exec.simps)
  moreover have "refs colleq d' = refs colleq d" by (simp add: d' refs_update_other del: exec.simps)
  ultimately show ?thesis using assms(2,3) by (auto simp: slack_def)
qed

lemma inv_delete_file:
  assumes inv: "refcount_inv colleq d" and none: "refs colleq d m = 0"
    and d': "d' = snd (exec colleq (Delete ''file_info'' [(''md5'', m)]) d)"
  shows "refcount_inv colleq d'"
  unfolding refcount_inv_def
proof
  fix m'
  have r: "refs colleq d' = refs colleq d" by (rule refs_cong) (simp add: d')
  have c: "counts colleq d' m' = (if colleq m m' then [] else counts colleq d m')"
    using matches_class [of m m' "''md5''"] matches_disjoint [of "''md5''" m _ m']
    by (auto simp: counts_def d' intro: filter_cong [OF refl] arg_cong [where f = "map _"])
  show "counts colleq d' m' = [] \<and> refs colleq d' m' = 0 \<or>
      (\<exists>i. counted colleq d' m' i \<and> int (refs colleq d' m') \<le> i \<and> i < 2 ^ 31)"
    using inv none refs_class [of m m' d] by (auto simp: c r refcount_inv_def counted_def)
qed

lemma inv_insert_file:
  assumes inv: "refcount_inv colleq d" and fresh: "\<not> key_clash colleq ''file_info'' new (d ''file_info'')"
    and new: "new ''md5'' = Some m" "new ''count'' = Some (show_int 1)"
    and d': "d' = d(''file_info'' := d ''file_info'' @ [new])"
  shows "refcount_inv colleq d'" "slack colleq d' m"
proof -
  have r: "refs colleq d' = refs colleq d" by (rule refs_cong) (simp add: d')
  have "counts colleq d m = []"
    using fresh new by (auto simp: key_clash_def unique_keys_def counts_def list_ex_iff filter_empty_conv)
  then have none: "counts colleq d m' = []" if "colleq m m'" for m' using counts_class [OF that, of d] by simp
  have c: "counts colleq d' m' = (if colleq m m' then [Some (show_int 1)] else counts colleq d m')" for m'
    using none [of m'] new by (auto simp: counts_def d' matches_one)
  have z: "refs colleq d m' = 0" if "colleq m m'" for m'
    using inv none [OF that] by (auto elim: inv_cases [where m = m'] simp: counted_def)
  show "refcount_inv colleq d'"
    using inv z unfolding refcount_inv_def by (auto simp: c r counted_def intro!: exI [of _ 1])
  show "slack colleq d' m"
    using z [OF colleq_refl] by (auto simp: slack_def counted_def c r colleq_refl intro!: exI [of _ 1])
qed

end

end
