(* ===== verification/Database.thy ===== *)
theory Database
  imports Refcount
begin

text \<open>
  The programs run against a MySQL server that obeys the laws of \<open>sql_server\<close>. The locale \<open>database\<close> adds
  that the other external calls leave the tables alone. Its lemmas say what a program step does to the
  tables and to the files that were removed from the storage system, in the form of rules for \<open>ok\<close>: the
  collection \<open>db_rules\<close> has one for each statement.
\<close>

named_theorems db_rules \<open>steps of the programs on a database\<close>

text \<open>The commands given to the shell: only \<open>remove_file_from_storage\<close> gives any.\<close>

definition removed :: "'x world \<Rightarrow> string list" where
  "removed w = concat (map (\<lambda>v. case v of System c \<Rightarrow> [c] | _ \<Rightarrow> []) (trace w))"

definition unchanged :: "('x \<Rightarrow> db) \<Rightarrow> 'x world \<Rightarrow> 'x world \<Rightarrow> bool" where
  "unchanged view w w' \<longleftrightarrow> view (ext w') = view (ext w) \<and> removed w' = removed w"

definition fields_ok :: "string \<Rightarrow> string \<Rightarrow> string \<Rightarrow> bool" where
  "fields_ok user md5 filename \<longleftrightarrow> plain_text 128 user \<and> plain_text 200 md5 \<and> plain_text 128 filename"

lemma removed_simps [simp]:
  "removed (put s w) = removed w"
  "removed (w\<lparr>ext := x\<rparr>) = removed w"
  "removed (logged v w) = removed w @ (case v of System c \<Rightarrow> [c] | _ \<Rightarrow> [])"
  by (simp_all add: removed_def put_def logged_def)

lemma unchanged_put [simp]: "unchanged view w (put s w') = unchanged view w w'"
  by (simp add: unchanged_def)

lemma stored_simps:
  "stored ''file_info'' ''md5'' s = plain_text 200 s"
  "stored ''user_file_list'' ''user'' s = plain_text 128 s"
  "stored ''user_file_list'' ''md5'' s = plain_text 200 s"
  "stored ''user_file_list'' ''filename'' s = plain_text 128 s"
  "stored ''user_file_list'' ''createtime'' s = plain_text 128 s"
  "stored ''share_file_list'' ''user'' s = plain_text 128 s"
  "stored ''share_file_list'' ''md5'' s = plain_text 200 s"
  "stored ''share_file_list'' ''filename'' s = plain_text 128 s"
  "stored ''share_file_list'' ''createtime'' s = plain_text 128 s"
  "stored ''user_file_count'' ''user'' s = plain_text 128 s"
  by (simp_all add: stored_def schema_def)

lemma stored_int:
  assumes "- (2 ^ 31) \<le> i" "i < 2 ^ 31" "(t, col) \<in> {(''file_info'', ''count''), (''user_file_count'', ''count''),
      (''user_file_list'', ''pv''), (''user_file_list'', ''shared_status''), (''share_file_list'', ''pv'')}"
  shows "stored t col (show_int i)"
proof -
  have "strtol (show_int i) = i" using assms(1,2) by (simp add: strtol_show_int)
  then show ?thesis using assms by (elim insertE) (simp_all add: stored_def schema_def)
qed

lemma wrap32_range: "- (2 ^ 31) \<le> wrap32 i" "wrap32 i < 2 ^ 31"
  by (simp_all add: wrap32_def)

lemma show_int_digit: "show_int 0 = ''0''" "show_int 1 = ''1''"
proof -
  have "char_of (49 :: nat) = CHR ''1''" by (simp add: char_of_eq_iff)
  then show "show_int 0 = ''0''" "show_int 1 = ''1''" by (simp_all add: show_int_def show_nat.simps [of "Suc 0"])
qed

lemma fields_okD:
  assumes "fields_ok user md5 filename"
  shows "plain_text 128 user" "plain_text 200 md5" "plain_text 128 filename" "plain user" "plain md5" "plain filename"
  using assms by (simp_all add: fields_ok_def plain_text_def)

locale database = sql_server colleq "env_mysql_query e" view
  for colleq :: "string \<Rightarrow> string \<Rightarrow> bool" and e :: "'x env" and view :: "'x \<Rightarrow> db" +
  assumes keep_connect: "view (snd (env_mysql_connect e u p d x)) = view x"
    and keep_redis_connect: "view (snd (env_redis_connect e a x)) = view x"
    and keep_redis: "view (snd (env_redis e argv x)) = view x"
    and keep_system: "view (snd (env_system e c x)) = view x"
    and keep_pipe: "view (snd (env_pipe e argv x)) = view x"
    and keep_write: "view (snd (env_write_file e f s x)) = view x"
    and keep_unlink: "view (env_unlink e f x) = view x"
    and clock: "plain_text 128 (env_now e x)"
begin

abbreviation same :: "'x world \<Rightarrow> 'x world \<Rightarrow> bool" where
  "same \<equiv> unchanged view"

abbreviation tables :: "'x world \<Rightarrow> db" where
  "tables w \<equiv> view (ext w)"

lemma ok_keep:
  assumes "\<And>x. view (snd (f x)) = view x" "\<And>c. v \<noteq> System c" "\<And>a w'. same w w' \<Longrightarrow> Q (a, w')"
  shows "ok Q (external v f w)"
  using assms by (auto simp: ok_simps unchanged_def split: event.split)

lemma ok_redis_connect [db_rules]:
  assumes "\<And>a w'. same w w' \<Longrightarrow> Q (a, w')" shows "ok Q (rop_connectdb_nopwd e ip port w)"
  using assms by (simp add: rop_connectdb_nopwd_def redis_connect_def ok_simps unchanged_def keep_redis_connect)

lemma ok_redisCommand:
  assumes "\<And>a w'. same w w' \<Longrightarrow> Q (a, w')" shows "ok Q (redisCommand e f args w)"
proof (cases "redisFormatCommand f args")
  case (Formatted argv)
  show ?thesis unfolding redisCommand_def Formatted format_result.case
    by (rule ok_keep) (auto simp: keep_redis assms)
qed (auto simp: redisCommand_def ok_simps assms unchanged_def)

lemma ok_rop [db_rules]:
  assumes "\<And>a w'. same w w' \<Longrightarrow> Q (a, w')"
  shows "ok Q (rop_zset_exit e key mem w)" "ok Q (rop_zset_add e key score mem w)"
    "ok Q (rop_zset_zrem e key mem w)" "ok Q (rop_hash_set e key fld val w)"
    "ok Q (rop_hash_del e key fld w)" "ok Q (rop_zset_increment e key mem w)"
  unfolding rop_zset_exit_def rop_zset_add_def rop_zset_zrem_def rop_hash_set_def rop_hash_del_def
    rop_zset_increment_def ok_simps
  by (rule ok_redisCommand; auto simp: ok_def assms split: option.splits)+

lemma ok_connect_mysql [db_rules]:
  assumes "\<And>a w'. same w w' \<Longrightarrow> Q (a, w')" shows "ok Q (connect_mysql e c w)"
proof -
  have "view (snd (env_mysql_query e ''set names utf8'' x)) = view x" for x
    using query_law [OF sql_set_names, of x] by auto
  then show ?thesis
    using assms by (simp add: connect_mysql_def msql_conn_def mysql_query_def ok_simps unchanged_def keep_connect)
qed

lemma ok_answer_status [db_rules]:
  assumes "\<And>w'. same w w' \<Longrightarrow> Q w'" shows "ok Q (answer_status s w)"
  using assms by (auto simp: answer_status_def printf_out_def ok_simps ok_def unchanged_def split: option.splits)

subsection \<open>Statements\<close>

lemma ok_run_sql:
  assumes parse: "sql_parse (fmt f args) = Some s" and sok: "stmt_ok s"
    and fails: "\<And>w'. same w w' \<Longrightarrow> Q (False, w')"
    and works: "\<And>w'. tables w' = snd (exec colleq s (tables w)) \<Longrightarrow> removed w' = removed w \<Longrightarrow>
      fst (exec colleq s (tables w)) \<noteq> SqlError \<Longrightarrow> Q (True, w')"
  shows "ok Q (run_sql e f args w)"
proof -
  let ?w = "(logged (Sql (fmt f args)) w)\<lparr>ext := snd (env_mysql_query e (fmt f args) (ext w))\<rparr>"
  have agree: "reply_agrees s r r' \<Longrightarrow> (r = SqlError) = (r' = SqlError)" for r r'
    by (cases s) (auto split: if_splits sql_reply.splits)
  have unch: "fst (exec colleq s d) = SqlError \<Longrightarrow> snd (exec colleq s d) = d" for d
    by (cases s) (auto simp: Let_def)
  have "Q (fst (env_mysql_query e (fmt f args) (ext w)) \<noteq> SqlError, ?w)"
    using query_law [OF parse sok, of "ext w"]
  proof
    assume "fst (env_mysql_query e (fmt f args) (ext w)) = SqlError \<and>
      view (snd (env_mysql_query e (fmt f args) (ext w))) = tables w"
    then show ?thesis using fails [of ?w] by (simp add: unchanged_def)
  next
    assume *: "reply_agrees s (fst (env_mysql_query e (fmt f args) (ext w))) (fst (exec colleq s (tables w))) \<and>
      view (snd (env_mysql_query e (fmt f args) (ext w))) = snd (exec colleq s (tables w))"
    then have "(fst (env_mysql_query e (fmt f args) (ext w)) = SqlError) = (fst (exec colleq s (tables w)) = SqlError)"
      using agree by blast
    with * show ?thesis using works [of ?w] unch [of "tables w"] fails [of ?w]
      by (cases "fst (exec colleq s (tables w)) = SqlError") (simp_all add: unchanged_def)
  qed
  then show ?thesis by (simp add: run_sql_def sql_text_def ok_simps mysql_query_def)
qed

lemma ok_select:
  assumes "prefix_of ''select '' (fmt f args)" and "\<And>a b w'. same w w' \<Longrightarrow> Q (a, b, w')"
  shows "ok Q (query_one e f args buf w)"
proof -
  have "ok Q (process_result_one e 512 (fmt f args) buf w)"
  proof (rule okI)
    fix res
    assume "process_result_one e 512 (fmt f args) buf w = Some res"
    then have "\<exists>a b. res = (a, b, (logged (Sql (fmt f args)) w)\<lparr>ext := snd (env_mysql_query e (fmt f args) (ext w))\<rparr>)"
      by (auto simp: process_result_one_def mysql_query_def external_def split_beta bind_eq_Some_conv split: sql_reply.splits if_splits list.splits option.splits)
    then show "Q res" using assms select_law [OF assms(1), of "ext w"] by (auto simp: unchanged_def)
  qed
  then show ?thesis by (simp add: query_one_def sql_text_def ok_simps)
qed

lemma ok_select_column:
  assumes parse: "sql_parse (fmt f args) = Some (Select col t cs)" and sok: "stmt_ok (Select col t cs)"
    and col: "col \<noteq> ''*''"
    and fails: "\<And>w'. same w w' \<Longrightarrow> Q (- 1, b, w')"
    and none: "\<And>w'. same w w' \<Longrightarrow> filter (matches colleq cs) (tables w t) = [] \<Longrightarrow> Q (1, b, w')"
    and row: "\<And>w' r rs. same w w' \<Longrightarrow> filter (matches colleq cs) (tables w t) = r # rs \<Longrightarrow>
      Q (0, case r col of None \<Rightarrow> b | Some s \<Rightarrow> s, w')"
  shows "ok Q (query_one e f args (Some b) w)"
proof -
  let ?q = "env_mysql_query e (fmt f args) (ext w)"
  let ?w = "(logged (Sql (fmt f args)) w)\<lparr>ext := snd ?q\<rparr>"
  have same: "same w ?w" using query_law [OF parse sok, of "ext w"] by (auto simp: unchanged_def)
  have "ok Q (process_result_one e 512 (fmt f args) (Some b) w)"
  proof (cases "fst ?q = SqlError")
    case True
    then show ?thesis
      using fails [OF same] by (simp add: process_result_one_def mysql_query_def external_def split_beta ok_simps)
  next
    case False
    then have rows: "fst ?q = SqlRows (map (project col t) (filter (matches colleq cs) (tables w t)))"
      using query_law [OF parse sok, of "ext w"] col by auto
    show ?thesis
    proof (cases "filter (matches colleq cs) (tables w t)")
      case Nil
      then show ?thesis using rows none [OF same]
        by (simp add: process_result_one_def mysql_query_def external_def split_beta ok_simps)
    next
      case (Cons r rs)
      then show ?thesis using rows row [OF same Cons] col
        by (cases "r col") (simp_all add: process_result_one_def mysql_query_def external_def split_beta ok_simps project_def)
    qed
  qed
  then show ?thesis by (simp add: query_one_def sql_text_def ok_simps)
qed

end

end
