(* ===== verification/Refcount_Programs.thy ===== *)
theory Refcount_Programs
  imports Database
begin

text \<open>
  The programs keep the invariant of the reference counts. Statements that concern neither digests nor
  counts are \<open>harmless\<close>; a program made of such statements changes nothing that the invariant is about.
\<close>

fun harmless :: "stmt \<Rightarrow> bool" where
  "harmless SetNames = True"
| "harmless (Select _ _ _) = True"
| "harmless (Insert t _ _) = (t \<noteq> ''file_info'' \<and> t \<noteq> ''user_file_list'')"
| "harmless (Update t col _ _) = (t \<noteq> ''file_info'' \<and> col \<noteq> ''md5'')"
| "harmless (Delete t _) = (t \<noteq> ''file_info'' \<and> t \<noteq> ''user_file_list'')"

definition same_refs :: "(string \<Rightarrow> string \<Rightarrow> bool) \<Rightarrow> ('x \<Rightarrow> db) \<Rightarrow> 'x world \<Rightarrow> 'x world \<Rightarrow> bool" where
  "same_refs eq view w w' \<longleftrightarrow> counts eq (view (ext w')) = counts eq (view (ext w)) \<and>
     refs eq (view (ext w')) = refs eq (view (ext w)) \<and> removed w' = removed w"

lemma harmless_exec:
  assumes "harmless s"
  shows "counts eq (snd (exec eq s d)) = counts eq d" "refs eq (snd (exec eq s d)) = refs eq d"
proof -
  have "counts eq (snd (exec eq s d)) = counts eq d \<and> refs eq (snd (exec eq s d)) = refs eq d"
  proof (cases s)
    case (Update t col v cs)
    then show ?thesis using assms refs_update_other [of col eq t v cs d] by (auto intro!: counts_cong)
  qed (use assms in \<open>auto simp: Let_def intro!: counts_cong refs_cong\<close>)
  then show "counts eq (snd (exec eq s d)) = counts eq d" "refs eq (snd (exec eq s d)) = refs eq d" by auto
qed

lemma same_same_refs: "unchanged view w w' \<Longrightarrow> same_refs eq view w w'"
  by (simp add: unchanged_def same_refs_def)

lemma same_refs_trans: "same_refs eq view w w' \<Longrightarrow> same_refs eq view w' w'' \<Longrightarrow> same_refs eq view w w''"
  by (simp add: same_refs_def)

lemma same_refsD:
  "same_refs eq view w w' \<Longrightarrow>
     removed w' = removed w \<and> refcount_inv eq (view (ext w')) = refcount_inv eq (view (ext w))"
  by (simp add: same_refs_def refcount_inv_def counted_def)

text \<open>Statements on other tables, which leave the two tables as they are.\<close>

fun stmt_table :: "stmt \<Rightarrow> string" where
  "stmt_table SetNames = []"
| "stmt_table (Select _ t _) = []"
| "stmt_table (Insert t _ _) = t"
| "stmt_table (Update t _ _ _) = t"
| "stmt_table (Delete t _) = t"

definition neutral :: "stmt \<Rightarrow> bool" where
  "neutral s \<longleftrightarrow> stmt_table s \<noteq> ''file_info'' \<and> stmt_table s \<noteq> ''user_file_list''"

definition same_files :: "('x \<Rightarrow> db) \<Rightarrow> 'x world \<Rightarrow> 'x world \<Rightarrow> bool" where
  "same_files view w w' \<longleftrightarrow> view (ext w') ''file_info'' = view (ext w) ''file_info'' \<and>
     view (ext w') ''user_file_list'' = view (ext w) ''user_file_list'' \<and> removed w' = removed w"

text \<open>A row of the user for the file under that name.\<close>

definition owns :: "(string \<Rightarrow> string \<Rightarrow> bool) \<Rightarrow> db \<Rightarrow> string \<Rightarrow> string \<Rightarrow> string \<Rightarrow> bool" where
  "owns eq d user md5 filename =
     list_ex (matches eq [(''user'', user), (''md5'', md5), (''filename'', filename)]) (d ''user_file_list'')"

lemma same_filesD:
  assumes "same_files view w w'"
  shows "refcount_inv eq (view (ext w')) = refcount_inv eq (view (ext w))"
    "owns eq (view (ext w')) user md5 filename = owns eq (view (ext w)) user md5 filename"
    "removed w' = removed w"
  using assms by (simp_all add: same_files_def refcount_inv_def counted_def counts_def refs_def owns_def)

lemma neutral_exec:
  assumes "neutral s" "t \<in> {''file_info'', ''user_file_list''}"
  shows "snd (exec eq s d) t = d t"
  using assms by (cases s) (auto simp: neutral_def Let_def)

text \<open>A formatted statement that is harmless or neutral, and one that is a query.\<close>

definition harmless_text :: "string \<Rightarrow> farg list \<Rightarrow> bool" where
  "harmless_text f args = (case sql_parse (fmt f args) of None \<Rightarrow> False | Some s \<Rightarrow> stmt_ok s \<and> harmless s)"

definition neutral_text :: "string \<Rightarrow> farg list \<Rightarrow> bool" where
  "neutral_text f args = (case sql_parse (fmt f args) of None \<Rightarrow> False | Some s \<Rightarrow> stmt_ok s \<and> neutral s)"

definition select_text :: "string \<Rightarrow> farg list \<Rightarrow> bool" where
  "select_text f args = prefix_of ''select '' (fmt f args)"

lemma fields_ok_simps [simp]:
  assumes "fields_ok user md5 filename"
  shows "plain_text 128 user" "plain_text 200 md5" "plain_text 128 filename" "plain user" "plain md5" "plain filename"
  using assms by (simp_all add: fields_ok_def plain_text_def)

lemma share_count_user [simp]: "plain_text 128 SHARE_COUNT_USER" "plain SHARE_COUNT_USER"
  by (simp_all add: SHARE_COUNT_USER_def plain_text_def plain_def code_def)

lemma select_textI: "take 7 f = ''select '' \<Longrightarrow> select_text f args"
proof -
  assume "take 7 f = ''select ''"
  then obtain r where "f = ''select '' @ r" by (metis append_take_drop_id)
  then show ?thesis by (simp add: select_text_def prefix_of_def fmt_def unquote_def)
qed

context database
begin

lemma clock_plain [simp]: "plain_text 128 (strftime_now e w)" "plain (strftime_now e w)"
  using clock by (simp_all add: strftime_now_def plain_text_def)

lemma ok_harmless [db_rules]:
  assumes "harmless_text f args" and Q: "\<And>a w'. same_refs colleq view w w' \<Longrightarrow> Q (a, w')"
  shows "ok Q (run_sql e f args w)"
proof -
  obtain s where s: "sql_parse (fmt f args) = Some s" "stmt_ok s" "harmless s"
    using assms(1) by (auto simp: harmless_text_def split: option.splits)
  show ?thesis
    by (rule ok_run_sql [OF s(1,2)])
      (auto intro!: Q simp: same_refs_def harmless_exec [OF s(3)] unchanged_def)
qed

lemma ok_neutral:
  assumes "neutral_text f args" and Q: "\<And>a w'. same_files view w w' \<Longrightarrow> Q (a, w')"
  shows "ok Q (run_sql e f args w)"
proof -
  obtain s where s: "sql_parse (fmt f args) = Some s" "stmt_ok s" "neutral s"
    using assms(1) by (auto simp: neutral_text_def split: option.splits)
  show ?thesis
    by (rule ok_run_sql [OF s(1,2)]) (auto intro!: Q simp: same_files_def neutral_exec [OF s(3)] unchanged_def)
qed

lemma ok_select_text [db_rules]:
  assumes "select_text f args" "\<And>a b w'. same w w' \<Longrightarrow> Q (a, b, w')"
  shows "ok Q (query_one e f args buf w)"
  using assms by (auto simp: select_text_def intro: ok_select)

lemma harmless_user_count:
  assumes "plain_text 128 user"
  shows "harmless_text INSERT_USER_COUNT [Str user, Num 1]"
    "harmless_text ''insert into user_file_count (user, count) values(`%s`, %d)'' [Str user, Num 1]"
    "harmless_text ''update user_file_count set count = %d where user = `%s`'' [Num (wrap32 i), Str user]"
    "harmless_text ''select count from user_file_count where user = `%s`'' [Str user]"
    "harmless_text ''delete from user_file_count where user = `%s`'' [Str user]"
  using assms wrap32_range [of i]
  by (simp_all add: harmless_text_def sql_texts plain_text_def stored_simps stored_int schema_def)

lemma ok_count_user_file [db_rules]:
  assumes "plain_text 128 user" "insert_format \<in> {INSERT_USER_COUNT, ''insert into user_file_count (user, count) values(`%s`, %d)''}"
    and Q: "\<And>a w'. same_refs colleq view w w' \<Longrightarrow> Q (a, w')"
  shows "ok Q (count_user_file e insert_format user tmp w)"
proof -
  have "harmless_text insert_format [Str user, Num 1]" using assms(1,2) harmless_user_count by auto
  then show ?thesis
    by (auto simp: count_user_file_def ok_simps harmless_user_count assms(1) select_textI
      intro!: db_rules Q dest!: same_same_refs [where eq = colleq] intro: same_refs_trans)
qed

lemma harmless_file:
  assumes "fields_ok user md5 filename"
  shows
    "harmless_text ''update user_file_list set shared_status = 1 where user = `%s` and md5 = `%s` and filename = `%s`''
       [Str user, Str md5, Str filename]"
    "harmless_text ''update user_file_list set shared_status = 0 where user = `%s` and md5 = `%s` and filename = `%s`''
       [Str user, Str md5, Str filename]"
    "harmless_text ''update user_file_list set pv = %d where user = `%s` and md5 = `%s` and filename = `%s`''
       [Num (wrap32 i), Str user, Str md5, Str filename]"
    "harmless_text ''update share_file_list set pv = %d where md5 = `%s` and filename = `%s`''
       [Num (wrap32 i), Str md5, Str filename]"
    "harmless_text ''delete from share_file_list where user = `%s` and md5 = `%s` and filename = `%s`''
       [Str user, Str md5, Str filename]"
    "harmless_text ''insert into share_file_list (user, md5, createtime, filename, pv) values (`%s`, `%s`, `%s`, `%s`, %d)''
       [Str user, Str md5, Str (strftime_now e w), Str filename, Num 0]"
  using fields_ok_simps [OF assms] wrap32_range [of i] stored_int [of 1] stored_int [of 0]
  by (simp_all add: harmless_text_def sql_texts stored_simps stored_int show_int_digit)

lemma same_refs_share_file:
  assumes "fields_ok user md5 filename"
  shows "ok (\<lambda>(_, w'). same_refs colleq view w w') (share_file e c user md5 filename w)"
  by (auto simp: share_file_def share_file_body_def ok_simps harmless_file [OF assms] select_textI Let_def
      same_refs_def unchanged_def intro!: db_rules)

lemma same_refs_pv_file:
  assumes "fields_ok user md5 filename"
  shows "ok (\<lambda>(_, w'). same_refs colleq view w w') (pv_file e c user md5 filename w)"
  by (auto simp: pv_file_def pv_file_body_def ok_simps harmless_file [OF assms] select_textI Let_def
      same_refs_def unchanged_def intro!: db_rules)


lemma same_refs_share_pv_file:
  assumes "fields_ok user md5 filename"
  shows "ok (\<lambda>(_, w'). same_refs colleq view w w') (share_pv_file e c md5 filename w)"
  by (auto simp: share_pv_file_def share_pv_file_body_def ok_simps harmless_file [OF assms] select_textI Let_def
      same_refs_def unchanged_def intro!: db_rules)

lemma same_refs_cancel_share_file:
  assumes "fields_ok user md5 filename"
  shows "ok (\<lambda>(_, w'). same_refs colleq view w w') (cancel_share_file e c user md5 filename w)"
  by (auto simp: cancel_share_file_def cancel_share_file_body_def ok_simps harmless_file [OF assms] harmless_user_count select_textI Let_def
      same_refs_def unchanged_def intro!: db_rules)

subsection \<open>Adding a reference\<close>

text \<open>The column that \<open>select count from file_info\<close> returns.\<close>

lemma ok_select_count:
  assumes inv: "refcount_inv colleq (tables w)" and "plain_text 200 md5"
    and fails: "\<And>w'. same w w' \<Longrightarrow> Q (- 1, b, w')" "\<And>w'. same w w' \<Longrightarrow> Q (1, b, w')"
    and found: "\<And>w' i. same w w' \<Longrightarrow> counted colleq (tables w) md5 i \<Longrightarrow> int (refs colleq (tables w) md5) \<le> i \<Longrightarrow>
      i < 2 ^ 31 \<Longrightarrow> atoi (show_int i) = i \<Longrightarrow> Q (0, show_int i, w')"
  shows "ok Q (query_one e ''select count from file_info where md5 = `%s`'' [Str md5] (Some b) w)"
proof (rule ok_select_column [OF sql_count_of_file])
  fix w' r rs
  assume w': "same w w'" and rows: "filter (matches colleq [(''md5'', md5)]) (tables w ''file_info'') = r # rs"
  from inv show "Q (0, case r ''count'' of None \<Rightarrow> b | Some s \<Rightarrow> s, w')"
  proof (cases rule: inv_cases [where m = md5])
    case 1
    then show ?thesis using rows by (simp add: counts_def)
  next
    case (2 i)
    then have "r ''count'' = Some (show_int i)" using rows by (simp add: counted_def counts_def)
    then show ?thesis using found [OF w' 2] 2 by (simp add: atoi_show_int)
  qed
qed (use assms in \<open>auto simp: plain_text_def stored_simps schema_def\<close>)

lemma ok_set_count:
  assumes "- (2 ^ 31) \<le> j" "j < 2 ^ 31" "plain_text 200 md5"
    "f \<in> {''update file_info set count = %d where md5 = `%s`'', ''update file_info set count=%d where md5 = `%s`''}"
    and "\<And>w'. same w w' \<Longrightarrow> Q (False, w')"
    and "\<And>w'. tables w' = snd (exec colleq (Update ''file_info'' ''count'' (show_int j) [(''md5'', md5)]) (tables w)) \<Longrightarrow>
      removed w' = removed w \<Longrightarrow> Q (True, w')"
  shows "ok Q (run_sql e f [Num j, Str md5] w)"
proof (rule ok_run_sql)
  show "sql_parse (fmt f [Num j, Str md5]) = Some (Update ''file_info'' ''count'' (show_int j) [(''md5'', md5)])"
    using assms(3,4) by (auto simp: sql_set_count plain_text_def)
qed (use assms in \<open>auto simp: stored_simps stored_int simp del: exec.simps\<close>)

lemma ok_insert_user_file:
  assumes "fields_ok user md5 filename"
    and fails: "\<And>w'. same w w' \<Longrightarrow> Q (False, w')"
    and works: "\<And>w' new. tables w' = (tables w)(''user_file_list'' := tables w ''user_file_list'' @ [new]) \<Longrightarrow>
      new ''md5'' = Some md5 \<Longrightarrow> removed w' = removed w \<Longrightarrow> Q (True, w')"
  shows "ok Q (run_sql e INSERT_USER_FILE
    [Str user, Str md5, Str (strftime_now e w), Str filename, Num 0, Num 0] w)"
  by (rule ok_run_sql [OF sql_insert_user_file])
    (use assms stored_int [of 0 "''user_file_list''"] in
      \<open>auto simp: stored_simps key_clash_def unique_keys_def intro!: works\<close>)

lemma inv_add_reference:
  assumes f: "fields_ok user md5 filename" and inv: "refcount_inv colleq (tables w)"
    and i: "counted colleq (tables w) md5 i" "int (refs colleq (tables w) md5) \<le> i" "i < 2 ^ 31 - 1"
  shows "ok (\<lambda>(_, w'). refcount_inv colleq (tables w') \<and> removed w' = removed w)
    (add_reference e user md5 filename (show_int i) w)"
proof -
  have b: "- (2 ^ 31) \<le> i + 1" "i + 1 < 2 ^ 31" using i by simp_all
  have n: "wrap32 (atoi (show_int i) + 1) = i + 1" using i by (simp add: atoi_show_int wrap32_id)
  let ?d = "snd (exec colleq (Update ''file_info'' ''count'' (show_int (i + 1)) [(''md5'', md5)]) (tables w))"
  have d: "refcount_inv colleq ?d" "slack colleq ?d md5"
    using inv_update_count [OF inv _ _ refl, of md5 "i + 1"] slack_update_count [OF i(1) _ _ refl, of "i + 1"] i(2,3)
    by simp_all
  have new: "refcount_inv colleq (tables w2)"
    if "tables w1 = ?d" "new ''md5'' = Some md5"
      "tables w2 = (tables w1)(''user_file_list'' := tables w1 ''user_file_list'' @ [new])" for w1 w2 new
    using inv_insert_ref [of ?d md5 new] d that by simp
  show ?thesis
    unfolding add_reference_def ok_simps n
    by (auto intro!: ok_set_count [OF b] ok_insert_user_file [OF f] ok_count_user_file intro: new
      dest!: same_refsD simp: ok_simps unchanged_def d inv i fields_ok_simps [OF f] simp del: exec.simps)
qed


lemma ok_owned:
  assumes "\<And>a b w'. same w w' \<Longrightarrow> Q (a, b, w')"
  shows "ok Q (query_one e ''select * from user_file_list where user = `%s` and md5 = `%s` and filename = `%s`'' args buf w)"
  by (rule ok_select_text) (simp_all add: select_textI assms)

lemma inv_deal_md5:
  assumes f: "fields_ok user md5 filename" and inv: "refcount_inv colleq (tables w)"
    and room: "\<And>i. counted colleq (tables w) md5 i \<Longrightarrow> i < 2 ^ 31 - 1"
  shows "ok (\<lambda>(_, w'). refcount_inv colleq (tables w') \<and> removed w' = removed w) (deal_md5 e c user md5 filename w)"
  unfolding deal_md5_def deal_md5_body_def ok_simps
  by (auto intro!: ok_connect_mysql ok_select_count ok_owned ok_answer_status ok_mono [OF inv_add_reference [OF f]]
      simp: ok_simps unchanged_def inv fields_ok_simps [OF f] dest: room [simplified])

lemma inv_save_file:
  assumes f: "fields_ok user md5 filename" and inv: "refcount_inv colleq (tables w)"
    and room: "\<And>i. counted colleq (tables w) md5 i \<Longrightarrow> i < 2 ^ 31 - 1"
  shows "ok (\<lambda>(_, w'). refcount_inv colleq (tables w') \<and> removed w' = removed w) (save_file e c user md5 filename w)"
  unfolding save_file_def save_file_body_def ok_simps
  by (auto intro!: ok_connect_mysql ok_select_count ok_owned ok_answer_status ok_mono [OF inv_add_reference [OF f]]
      simp: ok_simps unchanged_def inv fields_ok_simps [OF f] dest: room [simplified])

subsection \<open>Deleting a reference\<close>

lemma neutral_texts:
  assumes "fields_ok user md5 filename" "plain_text 128 u"
  shows "neutral_text ''delete from share_file_list where user = `%s` and md5 = `%s` and filename = `%s`''
       [Str user, Str md5, Str filename]"
    "neutral_text ''update user_file_count set count = %d where user = `%s`'' [Num (wrap32 i), Str u]"
    "neutral_text ''delete from user_file_count where user = `%s`'' [Str u]"
  using assms wrap32_range [of i] fields_ok_simps [OF assms(1)]
  by (simp_all add: neutral_text_def neutral_def sql_texts plain_text_def stored_simps stored_int)

lemma ok_shared_state:
  assumes "\<And>a w'. same_files view w w' \<Longrightarrow> Q (a, w')"
  shows "ok Q (shared_state e user md5 filename fileid w)"
  by (auto simp: shared_state_def ok_simps unchanged_def same_files_def select_textI
      intro!: ok_rop ok_select_text assms)

lemma ok_del_share:
  assumes "fields_ok user md5 filename" and Q: "\<And>a b w'. same_files view w w' \<Longrightarrow> Q (a, b, w')"
  shows "ok Q (del_share e user md5 filename fileid flag tmp w)"
  by (auto simp: del_share_def ok_simps unchanged_def same_files_def neutral_texts [OF assms(1) share_count_user(1)] select_textI
      intro!: ok_rop ok_select_text ok_neutral Q)

lemma slack_delete:
  assumes inv: "refcount_inv colleq d" and own: "owns colleq d user md5 filename"
    and d': "d' = snd (exec colleq (Delete ''user_file_list'' [(''user'', user), (''md5'', md5), (''filename'', filename)]) d)"
  shows "refcount_inv colleq d'" "slack colleq d' md5"
proof -
  have c: "counts colleq d' = counts colleq d" by (rule counts_cong) (simp add: d')
  then show "refcount_inv colleq d'" by (rule inv_fewer_refs [OF inv]) (unfold d', rule refs_delete_le)
  have "refs colleq d' md5 < refs colleq d md5"
    using own by (auto simp: owns_def list_ex_iff d' matches_def simp del: exec.simps intro!: refs_delete_less)
  with inv c show "slack colleq d' md5"
    by (cases rule: inv_cases [where m = md5]) (auto simp: slack_def counted_def)
qed

lemma inv_del_user_file:
  assumes f: "fields_ok user md5 filename" and inv: "refcount_inv colleq (tables w)"
    and own: "owns colleq (tables w) user md5 filename"
  shows "ok (\<lambda>(ret, _, w'). refcount_inv colleq (tables w') \<and> removed w' = removed w \<and>
      (ret = 0 \<longrightarrow> slack colleq (tables w') md5)) (del_user_file e user md5 filename tmp w)"
proof -
  have keep: "refcount_inv colleq (tables w')" "owns colleq (tables w') user md5 filename"
    if "same_files view w w'" for w'
    using inv own same_filesD [OF that] by simp_all
  have u: "plain_text 128 user" using f by simp
  have del: "ok Q (run_sql e ''delete from user_file_list where user = `%s` and md5 = `%s` and filename = `%s`''
      [Str user, Str md5, Str filename] w1)"
    if w1: "same_files view w w1"
      and Q: "\<And>w'. refcount_inv colleq (tables w') \<Longrightarrow> removed w' = removed w \<Longrightarrow> Q (False, w')"
        "\<And>w'. refcount_inv colleq (tables w') \<Longrightarrow> removed w' = removed w \<Longrightarrow> slack colleq (tables w') md5 \<Longrightarrow> Q (True, w')"
    for Q w1
    by (rule ok_run_sql [OF sql_delete_user_file])
      (use f keep [OF w1] w1 slack_delete [OF keep [OF w1] refl] in
        \<open>auto simp: stored_simps unchanged_def same_files_def simp del: exec.simps intro!: Q\<close>)
  show ?thesis
    by (auto simp: del_user_file_def ok_simps inv unchanged_def same_files_def keep select_textI
        intro!: ok_select_text ok_neutral [OF neutral_texts(2) [OF f u]] ok_neutral [OF neutral_texts(3) [OF f u]] del)
qed

lemma slack_counted:
  assumes "slack colleq d m" "counted colleq d m i" "atoi (show_int i) = i"
  shows "int (refs colleq d m) < i"
proof -
  obtain j where j: "counted colleq d m j" "int (refs colleq d m) < j" "j < 2 ^ 31"
    using assms(1) by (auto simp: slack_def)
  then have eq: "show_int j = show_int i" using assms(2) by (simp add: counted_def)
  have "atoi (show_int j) = j" by (rule atoi_show_int) (use j in simp_all)
  then have "j = i" using assms(3) unfolding eq by (rule trans [OF sym])
  then show ?thesis using j by simp
qed

lemma ok_select_file_id:
  assumes "\<And>a b w'. same w w' \<Longrightarrow> Q (a, b, w')"
  shows "ok Q (query_one e ''select file_id from file_info where md5 = `%s`'' args buf w)"
  by (rule ok_select_text) (simp_all add: select_textI assms)

lemma ok_delete_file:
  assumes "plain_text 200 md5" "refcount_inv colleq (tables w)" "refs colleq (tables w) md5 = 0"
    and "\<And>w' a. refcount_inv colleq (tables w') \<Longrightarrow> refs colleq (tables w') = refs colleq (tables w) \<Longrightarrow>
      removed w' = removed w \<Longrightarrow> Q (a, w')"
  shows "ok Q (run_sql e ''delete from file_info where md5 = `%s`'' [Str md5] w)"
proof (rule ok_run_sql [OF sql_delete_file])
  fix w'
  assume d: "tables w' = snd (exec colleq (Delete ''file_info'' [(''md5'', md5)]) (tables w))" "removed w' = removed w"
  show "Q (True, w')"
    by (rule assms(4)) (use d inv_delete_file [OF assms(2,3) d(1)] in \<open>auto intro: refs_cong\<close>)
qed (use assms in \<open>auto simp: plain_text_def stored_simps unchanged_def\<close>)

lemma ok_remove_file:
  assumes "\<And>a w'. tables w' = tables w \<Longrightarrow> Q (a, w')"
  shows "ok Q (remove_file_from_storage e fileid w)"
  using assms by (auto simp: remove_file_from_storage_def system_def ok_simps keep_system intro!: okI)

lemma inv_del_reference:
  assumes md5: "plain_text 200 md5" and inv: "refcount_inv colleq (tables w)" and sl: "slack colleq (tables w) md5"
  shows "ok (\<lambda>(_, w'). refcount_inv colleq (tables w') \<and> (removed w' = removed w \<or> refs colleq (tables w') md5 = 0))
    (del_reference e md5 tmp w)"
proof -
  have step: "ok Q (run_sql e ''update file_info set count=%d where md5 = `%s`'' [Num (wrap32 (i - 1)), Str md5] w1)"
    if w1: "tables w1 = tables w" "removed w1 = removed w" and i: "int (refs colleq (tables w) md5) < i" "i < 2 ^ 31"
      and Q: "\<And>a w'. refcount_inv colleq (tables w') \<Longrightarrow> refs colleq (tables w') = refs colleq (tables w) \<Longrightarrow>
        removed w' = removed w \<Longrightarrow> Q (a, w')" for Q i w1
  proof -
    have n: "wrap32 (i - 1) = i - 1" using i by (simp add: wrap32_id)
    have iv: "refcount_inv colleq (snd (exec colleq (Update ''file_info'' ''count'' (show_int (i - 1)) [(''md5'', md5)]) (tables w)))"
      by (rule inv_update_count [OF inv _ _ refl]) (use i in simp_all)
    show ?thesis unfolding n
    proof (rule ok_set_count)
      fix w'
      assume "tables w' = snd (exec colleq (Update ''file_info'' ''count'' (show_int (i - 1)) [(''md5'', md5)]) (tables w1))"
        "removed w' = removed w1"
      with w1 inv i show "Q (True, w')"
        by (intro Q) (auto simp: refs_update_other iv simp del: exec.simps)
    qed (use i md5 inv w1 in \<open>auto simp: unchanged_def intro!: Q\<close>)
  qed
  have low: "refs colleq (tables w) md5 = 0" if "wrap32 (i - 1) = 0" "int (refs colleq (tables w) md5) < i" "i < 2 ^ 31" for i
    using that by (simp add: wrap32_id)
  show ?thesis
    unfolding del_reference_def Let_def ok_simps
    by (auto intro!: ok_select_count step ok_select_file_id ok_delete_file ok_remove_file
        simp: ok_simps unchanged_def inv md5 intro: slack_counted [OF sl] dest: low)
qed

lemma inv_del_file:
  assumes f: "fields_ok user md5 filename" and inv: "refcount_inv colleq (tables w)"
    and own: "owns colleq (tables w) user md5 filename"
  shows "ok (\<lambda>(_, w'). refcount_inv colleq (tables w') \<and> (removed w' = removed w \<or> refs colleq (tables w') md5 = 0))
    (del_file e c user md5 filename w)"
proof -
  let ?P = "\<lambda>w'. refcount_inv colleq (tables w') \<and> (removed w' = removed w \<or> refs colleq (tables w') md5 = 0)"
  have keep: "refcount_inv colleq (tables w')" "owns colleq (tables w') user md5 filename"
    if "same_files view w w'" for w'
    using inv own same_filesD [OF that] by simp_all
  have "ok (\<lambda>(_, w'). ?P w') (del_file_body e c user md5 filename w)"
    unfolding del_file_body_def ok_simps
    by (auto intro!: ok_redis_connect ok_connect_mysql ok_shared_state ok_del_share [OF f]
          ok_mono [OF inv_del_user_file [OF f]] ok_mono [OF inv_del_reference]
        simp: ok_simps unchanged_def same_files_def inv keep fields_ok_simps [OF f] split: option.split)
  then show ?thesis
    unfolding del_file_def ok_simps by (rule ok_mono) (auto intro!: ok_answer_status simp: unchanged_def)
qed

subsection \<open>A new file\<close>

lemma plain_suffix: "plain name \<Longrightarrow> get_file_suffix SUFFIX_LEN name = Some t \<Longrightarrow> plain_text 20 t"
  by (auto simp: get_file_suffix_def SUFFIX_LEN_def plain_text_def plain_def code_def Let_def list_all_iff
      dest: in_set_dropD split: if_splits)

lemma ok_suffix:
  assumes "plain name" "\<And>t. plain_text 20 t \<Longrightarrow> Q t" shows "ok Q (get_file_suffix SUFFIX_LEN name)"
  using assms plain_suffix by (blast intro: okI)

lemma ok_insert_file:
  assumes "plain_text 200 md5" "plain_text 256 fileid" "plain_text 512 url" "plain_text 20 suffix"
    and "- (2 ^ 63) \<le> sz" "sz < 2 ^ 63" and inv: "refcount_inv colleq (tables w)"
    and "\<And>w'. same w w' \<Longrightarrow> Q (False, w')"
    and "\<And>w'. refcount_inv colleq (tables w') \<Longrightarrow> slack colleq (tables w') md5 \<Longrightarrow> removed w' = removed w \<Longrightarrow> Q (True, w')"
  shows "ok Q (run_sql e ''insert into file_info (md5, file_id, url, size, type, count) values (`%s`, `%s`, `%s`, `%ld`, `%s`, %d)''
    [Str md5, Str fileid, Str url, Num sz, Str suffix, Num 1] w)"
proof (rule ok_run_sql [OF sql_insert_file])
  let ?new = "map_of (zip [''md5'', ''file_id'', ''url'', ''size'', ''type'', ''count'']
    [md5, fileid, url, show_int sz, suffix, show_int 1])"
  fix w'
  assume d: "tables w' = snd (exec colleq (Insert ''file_info'' [''md5'', ''file_id'', ''url'', ''size'', ''type'', ''count'']
      [md5, fileid, url, show_int sz, suffix, show_int 1]) (tables w))" "removed w' = removed w"
    and worked: "fst (exec colleq (Insert ''file_info'' [''md5'', ''file_id'', ''url'', ''size'', ''type'', ''count'']
      [md5, fileid, url, show_int sz, suffix, show_int 1]) (tables w)) \<noteq> SqlError"
  then have fresh: "\<not> key_clash colleq ''file_info'' ?new (tables w ''file_info'')"
    and d': "tables w' = (tables w)(''file_info'' := tables w ''file_info'' @ [?new])"
    by (auto simp: Let_def simp del: zip_Cons_Cons split: if_splits)
  show "Q (True, w')"
    using assms(9) inv_insert_file [OF inv fresh _ _ d', of md5] d(2) by simp
next
  show "stmt_ok (Insert ''file_info'' [''md5'', ''file_id'', ''url'', ''size'', ''type'', ''count'']
      [md5, fileid, url, show_int sz, suffix, show_int 1])"
    using assms(1-6) strtol_show_int [of sz] strtol_show_int [of 1] by (simp add: stored_def schema_def)
qed (use assms in \<open>auto simp: plain_text_def\<close>)

lemma inv_store_fileinfo:
  assumes f: "fields_ok (u_user u) (u_md5 u) (u_filename u)" and inv: "refcount_inv colleq (tables w)"
    and "plain_text 256 fileid" "plain_text 512 url" "- (2 ^ 63) \<le> u_size u" "u_size u < 2 ^ 63"
  shows "ok (\<lambda>(_, w'). refcount_inv colleq (tables w') \<and> removed w' = removed w)
    (store_fileinfo_to_mysql e c u fileid url w)"
proof -
  have new: "refcount_inv colleq (tables w2)"
    if "refcount_inv colleq (tables w1)" "slack colleq (tables w1) (u_md5 u)" "new ''md5'' = Some (u_md5 u)"
      "tables w2 = (tables w1)(''user_file_list'' := tables w1 ''user_file_list'' @ [new])" for w1 w2 new
    using inv_insert_ref [of "tables w1" "u_md5 u" new] that by simp
  show ?thesis
    unfolding store_fileinfo_to_mysql_def ok_simps
    by (auto intro!: ok_connect_mysql ok_suffix ok_insert_file ok_insert_user_file [OF f] ok_count_user_file
        dest!: same_refsD dest: new simp: ok_simps unchanged_def inv assms(3,4) assms(5,6) [simplified] fields_ok_simps [OF f])
qed

end
end
