(* ===== verification/Reliable.thy ===== *)
theory Reliable
  imports Refcount_Programs
begin

text \<open>
  Runs of the programs on a server that never fails: connections are established, and a statement of
  the described part has its effect, or fails because of a unique key. Here the programs have a definite
  outcome, and the rules are about \<open>runs\<close>.
\<close>

locale reliable = database colleq e view
  for colleq :: "string \<Rightarrow> string \<Rightarrow> bool" and e :: "'x env" and view :: "'x \<Rightarrow> db" +
  assumes exact: "sql_parse q = Some s \<Longrightarrow> stmt_ok s \<Longrightarrow>
      reply_agrees s (fst (env_mysql_query e q x)) (fst (exec colleq s (view x))) \<and>
      view (snd (env_mysql_query e q x)) = snd (exec colleq s (view x))"
    and mysql_up: "fst (env_mysql_connect e u p d x)"
    and redis_up: "fst (env_redis_connect e a x) = Conn_ok"
    and clock_short: "length (env_now e x) \<le> 32"
begin

lemma runs_connect_mysql:
  assumes "\<And>w'. same w w' \<Longrightarrow> Q (True, w')" shows "runs Q (connect_mysql e c w)"
proof -
  have "view (snd (env_mysql_query e ''set names utf8'' x)) = view x" for x
    using exact [OF sql_set_names, of x] by auto
  then show ?thesis
    using assms mysql_up by (simp add: connect_mysql_def msql_conn_def mysql_query_def runs_simps unchanged_def keep_connect)
qed

lemma runs_connect_redis:
  assumes "\<And>w'. same w w' \<Longrightarrow> Q (True, w')" shows "runs Q (rop_connectdb_nopwd e ip port w)"
  using assms redis_up
  by (simp add: rop_connectdb_nopwd_def redis_connect_def runs_simps unchanged_def keep_redis_connect Redis_Op.connected_def)

lemma runs_run_sql:
  assumes parse: "sql_parse (fmt f args) = Some s" and sok: "stmt_ok s" and len: "length (fmt f args) < SQL_MAX_LEN"
    and Q: "\<And>w'. tables w' = snd (exec colleq s (tables w)) \<Longrightarrow> removed w' = removed w \<Longrightarrow>
      Q (fst (exec colleq s (tables w)) \<noteq> SqlError, w')"
  shows "runs Q (run_sql e f args w)"
proof -
  have agree: "reply_agrees s r r' \<Longrightarrow> (r = SqlError) = (r' = SqlError)" for r r'
    by (cases s) (auto split: if_splits sql_reply.splits)
  have "(fst (env_mysql_query e (fmt f args) (ext w)) = SqlError) = (fst (exec colleq s (tables w)) = SqlError)"
    using agree exact [OF parse sok] by blast
  then show ?thesis
    using len Q exact [OF parse sok, of "ext w"] by (simp add: run_sql_def sql_text_def runs_simps mysql_query_def)
qed

lemma runs_process_result_one:
  assumes parse: "sql_parse q = Some (Select col t cs)" and sok: "stmt_ok (Select col t cs)"
    and col: "buf \<noteq> None \<Longrightarrow> col \<noteq> ''*''"
    and small: "\<And>r rs s. buf \<noteq> None \<Longrightarrow> filter (matches colleq cs) (tables w t) = r # rs \<Longrightarrow> r col = Some s \<Longrightarrow> length s < cap"
    and Q: "\<And>w'. same w w' \<Longrightarrow> w' = (logged (Sql q) w)\<lparr>ext := snd (env_mysql_query e q (ext w))\<rparr> \<Longrightarrow>
      (case filter (matches colleq cs) (tables w t) of
         [] \<Rightarrow> Q (1, case buf of None \<Rightarrow> [] | Some b \<Rightarrow> b, w')
       | r # rs \<Rightarrow>
           (case buf of
              None \<Rightarrow> Q (2, [], w')
            | Some b \<Rightarrow> Q (0, case r col of None \<Rightarrow> b | Some s \<Rightarrow> s, w')))"
  shows "runs Q (process_result_one e cap q buf w)"
proof -
  let ?q = "env_mysql_query e q (ext w)" and ?rows = "filter (matches colleq cs) (tables w t)"
  have same: "same w ((logged (Sql q) w)\<lparr>ext := snd ?q\<rparr>)" using exact [OF parse sok, of "ext w"] by (auto simp: unchanged_def)
  obtain rs where rs: "fst ?q = SqlRows rs" "length rs = length ?rows" "col \<noteq> ''*'' \<Longrightarrow> rs = map (project col t) ?rows"
    using exact [OF parse sok, of "ext w"] by (cases "fst ?q") (auto split: if_splits)
  note run = process_result_one_def mysql_query_def external_def split_beta runs_simps
  show ?thesis
  proof (cases ?rows)
    case Nil
    then show ?thesis using rs Q [OF same refl] by (simp add: run)
  next
    case (Cons r rr)
    show ?thesis
    proof (cases buf)
      case None
      then show ?thesis using rs Q [OF same refl] Cons by (auto simp: run)
    next
      case (Some b)
      then show ?thesis using rs Q [OF same refl] Cons col small [OF _ Cons] by (cases "r col") (simp_all add: run project_def)
    qed
  qed
qed

lemma runs_query_one:
  assumes parse: "sql_parse (fmt f args) = Some (Select col t cs)" and sok: "stmt_ok (Select col t cs)"
    and len: "length (fmt f args) < SQL_MAX_LEN" and col: "buf \<noteq> None \<Longrightarrow> col \<noteq> ''*''"
    and small: "\<And>r rs s. buf \<noteq> None \<Longrightarrow> filter (matches colleq cs) (tables w t) = r # rs \<Longrightarrow> r col = Some s \<Longrightarrow> length s < 512"
    and Q: "\<And>w'. same w w' \<Longrightarrow>
      (case filter (matches colleq cs) (tables w t) of
         [] \<Rightarrow> Q (1, case buf of None \<Rightarrow> [] | Some b \<Rightarrow> b, w')
       | r # rs \<Rightarrow>
           (case buf of
              None \<Rightarrow> Q (2, [], w')
            | Some b \<Rightarrow> Q (0, case r col of None \<Rightarrow> b | Some s \<Rightarrow> s, w')))"
  shows "runs Q (query_one e f args buf w)"
  using runs_process_result_one [OF parse sok col small Q] len by (simp add: query_one_def sql_text_def runs_simps)

end

end
