(* ===== verification/Redis_Spec.thy ===== *)
theory Redis_Spec
  imports Redis_Op
begin

text \<open>
  The part of Redis that the token check relies on, as its documentation describes it: \<open>SETEX\<close> stores a
  text under a key, \<open>GET\<close> returns it. The laws of the locale \<open>redis_server\<close> are about the time before the
  keys expire; a command may also stay without a reply, when the connection breaks.
\<close>

type_synonym keys = "string \<Rightarrow> string option"

definition redis_exec :: "string list \<Rightarrow> keys \<Rightarrow> redisReply \<times> keys" where
  "redis_exec argv k =
    (case argv of
       [cmd, key] \<Rightarrow>
         if cmd = ''get'' then (case k key of None \<Rightarrow> R_NIL | Some v \<Rightarrow> R_STRING v, k) else (R_ERROR [], k)
     | [cmd, key, ttl, v] \<Rightarrow>
         if cmd = ''setex'' \<and> 0 < strtol ttl then (R_STATUS ''OK'', k(key \<mapsto> v)) else (R_ERROR [], k)
     | _ \<Rightarrow> (R_ERROR [], k))"

fun described :: "string list \<Rightarrow> bool" where
  "described [cmd, key] = (cmd = ''get'')"
| "described [cmd, key, ttl, v] = (cmd = ''setex'' \<and> 0 < strtol ttl)"
| "described _ = False"

locale redis_server =
  fixes redis :: "string list \<Rightarrow> 'x \<Rightarrow> redisReply option \<times> 'x"
    and connect :: "address \<Rightarrow> 'x \<Rightarrow> connection \<times> 'x"
    and keys :: "'x \<Rightarrow> keys"
  assumes redis_law: "described argv \<Longrightarrow>
      (fst (redis argv x) = None \<and> keys (snd (redis argv x)) = keys x) \<or>
      (fst (redis argv x) = Some (fst (redis_exec argv (keys x))) \<and>
       keys (snd (redis argv x)) = snd (redis_exec argv (keys x)))"
    and connect_law: "keys (snd (connect a x)) = keys x"

lemma format_get: "redisFormatCommand ''get %s'' [Str key] = Formatted [''get'', key]"
  by (simp add: redisFormatCommand_def)

lemma format_setex:
  "redisFormatCommand ''setex %s %u %s'' [Str key, Num n, Str v] = Formatted [''setex'', key, show_int n, v]"
  by (simp add: redisFormatCommand_def int_conversion_def skip_modifier_def)

end
