(* ===== verification/MD5_Digest.thy ===== *)
theory MD5_Digest
  imports HF_Prelude
begin

text \<open>
  The MD5 digest of \<^verbatim>\<open>common/md5.c\<close> and \<^verbatim>\<open>include/md5.h\<close>. Words are 32-bit and wrap,
  \<open>count\<close> is the 64-bit bit counter kept in two words, \<open>buffer\<close> the 64-byte block being filled.
  The loop of \<open>MD5Update\<close> over whole blocks of the input is \<open>md5_blocks\<close>. The results: the
  incremental interface (any split of the input into updates) computes the one-shot digest of
  the padded message.
\<close>

type_synonym chain = "u32 \<times> u32 \<times> u32 \<times> u32"

record MD5_CTX =
  count :: "u32 \<times> u32"
  state :: chain
  buffer :: "byte list"

subsection \<open>The round macros\<close>

definition md5_F :: "u32 \<Rightarrow> u32 \<Rightarrow> u32 \<Rightarrow> u32" where
  "md5_F x y z = (x AND y) OR (NOT x AND z)"

definition md5_G :: "u32 \<Rightarrow> u32 \<Rightarrow> u32 \<Rightarrow> u32" where
  "md5_G x y z = (x AND z) OR (y AND NOT z)"

definition md5_H :: "u32 \<Rightarrow> u32 \<Rightarrow> u32 \<Rightarrow> u32" where
  "md5_H x y z = x XOR y XOR z"

definition md5_I :: "u32 \<Rightarrow> u32 \<Rightarrow> u32 \<Rightarrow> u32" where
  "md5_I x y z = y XOR (x OR NOT z)"

definition ROTATE_LEFT :: "u32 \<Rightarrow> nat \<Rightarrow> u32" where
  "ROTATE_LEFT x n = push_bit n x OR drop_bit (32 - n) x"

definition FF :: "u32 \<Rightarrow> u32 \<Rightarrow> u32 \<Rightarrow> u32 \<Rightarrow> u32 \<Rightarrow> nat \<Rightarrow> u32 \<Rightarrow> u32" where
  "FF a b c d x s ac = ROTATE_LEFT (a + (md5_F b c d + x + ac)) s + b"

definition GG :: "u32 \<Rightarrow> u32 \<Rightarrow> u32 \<Rightarrow> u32 \<Rightarrow> u32 \<Rightarrow> nat \<Rightarrow> u32 \<Rightarrow> u32" where
  "GG a b c d x s ac = ROTATE_LEFT (a + (md5_G b c d + x + ac)) s + b"

definition HH :: "u32 \<Rightarrow> u32 \<Rightarrow> u32 \<Rightarrow> u32 \<Rightarrow> u32 \<Rightarrow> nat \<Rightarrow> u32 \<Rightarrow> u32" where
  "HH a b c d x s ac = ROTATE_LEFT (a + (md5_H b c d + x + ac)) s + b"

definition II :: "u32 \<Rightarrow> u32 \<Rightarrow> u32 \<Rightarrow> u32 \<Rightarrow> u32 \<Rightarrow> nat \<Rightarrow> u32 \<Rightarrow> u32" where
  "II a b c d x s ac = ROTATE_LEFT (a + (md5_I b c d + x + ac)) s + b"

subsection \<open>Words and bytes\<close>

fun MD5Encode :: "u32 list \<Rightarrow> byte list" where
  "MD5Encode [] = []"
| "MD5Encode (w # ws) =
     [ucast (w AND 0xFF), ucast (drop_bit 8 w AND 0xFF),
      ucast (drop_bit 16 w AND 0xFF), ucast (drop_bit 24 w AND 0xFF)] @ MD5Encode ws"

fun MD5Decode :: "byte list \<Rightarrow> u32 list" where
  "MD5Decode (b0 # b1 # b2 # b3 # bs) =
     (ucast b0 OR push_bit 8 (ucast b1) OR push_bit 16 (ucast b2) OR push_bit 24 (ucast b3))
     # MD5Decode bs"
| "MD5Decode _ = []"

subsection \<open>The compression function\<close>

definition MD5Transform :: "chain \<Rightarrow> byte list \<Rightarrow> chain" where
  "MD5Transform s block =
    (let (a0, b0, c0, d0) = s; x = MD5Decode block in
     let a = a0; b = b0; c = c0; d = d0 in
     let a = FF a b c d (x ! 0) 7 0xd76aa478 in
     let d = FF d a b c (x ! 1) 12 0xe8c7b756 in
     let c = FF c d a b (x ! 2) 17 0x242070db in
     let b = FF b c d a (x ! 3) 22 0xc1bdceee in
     let a = FF a b c d (x ! 4) 7 0xf57c0faf in
     let d = FF d a b c (x ! 5) 12 0x4787c62a in
     let c = FF c d a b (x ! 6) 17 0xa8304613 in
     let b = FF b c d a (x ! 7) 22 0xfd469501 in
     let a = FF a b c d (x ! 8) 7 0x698098d8 in
     let d = FF d a b c (x ! 9) 12 0x8b44f7af in
     let c = FF c d a b (x ! 10) 17 0xffff5bb1 in
     let b = FF b c d a (x ! 11) 22 0x895cd7be in
     let a = FF a b c d (x ! 12) 7 0x6b901122 in
     let d = FF d a b c (x ! 13) 12 0xfd987193 in
     let c = FF c d a b (x ! 14) 17 0xa679438e in
     let b = FF b c d a (x ! 15) 22 0x49b40821 in
     let a = GG a b c d (x ! 1) 5 0xf61e2562 in
     let d = GG d a b c (x ! 6) 9 0xc040b340 in
     let c = GG c d a b (x ! 11) 14 0x265e5a51 in
     let b = GG b c d a (x ! 0) 20 0xe9b6c7aa in
     let a = GG a b c d (x ! 5) 5 0xd62f105d in
     let d = GG d a b c (x ! 10) 9 0x2441453 in
     let c = GG c d a b (x ! 15) 14 0xd8a1e681 in
     let b = GG b c d a (x ! 4) 20 0xe7d3fbc8 in
     let a = GG a b c d (x ! 9) 5 0x21e1cde6 in
     let d = GG d a b c (x ! 14) 9 0xc33707d6 in
     let c = GG c d a b (x ! 3) 14 0xf4d50d87 in
     let b = GG b c d a (x ! 8) 20 0x455a14ed in
     let a = GG a b c d (x ! 13) 5 0xa9e3e905 in
     let d = GG d a b c (x ! 2) 9 0xfcefa3f8 in
     let c = GG c d a b (x ! 7) 14 0x676f02d9 in
     let b = GG b c d a (x ! 12) 20 0x8d2a4c8a in
     let a = HH a b c d (x ! 5) 4 0xfffa3942 in
     let d = HH d a b c (x ! 8) 11 0x8771f681 in
     let c = HH c d a b (x ! 11) 16 0x6d9d6122 in
     let b = HH b c d a (x ! 14) 23 0xfde5380c in
     let a = HH a b c d (x ! 1) 4 0xa4beea44 in
     let d = HH d a b c (x ! 4) 11 0x4bdecfa9 in
     let c = HH c d a b (x ! 7) 16 0xf6bb4b60 in
     let b = HH b c d a (x ! 10) 23 0xbebfbc70 in
     let a = HH a b c d (x ! 13) 4 0x289b7ec6 in
     let d = HH d a b c (x ! 0) 11 0xeaa127fa in
     let c = HH c d a b (x ! 3) 16 0xd4ef3085 in
     let b = HH b c d a (x ! 6) 23 0x4881d05 in
     let a = HH a b c d (x ! 9) 4 0xd9d4d039 in
     let d = HH d a b c (x ! 12) 11 0xe6db99e5 in
     let c = HH c d a b (x ! 15) 16 0x1fa27cf8 in
     let b = HH b c d a (x ! 2) 23 0xc4ac5665 in
     let a = II a b c d (x ! 0) 6 0xf4292244 in
     let d = II d a b c (x ! 7) 10 0x432aff97 in
     let c = II c d a b (x ! 14) 15 0xab9423a7 in
     let b = II b c d a (x ! 5) 21 0xfc93a039 in
     let a = II a b c d (x ! 12) 6 0x655b59c3 in
     let d = II d a b c (x ! 3) 10 0x8f0ccc92 in
     let c = II c d a b (x ! 10) 15 0xffeff47d in
     let b = II b c d a (x ! 1) 21 0x85845dd1 in
     let a = II a b c d (x ! 8) 6 0x6fa87e4f in
     let d = II d a b c (x ! 15) 10 0xfe2ce6e0 in
     let c = II c d a b (x ! 6) 15 0xa3014314 in
     let b = II b c d a (x ! 13) 21 0x4e0811a1 in
     let a = II a b c d (x ! 4) 6 0xf7537e82 in
     let d = II d a b c (x ! 11) 10 0xbd3af235 in
     let c = II c d a b (x ! 2) 15 0x2ad7d2bb in
     let b = II b c d a (x ! 9) 21 0xeb86d391 in
     (a0 + a, b0 + b, c0 + c, d0 + d))"

subsection \<open>The incremental interface\<close>

definition PADDING :: "byte list" where
  "PADDING = 0x80 # replicate 63 0"

definition MD5Init :: "byte list \<Rightarrow> MD5_CTX" where
  "MD5Init stale = \<lparr>count = (0, 0),
     state = (0x67452301, 0xEFCDAB89, 0x98BADCFE, 0x10325476), buffer = stale\<rparr>"

function md5_blocks :: "chain \<Rightarrow> byte list \<Rightarrow> chain \<times> byte list" where
  "md5_blocks s input =
     (if 64 \<le> length input then md5_blocks (MD5Transform s (take 64 input)) (drop 64 input)
      else (s, input))"
  by pat_completeness auto
termination
  by (relation "measure (\<lambda>(s, input). length input)") auto

declare md5_blocks.simps [simp del]

definition MD5Update :: "MD5_CTX \<Rightarrow> byte list \<Rightarrow> MD5_CTX" where
  "MD5Update context input =
    (let inputlen = word_of_nat (length input) :: u32;
         (lo, hi) = count context;
         index = unat (drop_bit 3 lo AND 0x3F);
         partlen = 64 - index;
         lo' = lo + push_bit 3 inputlen;
         hi' = (if lo' < push_bit 3 inputlen then hi + 1 else hi);
         hi'' = hi' + drop_bit 29 inputlen in
     if partlen \<le> unat inputlen then
       (let buf = memcpy_at (buffer context) index (take partlen input);
            s = MD5Transform (state context) buf;
            (s', rest) = md5_blocks s (drop partlen input) in
        context\<lparr>count := (lo', hi''), state := s', buffer := memcpy_at buf 0 rest\<rparr>)
     else
       context\<lparr>count := (lo', hi''), buffer := memcpy_at (buffer context) index input\<rparr>)"

definition MD5Final :: "MD5_CTX \<Rightarrow> byte list \<times> MD5_CTX" where
  "MD5Final context =
    (let (lo, hi) = count context;
         index = unat (drop_bit 3 lo AND 0x3F);
         padlen = (if index < 56 then 56 - index else 120 - index);
         bits = MD5Encode [lo, hi];
         context1 = MD5Update context (take padlen PADDING);
         context2 = MD5Update context1 bits;
         (a, b, c, d) = state context2 in
     (MD5Encode [a, b, c, d], context2))"

subsection \<open>Reference: the digest of a whole message\<close>

text \<open>The definition of the digest (RFC 1321): pad with \<open>0x80\<close> and zeros to 56 modulo 64 bytes,
  append the length in bits as a 64-bit little-endian number, compress block by block.\<close>

definition le64 :: "nat \<Rightarrow> byte list" where
  "le64 n = map (\<lambda>i. word_of_nat (n div 256 ^ i)) [0..<8]"

definition md5_padded :: "byte list \<Rightarrow> byte list" where
  "md5_padded msg =
    msg @ 0x80 # replicate ((119 - length msg mod 64) mod 64) 0 @ le64 (8 * length msg mod 2 ^ 64)"

definition md5_iv :: chain where
  "md5_iv = (0x67452301, 0xEFCDAB89, 0x98BADCFE, 0x10325476)"

definition md5_digest :: "byte list \<Rightarrow> byte list" where
  "md5_digest msg =
    (let (a, b, c, d) = foldl MD5Transform md5_iv (chunks 64 (md5_padded msg))
     in MD5Encode [a, b, c, d])"

subsection \<open>The block loop\<close>

lemma md5_blocks_eq:
  "md5_blocks s input = (foldl MD5Transform s (chunks 64 (whole 64 input)), tail 64 input)"
proof (induction s input rule: md5_blocks.induct)
  case (1 s input)
  show ?case
  proof (cases "64 \<le> length input")
    case True
    have split: "take 64 input @ drop 64 input = input" by simp
    have "whole 64 input = take 64 input @ whole 64 (drop 64 input)"
      and t: "tail 64 input = tail 64 (drop 64 input)"
      using whole_block [of "take 64 input" 64 "drop 64 input"]
        tail_block [of "take 64 input" 64 "drop 64 input"] True by (simp_all add: split)
    then have "chunks 64 (whole 64 input) = take 64 input # chunks 64 (whole 64 (drop 64 input))"
      using True by (simp add: chunks_append_block)
    with 1 True t show ?thesis by (simp add: md5_blocks.simps [of s input])
  next
    case False
    then show ?thesis by (simp add: md5_blocks.simps whole_short tail_short)
  qed
qed

subsection \<open>The bit counter\<close>

definition bits_of :: "u32 \<times> u32 \<Rightarrow> nat" where
  "bits_of c = unat (fst c) + 2 ^ 32 * unat (snd c)"

lemma mod_2_64_split: "x < 2 ^ 32 \<Longrightarrow> (x + 2 ^ 32 * y) mod 2 ^ 64 = x + 2 ^ 32 * (y mod 2 ^ 32)"
  for x y :: nat
  using mod_mult2_eq [of "x + 2 ^ 32 * y" "2 ^ 32" "2 ^ 32"] by simp

lemma carry_add:
  fixes a h n :: nat
  assumes "a < 2 ^ 32"
  defines "m \<equiv> 8 * n mod 2 ^ 32"
  defines "lo \<equiv> (a + m) mod 2 ^ 32"
  shows "lo + 2 ^ 32 * (((if lo < m then h + 1 else h) + n div 2 ^ 29) mod 2 ^ 32) =
    (a + 2 ^ 32 * h + 8 * n) mod 2 ^ 64"
proof -
  define q where "q = n div 2 ^ 29"
  have n8: "8 * n = m + 2 ^ 32 * q"
  proof -
    have "q = 8 * n div 2 ^ 32" by (simp add: q_def)
    then show ?thesis by (simp only: m_def mod_mult_div_eq)
  qed
  have m: "m < 2 ^ 32" by (simp add: m_def)
  have lo: "lo < 2 ^ 32" by (simp add: lo_def)
  show ?thesis
  proof (cases "a + m < 2 ^ 32")
    case True
    then have "lo = a + m" by (simp add: lo_def)
    then have "a + 2 ^ 32 * h + 8 * n = lo + 2 ^ 32 * (h + q)" "\<not> lo < m" by (simp_all add: n8)
    with lo show ?thesis by (simp only: mod_2_64_split if_False q_def)
  next
    case False
    then have "lo = a + m - 2 ^ 32"
      using assms(1) m by (simp add: lo_def mod_if)
    with False assms(1) have "a + 2 ^ 32 * h + 8 * n = lo + 2 ^ 32 * (h + 1 + q)" "lo < m"
      by (simp_all add: n8)
    with lo show ?thesis by (simp only: mod_2_64_split if_True q_def)
  qed
qed

lemma count_step:
  fixes lo hi len :: u32
  defines "lo' \<equiv> lo + push_bit 3 len"
  shows "bits_of (lo', (if lo' < push_bit 3 len then hi + 1 else hi) + drop_bit 29 len) =
    (bits_of (lo, hi) + 8 * unat len) mod 2 ^ 64"
proof -
  have len8: "unat (push_bit 3 len) = 8 * unat len mod 2 ^ 32"
    by (simp add: push_bit_eq_mult unat_word_ariths mult.commute)
  have lo': "unat lo' = (unat lo + 8 * unat len mod 2 ^ 32) mod 2 ^ 32"
    by (simp add: lo'_def unat_word_ariths len8 mod_add_right_eq)
  have hi': "unat ((if lo' < push_bit 3 len then hi + 1 else hi) + drop_bit 29 len) =
      ((if unat lo' < 8 * unat len mod 2 ^ 32 then unat hi + 1 else unat hi) + unat len div 2 ^ 29) mod 2 ^ 32"
    by (simp add: word_less_nat_alt len8 unat_word_ariths unat_drop_bit_eq drop_bit_eq_div mod_simps)
  show ?thesis
    unfolding bits_of_def fst_conv snd_conv hi' unfolding lo'
    by (rule carry_add) (use unsigned_less [of lo] in simp)
qed

lemma index_of_count:
  assumes "bits_of (lo, hi) = 8 * n mod 2 ^ 64"
  shows "unat (drop_bit 3 lo AND 0x3F) = n mod 64"
proof -
  have "unat lo = bits_of (lo, hi) mod 2 ^ 32"
    using unsigned_less [of lo, where ?'a = nat] by (simp add: bits_of_def)
  also have "\<dots> = 8 * n mod 2 ^ 32"
    unfolding assms by (simp add: mod_mod_cancel)
  finally have lo: "unat lo = 8 * n mod 2 ^ 32" .
  have "drop_bit 3 lo AND 0x3F = take_bit 6 (drop_bit 3 lo)"
    by (simp add: take_bit_eq_mask mask_eq_exp_minus_1)
  moreover have "unat (take_bit 6 (drop_bit 3 lo)) = unat lo div 8 mod 64"
    by (simp add: drop_bit_eq_div take_bit_eq_mod unat_mod_distrib unat_div_distrib)
  ultimately have "unat (drop_bit 3 lo AND 0x3F) = unat lo div 8 mod 64" by simp
  also have "\<dots> = n mod 64"
  proof -
    have "8 * n mod 2 ^ 32 = 8 * (n mod 2 ^ 29)" by (simp add: mult_mod_right)
    then show ?thesis by (simp add: lo mod_mod_cancel)
  qed
  finally show ?thesis .
qed

subsection \<open>Streaming: what a context stands for\<close>

definition md5_rel :: "MD5_CTX \<Rightarrow> byte list \<Rightarrow> bool" where
  "md5_rel ctx msg \<longleftrightarrow>
     bits_of (count ctx) = 8 * length msg mod 2 ^ 64 \<and>
     state ctx = foldl MD5Transform md5_iv (chunks 64 (whole 64 msg)) \<and>
     length (buffer ctx) = 64 \<and>
     take (length msg mod 64) (buffer ctx) = tail 64 msg"

lemma md5_rel_Init: "length stale = 64 \<Longrightarrow> md5_rel (MD5Init stale) []"
  by (simp add: md5_rel_def MD5Init_def bits_of_def md5_iv_def whole_def tail_def)

lemma state_append:
  "foldl MD5Transform md5_iv (chunks 64 (whole 64 (msg @ input))) =
   foldl MD5Transform (foldl MD5Transform md5_iv (chunks 64 (whole 64 msg)))
     (chunks 64 (whole 64 (tail 64 msg @ input)))"
  by (subst whole_append) (simp add: chunks_append dvd_length_whole)

lemma md5_rel_Update:
  assumes rel: "md5_rel ctx msg" and len: "length input < 2 ^ 32 - 64"
  shows "md5_rel (MD5Update ctx input) (msg @ input)"
proof -
  define index where "index = length msg mod 64"
  obtain lo hi where c: "count ctx = (lo, hi)" by (cases "count ctx")
  define lo' where "lo' = lo + push_bit 3 (word_of_nat (length input) :: u32)"
  define hi' where "hi' = (if lo' < push_bit 3 (word_of_nat (length input)) then hi + 1 else hi) +
    drop_bit 29 (word_of_nat (length input) :: u32)"
  have inputlen: "unat (word_of_nat (length input) :: u32) = length input"
    using len by (simp add: unat_of_nat)
  have bits: "bits_of (lo', hi') = 8 * length (msg @ input) mod 2 ^ 64"
    using rel unfolding lo'_def hi'_def count_step inputlen
    by (simp add: md5_rel_def c mod_add_left_eq mod_add_right_eq)
  have i: "unat (drop_bit 3 lo AND 0x3F) = index"
    using rel unfolding index_def by (intro index_of_count [of lo hi]) (simp add: md5_rel_def c)
  have index: "index < 64" "length (tail 64 msg) = index" by (simp_all add: index_def length_tail)
  have buf: "length (buffer ctx) = 64" "take index (buffer ctx) = tail 64 msg"
    and st: "state ctx = foldl MD5Transform md5_iv (chunks 64 (whole 64 msg))"
    using rel by (simp_all add: md5_rel_def index_def)
  show ?thesis
  proof (cases "64 - index \<le> length input")
    case True
    define block where "block = tail 64 msg @ take (64 - index) input"
    define rest where "rest = drop (64 - index) input"
    have lb: "length block = 64" and sp: "tail 64 msg @ input = block @ rest"
      using index True by (simp_all add: block_def rest_def)
    have "memcpy_at (buffer ctx) index (take (64 - index) input) = block"
      using True index buf by (simp add: memcpy_at_full block_def)
    then have upd: "MD5Update ctx input = ctx\<lparr>count := (lo', hi'),
        state := foldl MD5Transform (MD5Transform (state ctx) block) (chunks 64 (whole 64 rest)),
        buffer := memcpy_at block 0 (tail 64 rest)\<rparr>"
      using True by (simp add: MD5Update_def c i inputlen Let_def md5_blocks_eq lo'_def hi'_def rest_def)
    have t: "tail 64 (msg @ input) = tail 64 rest"
      by (subst tail_append) (simp add: sp tail_block lb)
    have "length (tail 64 rest) < 64" by (simp add: length_tail)
    then have "take (length (tail 64 rest)) (memcpy_at block 0 (tail 64 rest)) = tail 64 rest"
      and "length (memcpy_at block 0 (tail 64 rest)) = 64"
      using lb by (simp_all add: memcpy_at_def)
    moreover have "length (msg @ input) mod 64 = length (tail 64 rest)"
      by (simp only: length_tail [symmetric] t)
    moreover have "foldl MD5Transform md5_iv (chunks 64 (whole 64 (msg @ input))) =
        foldl MD5Transform (MD5Transform (state ctx) block) (chunks 64 (whole 64 rest))"
      unfolding state_append sp by (simp add: whole_block lb chunks_append_block st)
    ultimately show ?thesis
      using bits by (simp add: md5_rel_def upd t)
  next
    case False
    then have short: "length (tail 64 msg @ input) < 64" using index by simp
    have upd: "MD5Update ctx input =
        ctx\<lparr>count := (lo', hi'), buffer := memcpy_at (buffer ctx) index input\<rparr>"
      using False by (simp add: MD5Update_def c i inputlen Let_def lo'_def hi'_def)
    have t: "tail 64 (msg @ input) = tail 64 msg @ input"
      by (subst tail_append) (rule tail_short [OF short])
    have "length (msg @ input) mod 64 = index + length input"
      by (metis length_tail length_append t index(2))
    moreover have "take (index + length input) (memcpy_at (buffer ctx) index input) = tail 64 msg @ input"
      using short index buf by (simp add: take_memcpy_at)
    moreover have "foldl MD5Transform md5_iv (chunks 64 (whole 64 (msg @ input))) = state ctx"
      unfolding state_append by (simp only: whole_short [OF short] chunks_Nil foldl_Nil st)
    ultimately show ?thesis
      using bits short index buf by (simp add: md5_rel_def upd t)
  qed
qed



subsection \<open>The digest\<close>

lemma byte_of_word: "ucast (drop_bit k w) = (word_of_nat (unat w div 2 ^ k) :: byte)" for w :: u32
proof -
  have "unat (drop_bit k w) = unat w div 2 ^ k"
    by (simp only: unat_drop_bit_eq) (simp add: drop_bit_eq_div)
  then show ?thesis
    by (simp add: word_unat_eq_iff unsigned_ucast_eq unat_of_nat take_bit_eq_mod del: unat_drop_bit_eq)
qed

lemma byte_low: "(word_of_nat ((a + 2 ^ 32 * b) div 2 ^ k) :: byte) = word_of_nat (a div 2 ^ k)"
  if "k + 8 \<le> 32"
proof -
  have "(a + 2 ^ 32 * b) div 2 ^ k = a div 2 ^ k + 2 ^ 8 * (2 ^ (24 - k) * b)"
  proof -
    have "(2::nat) ^ 32 = 2 ^ k * (2 ^ 8 * 2 ^ (24 - k))"
      using that by (simp only: power_add [symmetric]) simp
    then have eq: "a + 2 ^ 32 * b = a + 2 ^ k * (2 ^ 8 * (2 ^ (24 - k) * b))" by (simp only: mult.assoc)
    show ?thesis unfolding eq by simp
  qed
  then show ?thesis by (simp only: word_of_nat_eq_iff) (simp add: take_bit_eq_mod)
qed

lemma byte_high: "(a + 2 ^ 32 * b) div 2 ^ (32 + k) = b div 2 ^ k" if "a < 2 ^ 32" for a b :: nat
  using that by (simp add: power_add div_mult2_eq)

lemma MD5Encode_count: "MD5Encode [lo, hi] = le64 (bits_of (lo, hi))"
proof -
  have lo: "unat lo < 2 ^ 32" using unsigned_less [of lo, where ?'a = nat] by simp
  have "[0..<8] = [0, 1, 2, 3, 4, 5, 6, 7]" by (simp add: upt_rec)
  then show ?thesis
    using byte_of_word [of 0 lo] byte_of_word [of 0 hi]
      byte_low [of 0 "unat lo" "unat hi"] byte_low [of 8 "unat lo" "unat hi"]
      byte_low [of 16 "unat lo" "unat hi"] byte_low [of 24 "unat lo" "unat hi"]
      byte_high [OF lo, of "unat hi" 0] byte_high [OF lo, of "unat hi" 8]
      byte_high [OF lo, of "unat hi" 16] byte_high [OF lo, of "unat hi" 24]
    by (simp add: le64_def bits_of_def low_byte byte_of_word)
qed


lemma take_PADDING: "0 < k \<Longrightarrow> k \<le> 64 \<Longrightarrow> take k PADDING = 0x80 # replicate (k - 1) 0"
  by (cases k) (simp_all add: PADDING_def)

lemma length_MD5Encode_count: "length (MD5Encode [lo, hi]) = 8"
  by simp

lemma dvd_md5_padded: "64 dvd length (md5_padded msg)"
proof -
  define r where "r = length msg mod 64"
  have r: "r < 64" by (simp add: r_def)
  have "(119 - r) mod 64 = (if r < 56 then 55 - r else 119 - r)" using r by (simp add: mod_if)
  then have "64 dvd r + (1 + (119 - r) mod 64 + 8)" using r by auto
  then have "64 dvd length msg + (1 + (119 - r) mod 64 + 8)"
    unfolding r_def by (simp only: dvd_eq_mod_eq_0 mod_add_left_eq)
  then show ?thesis by (simp add: md5_padded_def le64_def r_def)
qed

lemma whole_all: "n dvd length xs \<Longrightarrow> whole n xs = xs"
  by (simp add: whole_def)

lemma MD5Final_digest:
  assumes rel: "md5_rel ctx msg"
  shows "fst (MD5Final ctx) = md5_digest msg"
proof -
  obtain lo hi where c: "count ctx = (lo, hi)" by (cases "count ctx")
  define index where "index = length msg mod 64"
  define pad where "pad = (if index < 56 then 56 - index else 120 - index)"
  define ctx2 where "ctx2 = MD5Update (MD5Update ctx (take pad PADDING)) (MD5Encode [lo, hi])"
  have bits: "bits_of (lo, hi) = 8 * length msg mod 2 ^ 64"
    using rel by (simp add: md5_rel_def c)
  have i: "unat (drop_bit 3 lo AND 0x3F) = index"
    unfolding index_def by (rule index_of_count [OF bits])
  have "index < 64" by (simp add: index_def)
  then have pad: "0 < pad" "pad \<le> 64" "pad - 1 = (119 - index) mod 64"
    by (auto simp: pad_def mod_if)
  have "md5_rel ctx2 (msg @ take pad PADDING @ MD5Encode [lo, hi])"
    unfolding ctx2_def append_assoc [symmetric]
    by (intro md5_rel_Update rel) (simp_all add: PADDING_def)
  moreover have "msg @ take pad PADDING @ MD5Encode [lo, hi] = md5_padded msg"
    unfolding take_PADDING [OF pad(1,2)] pad(3) MD5Encode_count bits by (simp add: md5_padded_def index_def)
  ultimately have "state ctx2 = foldl MD5Transform md5_iv (chunks 64 (md5_padded msg))"
    by (simp add: md5_rel_def whole_all dvd_md5_padded)
  then show ?thesis
    unfolding MD5Final_def c Let_def split i pad_def [symmetric] ctx2_def [symmetric]
    by (simp add: md5_digest_def split_beta Let_def del: MD5Encode.simps)
qed

lemma md5_rel_foldl:
  "md5_rel ctx msg \<Longrightarrow> \<forall>p \<in> set ps. length p < 2 ^ 32 - 64 \<Longrightarrow>
   md5_rel (foldl MD5Update ctx ps) (msg @ concat ps)"
proof (induction ps arbitrary: ctx msg)
  case (Cons p ps)
  have "md5_rel (MD5Update ctx p) (msg @ p)"
    by (rule md5_rel_Update) (use Cons.prems in auto)
  from Cons.IH [OF this] Cons.prems(2) show ?case by simp
qed simp

text \<open>C12: the incremental interface computes the digest of the whole message. For every way of
  cutting a message into pieces that \<open>MD5Update\<close> accepts, and whatever bytes the uninitialised
  buffer holds, \<open>MD5Init\<close>, one \<open>MD5Update\<close> per piece and \<open>MD5Final\<close> deliver the digest that the
  padded concatenation of the pieces has, compressed block by block.\<close>

theorem md5_streaming:
  assumes "length stale = 64" and "\<forall>p \<in> set pieces. length p < 2 ^ 32 - 64"
  shows "fst (MD5Final (foldl MD5Update (MD5Init stale) pieces)) = md5_digest (concat pieces)"
  using MD5Final_digest [OF md5_rel_foldl [OF md5_rel_Init [OF assms(1)] assms(2)]] by simp

theorem md5_streaming_witness:
  "fst (MD5Final (foldl MD5Update (MD5Init (replicate 64 0xCC)) [[0x61], [], [0x62, 0x63]])) =
     md5_digest [0x61, 0x62, 0x63]"
  using md5_streaming [of "replicate 64 0xCC" "[[0x61], [], [0x62, 0x63]]"] by simp

end
