(* ===== verification/Account_Cgi.thy ===== *)
theory Account_Cgi
  imports Util_Cgi Base64 MD5_Digest DES_Cipher
begin

text \<open>
  The two programs for accounts: \<^verbatim>\<open>cgi/register_cgi.c\<close> creates a user in the database,
  \<^verbatim>\<open>cgi/login_cgi.c\<close> compares a password and stores a token for the user in Redis. The token is the
  hexadecimal MD5 digest of the Base64 text of the DES ciphertext of the user name followed by four
  random numbers.
\<close>

subsection \<open>Registration\<close>

definition get_reg_info :: "string \<Rightarrow> (int \<times> string list) option" where
  "get_reg_info reg_buf =
     json_fields reg_buf [(''userName'', 128), (''nickName'', 128), (''firstPwd'', 128), (''phone'', 128), (''email'', 128)]"

definition insert_user ::
    "'x env \<Rightarrow> string \<Rightarrow> string \<Rightarrow> string \<Rightarrow> string \<Rightarrow> string \<Rightarrow> 'x world \<Rightarrow> (int \<times> 'x world) option" where
  "insert_user e user nick_name pwd tel email w = do {
     sql_cmd \<leftarrow> sql_text ''insert into user (name, nickname, password, phone, createtime, email) values (`%s`, `%s`, `%s`, `%s`, `%s`, `%s`)''
       [Str user, Str nick_name, Str pwd, Str tel, Str (strftime_now e w), Str email];
     (r, w) \<leftarrow> mysql_query e sql_cmd w;
     Some (if r = SqlError then - 1 else 0, w)
   }"

text \<open>The log entry for a user who exists already has a \<open>%s\<close> without an argument.\<close>

definition user_register :: "'x env \<Rightarrow> string \<Rightarrow> 'x world \<Rightarrow> (int \<times> 'x world) option" where
  "user_register e reg_buf w = do {
     (ret, mysql_user, mysql_pwd, mysql_db) \<leftarrow> get_mysql_info e 256;
     if ret \<noteq> 0 then Some (ret, w)
     else do {
       (ret, flds) \<leftarrow> get_reg_info reg_buf;
       if ret \<noteq> 0 then Some (ret, w)
       else do {
         (conn, w) \<leftarrow> msql_conn e mysql_user mysql_pwd mysql_db w;
         if \<not> conn then Some (- 1, w)
         else do {
           (_, w) \<leftarrow> mysql_query e ''set names utf8'' w;
           sql_cmd \<leftarrow> sql_text ''select * from user where name = `%s`'' [Str (flds ! 0)];
           (ret2, _, w) \<leftarrow> process_result_one e 0 sql_cmd None w;
           if ret2 = 2 then do { _ \<leftarrow> env_garbage e (ext w); Some (- 2, w) }
           else insert_user e (flds ! 0) (flds ! 1) (flds ! 2) (flds ! 3) (flds ! 4) w
         }
       }
     }
   }"

definition register_status :: "int \<Rightarrow> string option" where
  "register_status ret =
    (if ret = 0 then Some ''002'' else if ret = - 2 then Some ''003'' else if ret = - 1 then Some ''004'' else None)"

definition register_serve :: "'x env \<Rightarrow> fcgi_request \<Rightarrow> unit \<Rightarrow> 'x world \<Rightarrow> (unit \<times> 'x world) option" where
  "register_serve e rq u w =
     with_body rq u (\<lambda>buf w. do {
       (ret, w) \<leftarrow> user_register e buf w;
       w \<leftarrow> (case register_status ret of None \<Rightarrow> Some w | Some status \<Rightarrow> answer_status status w);
       Some (u, w)
     }) (put CONTENT_TYPE w)"

definition register_main :: "'x env \<Rightarrow> fcgi_request list \<Rightarrow> 'x world \<Rightarrow> (unit \<times> 'x world) option" where
  "register_main e rqs w = fcgi_loop (register_serve e) rqs () w"

subsection \<open>Login\<close>

definition get_login_info :: "string \<Rightarrow> (int \<times> string list) option" where
  "get_login_info login_buf = json_fields login_buf [(''user'', 512), (''pwd'', 512)]"

definition check_user_pwd :: "'x env \<Rightarrow> string \<Rightarrow> string \<Rightarrow> 'x world \<Rightarrow> (int \<times> 'x world) option" where
  "check_user_pwd e user pwd w = do {
     (_, mysql_user, mysql_pwd, mysql_db) \<leftarrow> get_mysql_info e 256;
     (conn, w) \<leftarrow> msql_conn e mysql_user mysql_pwd mysql_db w;
     if \<not> conn then Some (- 1, w)
     else do {
       (_, w) \<leftarrow> mysql_query e ''set names utf8'' w;
       sql_cmd \<leftarrow> sql_text (''select password from user where name='' @ [CHR 0x22] @ ''%s'' @ [CHR 0x22]) [Str user];
       (_, tmp, w) \<leftarrow> process_result_one e PWD_LEN sql_cmd (Some []) w;
       Some (if tmp = pwd then 0 else - 1, w)
     }
   }"

definition bytes_of :: "string \<Rightarrow> byte list" where
  "bytes_of s = map (\<lambda>c. word_of_nat (code c)) s"

fun four_rands :: "'x env \<Rightarrow> nat \<Rightarrow> 'x \<Rightarrow> nat list \<times> 'x" where
  "four_rands e 0 x = ([], x)"
| "four_rands e (Suc n) x =
    (case env_rand e x of (r, x) \<Rightarrow> case four_rands e n x of (rs, x) \<Rightarrow> (r mod 1000 # rs, x))"

text \<open>The steps from the text to the token: encryption, Base64, digest, hexadecimal digits.\<close>

definition token_of ::
    "bool \<Rightarrow> (nat \<Rightarrow> 'l::len word list) \<Rightarrow> byte list \<Rightarrow> string \<Rightarrow> string option" where
  "token_of alloc junk stale tmp =
    (case DesEnc alloc junk (bytes_of tmp) of
       Inl _ \<Rightarrow> None
     | Inr enc_tmp \<Rightarrow>
         (let base64 = base64_encode enc_tmp;
              md5 = MD5Update (MD5Init stale) (bytes_of base64);
              decrypt = fst (MD5Final md5) in
          Some (concat (map (\<lambda>b. show_hex2 (unat b)) decrypt))))"

definition set_token ::
    "'x env \<Rightarrow> bool \<Rightarrow> (nat \<Rightarrow> 'l::len word list) \<Rightarrow> byte list \<Rightarrow> string \<Rightarrow> 'x world \<Rightarrow>
      (int \<times> string \<times> 'x world) option" where
  "set_token e alloc junk stale user w = do {
     ip \<leftarrow> config_or_empty e 30 ''redis'' ''ip'';
     port \<leftarrow> config_or_empty e 10 ''redis'' ''port'';
     (conn, w) \<leftarrow> rop_connectdb_nopwd e ip port w;
     if \<not> conn then Some (- 1, [], w)
     else do {
       let (rand_num, x) = four_rands e 4 (ext w);
       let w = w\<lparr>ext := x\<rparr>;
       tmp \<leftarrow> store 1024 (sprintf ''%s%d%d%d%d'' (Str user # map (\<lambda>n. Num (int n)) rand_num));
       (case token_of alloc junk stale tmp of
          None \<Rightarrow> Some (- 1, [], w)
        | Some token \<Rightarrow> do {
            token \<leftarrow> store TOKEN_LEN token;
            (ret, w) \<leftarrow> rop_setex_string e user (24 * 60 * 60) token w;
            Some (ret, token, w)
          })
     }
   }"

definition login_text :: "string \<Rightarrow> string \<Rightarrow> string option" where
  "login_text status_num token =
     cJSON_Print (cJSON_AddStringToObject (cJSON_AddStringToObject cJSON_CreateObject ''code'' status_num) ''token'' token)"

definition return_login_status :: "string \<Rightarrow> string \<Rightarrow> 'x world \<Rightarrow> 'x world option" where
  "return_login_status status_num token w =
    (case login_text status_num token of None \<Rightarrow> Some w | Some text \<Rightarrow> printf_out text w)"

definition login_serve ::
    "'x env \<Rightarrow> bool \<Rightarrow> (nat \<Rightarrow> 'l::len word list) \<Rightarrow> byte list \<Rightarrow> fcgi_request \<Rightarrow> unit \<Rightarrow> 'x world \<Rightarrow>
      (unit \<times> 'x world) option" where
  "login_serve e alloc junk stale rq u w =
     with_body rq u (\<lambda>buf w. do {
       (_, flds) \<leftarrow> get_login_info buf;
       let flds = overlay flds [[], []];
       (ret, w) \<leftarrow> check_user_pwd e (flds ! 0) (flds ! 1) w;
       (ret, token, w) \<leftarrow> (if ret = 0 then set_token e alloc junk stale (flds ! 0) w else Some (ret, [], w));
       w \<leftarrow> (if ret = 0 then return_login_status ''000'' token w else return_login_status ''001'' ''fail'' w);
       Some (u, w)
     }) (put CONTENT_TYPE w)"

definition login_main ::
    "'x env \<Rightarrow> bool \<Rightarrow> (nat \<Rightarrow> 'l::len word list) \<Rightarrow> byte list \<Rightarrow> fcgi_request list \<Rightarrow> 'x world \<Rightarrow>
      (unit \<times> 'x world) option" where
  "login_main e alloc junk stale rqs w = fcgi_loop (login_serve e alloc junk stale) rqs () w"

end
