(* ===== verification/Session.thy ===== *)
theory Session
  imports Redis_Spec Account_Cgi
begin

text \<open>
  Logging in and checking a token. The token has a fixed shape whatever is encrypted, and on a Redis server
  with the laws of \<open>redis_server\<close> storing a token binds the user's key and no other, and the check compares
  with what is bound.
\<close>

subsection \<open>The shape of a token\<close>

definition is_token :: "string \<Rightarrow> bool" where
  "is_token s \<longleftrightarrow> length s = 32 \<and>
     list_all (\<lambda>c. isdigit c \<or> 97 \<le> code c \<and> code c \<le> 102) s"

lemma hex_digit_token: "n < 16 \<Longrightarrow> isdigit (hex_digit n) \<or> 97 \<le> code (hex_digit n) \<and> code (hex_digit n) \<le> 102"
  by (simp add: hex_digit_def isdigit_def)

lemma hex_bytes:
  "length (concat (map (\<lambda>b. show_hex2 (unat b)) bs)) = 2 * length bs"
  "list_all (\<lambda>c. isdigit c \<or> 97 \<le> code c \<and> code c \<le> 102) (concat (map (\<lambda>b. show_hex2 (unat b)) (bs :: byte list)))"
  using hex_digit_token by (induction bs) (auto simp: show_hex2_def)

lemma digest_length: "length (fst (MD5Final ctx)) = 16"
  by (simp add: MD5Final_def Let_def split_beta)

lemma is_token_cstr: "is_token s \<Longrightarrow> is_cstr s"
  by (auto simp: is_token_def is_cstr_def list_all_iff isdigit_def code_def)

lemma token_of_shape: "token_of alloc junk stale tmp = Some token \<Longrightarrow> is_token token"
  using hex_bytes digest_length
  by (auto simp: token_of_def is_token_def Let_def split: sum.splits simp del: mult_Suc_right)

subsection \<open>Sessions\<close>

lemma ok_config: "(\<And>s. Q s) \<Longrightarrow> ok Q (config_or_empty e cap title key)"
  by (rule okI)

locale token_store = redis_server "env_redis e" "env_redis_connect e" keys
  for e :: "'x env" and keys :: "'x \<Rightarrow> keys" +
  assumes rand_law: "keys (snd (env_rand e x)) = keys x"
begin

lemma four_rands_keys: "keys (snd (four_rands e n x)) = keys x"
  using rand_law by (induction n arbitrary: x) (auto simp: split_beta)

lemma ok_connect:
  assumes "\<And>a w'. keys (ext w') = keys (ext w) \<Longrightarrow> Q (a, w')"
  shows "ok Q (rop_connectdb_nopwd e ip port w)"
  using assms connect_law by (simp add: rop_connectdb_nopwd_def redis_connect_def ok_simps)

lemma ok_setex:
  assumes "0 < strtol (show_int n)"
    and "\<And>w'. keys (ext w') = (keys (ext w))(key \<mapsto> v) \<Longrightarrow> Q (0, w')"
  shows "ok Q (rop_setex_string e key n v w)"
  using redis_law [of "[''setex'', key, show_int n, v]" "ext w"] assms
  by (auto simp: rop_setex_string_def redisCommand_def format_setex ok_simps redis_exec_def reply_ok_def)

lemma ok_get:
  assumes "\<And>w'. keys (ext w') = keys (ext w) \<Longrightarrow> Q (map_option cstr (keys (ext w) key), w')"
  shows "ok Q (rop_get_string e cap key w)"
  using redis_law [of "[''get'', key]" "ext w"] assms
  by (auto simp: rop_get_string_def redisCommand_def format_get ok_simps redis_exec_def split: option.splits)

lemma ok_set_token:
  assumes "\<And>ret token w'. ret = 0 \<longrightarrow> is_token token \<and> keys (ext w') = (keys (ext w))(user \<mapsto> token) \<Longrightarrow> Q (ret, token, w')"
  shows "ok Q (set_token e alloc junk stale user w)"
proof -
  have ttl: "0 < strtol (show_int 86400)" by (simp add: strtol_show_int)
  show ?thesis
    unfolding set_token_def ok_simps
    by (auto simp: ok_simps Let_def split_beta four_rands_keys simp del: sprintf.simps
        intro!: ok_config ok_connect assms ok_setex [OF ttl] split: option.split dest: token_of_shape)
qed

lemma ok_verify_token:
  assumes "\<And>a x. fst (env_redis_connect e a x) = Conn_ok"
    and "\<And>w'. keys (ext w') = keys (ext w) \<Longrightarrow>
      Q (if map_option cstr (keys (ext w) user) = Some t then 0 else - 1, w')"
  shows "ok Q (verify_token e user t w)"
proof -
  have conn: "ok R (rop_connectdb_nopwd e ip port w)" if "\<And>w'. keys (ext w') = keys (ext w) \<Longrightarrow> R (True, w')" for R ip port
    using that connect_law assms(1) by (simp add: rop_connectdb_nopwd_def redis_connect_def ok_simps Redis_Op.connected_def)
  show ?thesis
    unfolding verify_token_def ok_simps
    by (auto simp: ok_simps intro!: ok_config conn ok_get) (use assms(2) in \<open>auto split: option.splits\<close>)
qed

end

end
