(* ===== verification/Answers.thy ===== *)
theory Answers
  imports Util_Cgi CJSON_Roundtrip
begin

text \<open>
  The answers of the programs. A status of three digits is printed exactly as JSON prescribes, and the
  browser's parser gets the status back.
\<close>

definition is_status :: "string \<Rightarrow> bool" where
  "is_status s \<longleftrightarrow> length s = 3 \<and> list_all isdigit s"

definition status_text :: "string \<Rightarrow> string" where
  "status_text s =
     [CHR ''{'', CHR 0x0A, CHR 0x09, CHR 0x22] @ ''code'' @ [CHR 0x22, CHR '':'', CHR 0x09, CHR 0x22] @ s @
     [CHR 0x22, CHR 0x0A, CHR ''}'']"

lemma digits_plain: "list_all isdigit s \<Longrightarrow> print_string_ptr s = CHR 0x22 # s @ [CHR 0x22]"
  by (auto simp: print_string_ptr_def list_all_iff isdigit_def code_def)

lemma print_code: "print_string_ptr ''code'' = CHR 0x22 # ''code'' @ [CHR 0x22]"
  by (simp add: print_string_ptr_def code_def)

lemma return_status_text: "list_all isdigit s \<Longrightarrow> return_status s = Some (status_text s)"
  by (simp add: return_status_def status_text_def cJSON_AddStringToObject_def cJSON_AddItemToObject_def cJSON_CreateObject_def
      cJSON_CreateString_def cJSON_AddItemToArray_def cJSON_Print_def print_object_def print_member_def digits_plain
      print_code newline_def tabs_def)

lemma answer_status_put: "is_status s \<Longrightarrow> answer_status s w = Some (put (status_text s) w)"
proof -
  assume s: "is_status s"
  then have "CHR ''%'' \<notin> set (status_text s)" by (auto simp: status_text_def is_status_def list_all_iff isdigit_def code_def)
  then show ?thesis using s by (simp add: answer_status_def return_status_text is_status_def printf_out_plain)
qed

subsection \<open>Objects of strings\<close>

text \<open>What a browser sends, and what the programs answer: an object with the given string members.\<close>

definition object_of :: "(string \<times> string) list \<Rightarrow> cJSON" where
  "object_of nvs = foldl (\<lambda>ob (n, v). cJSON_AddStringToObject ob n v) cJSON_CreateObject nvs"

definition string_item :: "string \<times> string \<Rightarrow> cJSON" where
  "string_item nv = Node cJSON_String (Some (snd nv)) 0 (Fin 0) [] (Some (fst nv))"

lemma object_of_node: "object_of nvs = Node cJSON_Object None 0 (Fin 0) (map string_item nvs) None"
proof (induction nvs rule: rev_induct)
  case (snoc nv nvs)
  then show ?case
    by (cases nv) (simp add: object_of_def cJSON_AddStringToObject_def cJSON_AddItemToObject_def cJSON_AddItemToArray_def
        cJSON_CreateString_def string_item_def)
qed (simp add: object_of_def cJSON_CreateObject_def)

lemma plain_object: "(\<And>n v. (n, v) \<in> set nvs \<Longrightarrow> is_cstr n \<and> is_cstr v) \<Longrightarrow> plain_json (object_of nvs)"
  by (auto simp: object_of_node string_item_def)

lemma find_string_item:
  assumes "distinct (map (\<lambda>nv. map tolower (fst nv)) nvs)" "(n, v) \<in> set nvs"
  shows "find (\<lambda>c. cJSON_strcasecmp (item_name c) n) (map string_item nvs) = Some (string_item (n, v))"
  using assms by (induction nvs) (force simp: string_item_def image_iff)+

lemma get_object_item:
  assumes "distinct (map (\<lambda>nv. map tolower (fst nv)) nvs)" "(n, v) \<in> set nvs"
  shows "cJSON_GetObjectItem (object_of nvs) n = Some (string_item (n, v))"
  using find_string_item [OF assms] by (simp add: cJSON_GetObjectItem_def object_of_node)

lemma copy_object_fields:
  assumes "distinct (map (\<lambda>nv. map tolower (fst nv)) nvs)"
    and "\<And>n v cap. (n, v, cap) \<in> set wanted \<Longrightarrow> (n, v) \<in> set nvs \<and> length v < cap"
  shows "copy_fields (object_of nvs) (map (\<lambda>x. (fst x, snd (snd x))) wanted) = Some (0, map (\<lambda>x. fst (snd x)) wanted)"
  using assms(2)
proof (induction wanted)
  case (Cons x wanted)
  obtain n v cap where x: "x = (n, v, cap)" by (cases x)
  have "cJSON_GetObjectItem (object_of nvs) n = Some (string_item (n, v))" "length v < cap"
    using Cons.prems [of n v cap] get_object_item [OF assms(1)] by (auto simp: x)
  moreover have "copy_fields (object_of nvs) (map (\<lambda>x. (fst x, snd (snd x))) wanted) = Some (0, map (\<lambda>x. fst (snd x)) wanted)"
    using Cons.prems by (intro Cons.IH) auto
  ultimately show ?case by (simp add: x string_item_def store_fits)
qed simp

subsection \<open>Properties\<close>

text \<open>C29: a request that is a JSON object of strings, printed in either style, with names that differ also when
  case is ignored: the function that takes requests apart delivers the values of the fields it asks for,
  whatever characters they contain, provided each fits its array.\<close>

theorem request_fields:
  assumes "\<forall>(n, v) \<in> set nvs. is_cstr n \<and> is_cstr v" and "distinct (map (\<lambda>nv. map tolower (fst nv)) nvs)"
    and "\<forall>(n, v, cap) \<in> set wanted. (n, v) \<in> set nvs \<and> length v < cap"
  shows "\<exists>text. print_value style 0 (object_of nvs) = Some text \<and>
    json_fields text (map (\<lambda>x. (fst x, snd (snd x))) wanted) = Some (0, map (\<lambda>x. fst (snd x)) wanted)"
proof -
  have "plain_json (object_of nvs)" using assms(1) by (intro plain_object) auto
  moreover have "item_name (object_of nvs) = None" by (simp add: object_of_node)
  ultimately obtain t where "print_value style 0 (object_of nvs) = Some t" "cJSON_Parse t = Some (Some (object_of nvs))"
    using parse_print by blast
  moreover have "copy_fields (object_of nvs) (map (\<lambda>x. (fst x, snd (snd x))) wanted) = Some (0, map (\<lambda>x. fst (snd x)) wanted)"
    using assms(3) by (intro copy_object_fields [OF assms(2)]) auto
  ultimately show ?thesis by (auto simp: json_fields_def)
qed

theorem request_fields_witness:
  "\<exists>text. print_value False 0 (object_of [(''user'', ''bob''), (''pwd'', [CHR 0x22, CHR 0x0A])]) = Some text \<and>
    json_fields text [(''pwd'', 512), (''user'', 512)] = Some (0, [[CHR 0x22, CHR 0x0A], ''bob''])"
  using request_fields [of "[(''user'', ''bob''), (''pwd'', [CHR 0x22, CHR 0x0A])]"
    "[(''pwd'', [CHR 0x22, CHR 0x0A], 512), (''user'', ''bob'', 512)]" False]
  by (simp add: is_cstr_def tolower_def code_def)

text \<open>C30: an answer with a status of three digits appends exactly one JSON text to the output, which the
  parser turns back into an object whose \<open>code\<close> is that status.\<close>

theorem status_answer:
  assumes "is_status s"
  shows "\<exists>v. answer_status s w = Some (w\<lparr>out := out w @ status_text s\<rparr>) \<and>
    cJSON_Parse (status_text s) = Some (Some v) \<and>
    map_option valuestring (cJSON_GetObjectItem v ''code'') = Some (Some s)"
proof -
  have s: "is_cstr s" "list_all isdigit s"
    using assms by (auto simp: is_status_def is_cstr_def list_all_iff isdigit_def code_def)
  let ?v = "object_of [(''code'', s)]"
  have "plain_json ?v" using s by (intro plain_object) (auto simp: is_cstr_def)
  then obtain t where t: "print_value True 0 ?v = Some t" "cJSON_Parse t = Some (Some ?v)"
    using parse_print [of ?v True] by (auto simp: object_of_node)
  have "return_status s = print_value True 0 ?v"
    by (simp add: return_status_def cJSON_Print_def object_of_def)
  then have "t = status_text s" using t(1) return_status_text [OF s(2)] by simp
  then show ?thesis
    using t(2) answer_status_put [OF assms, of w] get_object_item [of "[(''code'', s)]" "''code''" s]
    by (auto simp: put_def string_item_def)
qed

theorem status_answer_witness:
  "\<exists>v. cJSON_Parse (status_text ''006'') = Some (Some v) \<and> map_option valuestring (cJSON_GetObjectItem v ''code'') = Some (Some ''006'')"
proof -
  have "is_status ''006''" by (simp add: is_status_def isdigit_def code_def)
  from status_answer [OF this, of "undefined\<lparr>out := []\<rparr>"] show ?thesis by blast
qed

end
