(* ===== verification/Site.thy ===== *)
theory Site
  imports Reliable Session Answers DES_Roundtrip
begin

text \<open>
  The whole site: a MySQL server that does not fail and a Redis server that answers, neither of which
  touches the data of the other. Here a login request runs from the bytes of its body to the bytes of the
  answer, through JSON, SQL, the token algorithms and Redis.
\<close>

lemma block_loop_total:
  assumes "\<And>i b. length b = 8 \<Longrightarrow> \<exists>c. raw i b = Inr c"
  shows "8 * n \<le> length data \<Longrightarrow> \<exists>c. block_loop raw i n data = Inr c"
proof (induction n arbitrary: i data)
  case (Suc n)
  obtain c where "raw i (take 8 data) = Inr c" using assms [of "take 8 data" i] Suc.prems by auto
  moreover have "8 * n \<le> length (drop 8 data)" using Suc.prems by simp
  then obtain d where "block_loop raw (i + 1) n (drop 8 data) = Inr d" using Suc.IH by blast
  ultimately show ?case by simp
qed simp

lemma DesEnc_total: "\<exists>c. DesEnc True junk data = Inr c"
proof -
  let ?p = "CW_dataPadAdd True 0 data"
  have "length ?p mod 8 = 0" using padded_dvd [of data] by (simp add: dvd_eq_mod_eq_0)
  moreover have "\<exists>c. block_loop raw 0 (length ?p div 8) ?p = Inr c" if "\<And>i b. length b = 8 \<Longrightarrow> \<exists>c. raw i b = Inr c" for raw
    using that by (intro block_loop_total) auto
  moreover have "\<exists>c. OPENCOMM_DesEncRaw (junk i) keybuf 128 b = Inr c" if "length b = 8" for i b keybuf
    using that by (simp add: OPENCOMM_DesEncRaw_def Let_def)
  ultimately show ?thesis
    by (simp add: DesEnc_def myic_DESEncrypt_def USER_PASSWORD_KEY_def OPENCOMM_DesExpandEncKey_def)
qed

lemma token_of_total: "\<exists>token. token_of True junk stale tmp = Some token \<and> is_token token"
proof -
  obtain c where "DesEnc True junk (bytes_of tmp) = Inr c" using DesEnc_total by blast
  then obtain token where "token_of True junk stale tmp = Some token" by (simp add: token_of_def Let_def)
  then show ?thesis using token_of_shape by blast
qed

text \<open>The two answers to a login.\<close>

definition login_answer :: "string \<Rightarrow> string \<Rightarrow> string" where
  "login_answer status token =
     [CHR ''{'', CHR 0x0A, CHR 0x09, CHR 0x22] @ ''code'' @ [CHR 0x22, CHR '':'', CHR 0x09, CHR 0x22] @ status @
     [CHR 0x22, CHR '','', CHR 0x0A, CHR 0x09, CHR 0x22] @ ''token'' @ [CHR 0x22, CHR '':'', CHR 0x09, CHR 0x22] @ token @
     [CHR 0x22, CHR 0x0A, CHR ''}'']"

definition quiet :: "string \<Rightarrow> bool" where
  "quiet s \<longleftrightarrow> list_all (\<lambda>c. 32 \<le> code c \<and> c \<noteq> CHR 0x22 \<and> c \<noteq> CHR 0x5C \<and> c \<noteq> CHR ''%'') s"

lemma print_quiet: "quiet s \<Longrightarrow> print_string_ptr s = CHR 0x22 # s @ [CHR 0x22]"
proof -
  assume "quiet s"
  then have "\<forall>c \<in> set s. \<not> (code c < 32 \<or> c = CHR 0x22 \<or> c = CHR 0x5C)"
    unfolding quiet_def list_all_iff by (meson linorder_not_less)
  then show ?thesis unfolding print_string_ptr_def by simp
qed

lemma token_quiet: "is_token s \<Longrightarrow> quiet s"
  unfolding is_token_def quiet_def list_all_iff isdigit_def by (auto simp: code_def)

lemma return_login_status_text:
  assumes "quiet status" "quiet token"
  shows "return_login_status status token w = Some (put (login_answer status token) w)"
proof -
  have names: "quiet ''code''" "quiet ''token''" by (simp_all add: quiet_def code_def)
  have "login_text status token = Some (login_answer status token)"
    by (simp add: login_text_def login_answer_def cJSON_AddStringToObject_def cJSON_AddItemToObject_def cJSON_CreateObject_def
      cJSON_CreateString_def cJSON_AddItemToArray_def cJSON_Print_def print_object_def print_member_def print_quiet names assms
      newline_def tabs_def)
  moreover have "CHR ''%'' \<notin> set (login_answer status token)"
    using assms by (auto simp: login_answer_def quiet_def list_all_iff)
  ultimately show ?thesis by (simp add: return_login_status_def printf_out_plain)
qed

lemma is_tokenD: "is_token t \<Longrightarrow> length t < TOKEN_LEN"
  by (simp add: is_token_def TOKEN_LEN_def)

lemma length_4: "length xs = 4 \<Longrightarrow> \<exists>a b c d. xs = [a, b, c, d]"
  by (auto simp: eval_nat_numeral length_Suc_conv)

lemma four_rands_length: "length (fst (four_rands e n x)) = n"
  by (induction n arbitrary: x) (auto simp: split_beta)

lemma four_rands_small: "r \<in> set (fst (four_rands e n x)) \<Longrightarrow> length (show_int (int r)) \<le> 3"
proof -
  have "length (show_int (int (k mod 1000))) \<le> 3" for k
    using show_nat_length [of "k mod 1000" 2] by (simp add: show_int_def)
  then show "r \<in> set (fst (four_rands e n x)) \<Longrightarrow> length (show_int (int r)) \<le> 3"
    by (induction n arbitrary: x) (auto simp: split_beta)
qed

definition password_of :: "(string \<Rightarrow> string \<Rightarrow> bool) \<Rightarrow> db \<Rightarrow> string \<Rightarrow> string" where
  "password_of colleq d user =
    (case filter (matches colleq [(''name'', user)]) (d ''user'') of
       [] \<Rightarrow> [] | r # _ \<Rightarrow> (case r ''password'' of None \<Rightarrow> [] | Some s \<Rightarrow> s))"

text \<open>A request whose body is the given text, short enough for the log entry that repeats it.\<close>

definition carries :: "fcgi_request \<Rightarrow> string \<Rightarrow> bool" where
  "carries rq text \<longleftrightarrow> body rq = text \<and> request_length rq = int (length text) \<and> is_cstr text \<and> text \<noteq> [] \<and> length text < 4089"

lemma runs_with_body:
  assumes "carries rq text" "runs Q (handle text w)"
  shows "runs Q (with_body rq s handle w)"
  using assms by (simp add: carries_def with_body_def read_body_def LOG_def runs_simps)

text \<open>The configuration has every entry that a login needs.\<close>

definition login_configured :: "'x env \<Rightarrow> bool" where
  "login_configured e \<longleftrightarrow> get_mysql_info e 256 \<noteq> None \<and>
     config_or_empty e 30 ''redis'' ''ip'' \<noteq> None \<and> config_or_empty e 10 ''redis'' ''port'' \<noteq> None"

subsection \<open>What the two programs for accounts do\<close>

definition account :: "string \<Rightarrow> string \<Rightarrow> string \<Rightarrow> string \<Rightarrow> string \<Rightarrow> string \<Rightarrow> row" where
  "account user nick pwd tel time email =
     map_of (zip [''name'', ''nickname'', ''password'', ''phone'', ''createtime'', ''email''] [user, nick, pwd, tel, time, email])"

definition taken :: "(string \<Rightarrow> string \<Rightarrow> bool) \<Rightarrow> db \<Rightarrow> string \<Rightarrow> string \<Rightarrow> bool" where
  "taken colleq d col v = list_ex (matches colleq [(col, v)]) (d ''user'')"

lemma taken_iff: "taken colleq d col v \<longleftrightarrow> filter (matches colleq [(col, v)]) (d ''user'') \<noteq> []"
  by (auto simp: taken_def list_ex_iff filter_empty_conv)

definition registered :: "(string \<Rightarrow> string \<Rightarrow> bool) \<Rightarrow> db \<Rightarrow> string \<Rightarrow> string \<Rightarrow> row \<Rightarrow> string \<times> db" where
  "registered colleq d user nick new =
    (if taken colleq d ''name'' user then (''003'', d)
     else if taken colleq d ''nickname'' nick then (''004'', d)
     else (''002'', d(''user'' := d ''user'' @ [new])))"

definition registrable :: "string \<Rightarrow> string \<Rightarrow> string \<Rightarrow> string \<Rightarrow> string \<Rightarrow> bool" where
  "registrable user nick pwd tel email \<longleftrightarrow>
     plain_text 128 user \<and> plain_text 128 nick \<and> plain_text 128 pwd \<and> plain_text 15 tel \<and> plain_text 100 email \<and>
     length user + length nick + length pwd + length tel + length email \<le> 370"

lemma statuses: "is_status ''002''" "is_status ''003''" "is_status ''004''"
  by (simp_all add: is_status_def isdigit_def code_def)

locale site = reliable colleq e view + token_store e keys
  for colleq :: "string \<Rightarrow> string \<Rightarrow> bool" and e :: "'x env" and view :: "'x \<Rightarrow> db" and keys :: "'x \<Rightarrow> keys" +
  assumes sql_keys: "keys (snd (env_mysql_query e q x)) = keys x" "keys (snd (env_mysql_connect e u p d x)) = keys x"
    and rand_tables: "view (snd (env_rand e x)) = view x"
    and answers: "described argv \<Longrightarrow> fst (env_redis e argv x) \<noteq> None"
begin

lemma runs_setex:
  assumes "0 < strtol (show_int n)" and "\<And>w'. keys (ext w') = (keys (ext w))(key \<mapsto> v) \<Longrightarrow> tables w' = tables w \<Longrightarrow> out w' = out w \<Longrightarrow> Q (0, w')"
  shows "runs Q (rop_setex_string e key n v w)"
  using redis_law [of "[''setex'', key, show_int n, v]" "ext w"] answers [of "[''setex'', key, show_int n, v]" "ext w"] assms
  by (auto simp: rop_setex_string_def redisCommand_def format_setex runs_simps redis_exec_def reply_ok_def keep_redis)

lemma four_rands_tables: "view (snd (four_rands e n x)) = view x"
  using rand_tables by (induction n arbitrary: x) (auto simp: split_beta)

lemma runs_connect:
  assumes "\<And>w'. keys (ext w') = keys (ext w) \<Longrightarrow> tables w' = tables w \<Longrightarrow> out w' = out w \<Longrightarrow> Q (True, w')"
  shows "runs Q (rop_connectdb_nopwd e ip port w)"
  using assms connect_law redis_up
  by (simp add: keep_redis_connect rop_connectdb_nopwd_def redis_connect_def runs_simps Redis_Op.connected_def)

lemma runs_set_token:
  assumes "config_or_empty e 30 ''redis'' ''ip'' = Some ip" "config_or_empty e 10 ''redis'' ''port'' = Some port"
    and len: "length user \<le> 512"
    and Q: "\<And>token w'. is_token token \<Longrightarrow> keys (ext w') = (keys (ext w))(user \<mapsto> token) \<Longrightarrow> tables w' = tables w \<Longrightarrow> out w' = out w \<Longrightarrow> Q (0, token, w')"
  shows "runs Q (set_token e True junk stale user w)"
proof -
  have ttl: "0 < strtol (show_int 86400)" by (simp add: strtol_show_int)
  have fits: "length (sprintf ''%s%d%d%d%d'' (Str user # map (\<lambda>n. Num (int n)) (fst (four_rands e 4 x)))) < 1024" for x
  proof -
    obtain a b c d where rs: "fst (four_rands e 4 x) = [a, b, c, d]"
      using length_4 four_rands_length by metis
    then show ?thesis using len four_rands_small [of a e 4 x] four_rands_small [of b e 4 x]
      four_rands_small [of c e 4 x] four_rands_small [of d e 4 x] by simp
  qed
  have tok: "case_option R R' (token_of True junk stale tmp) = R' (the (token_of True junk stale tmp)) \<and> is_token (the (token_of True junk stale tmp))" for tmp R R'
    using token_of_total [of junk stale tmp] by auto
  show ?thesis
    unfolding set_token_def assms(1,2) runs_simps
    by (auto simp: runs_simps Let_def split_beta four_rands_keys four_rands_tables fits tok is_tokenD simp del: sprintf.simps intro!: runs_connect runs_setex [OF ttl] Q)
qed

lemma runs_get:
  assumes "\<And>s. keys (ext w) key = Some s \<Longrightarrow> length s < cap"
    and "\<And>w'. keys (ext w') = keys (ext w) \<Longrightarrow> tables w' = tables w \<Longrightarrow> out w' = out w \<Longrightarrow>
      Q (map_option cstr (keys (ext w) key), w')"
  shows "runs Q (rop_get_string e cap key w)"
  using redis_law [of "[''get'', key]" "ext w"] answers [of "[''get'', key]" "ext w"] assms
  by (auto simp: rop_get_string_def redisCommand_def format_get runs_simps redis_exec_def keep_redis split: option.splits)

lemma runs_verify_token:
  assumes "config_or_empty e 30 ''redis'' ''ip'' = Some ip" "config_or_empty e 10 ''redis'' ''port'' = Some port"
    and "\<And>s. keys (ext w) user = Some s \<Longrightarrow> length s < 128"
    and "\<And>w'. keys (ext w') = keys (ext w) \<Longrightarrow> tables w' = tables w \<Longrightarrow> out w' = out w \<Longrightarrow>
      Q (if map_option cstr (keys (ext w) user) = Some t then 0 else - 1, w')"
  shows "runs Q (verify_token e user t w)"
  unfolding verify_token_def assms(1,2) runs_simps
  by (auto simp: runs_simps assms(3) intro!: runs_connect runs_get) (use assms(4) in \<open>auto split: option.splits\<close>)

lemma runs_check_user_pwd:
  assumes info: "get_mysql_info e 256 = Some (ret, db_user, db_pwd, db)" and u: "plain_text 128 user"
    and small: "length (password_of colleq (tables w) user) < PWD_LEN"
    and Q: "\<And>w'. tables w' = tables w \<Longrightarrow> keys (ext w') = keys (ext w) \<Longrightarrow> out w' = out w \<Longrightarrow>
      Q (if password_of colleq (tables w) user = pwd then 0 else - 1, w')"
  shows "runs Q (check_user_pwd e user pwd w)"
proof -
  define q where "q = fmt (''select password from user where name='' @ [CHR 0x22] @ ''%s'' @ [CHR 0x22]) [Str user]"
  have fits: "sql_text (''select password from user where name='' @ [CHR 0x22] @ ''%s'' @ [CHR 0x22]) [Str user] = Some q"
    using u by (simp add: q_def sql_text_def store_def fmt_def unquote_def SQL_MAX_LEN_def plain_text_def)
  have parse: "sql_parse q = Some (Select ''password'' ''user'' [(''name'', user)])"
    unfolding q_def by (rule sql_password) (use u in \<open>simp add: plain_text_def\<close>)
  have sok: "stmt_ok (Select ''password'' ''user'' [(''name'', user)])"
    using u by (simp add: stored_def schema_def)
  have "view (snd (env_mysql_query e ''set names utf8'' x)) = view x" for x
    using exact [OF sql_set_names, of x] by auto
  then show ?thesis
    unfolding check_user_pwd_def info fits
    using small Q
    by (auto simp: runs_simps msql_conn_def mysql_query_def mysql_up keep_connect sql_keys password_of_def unchanged_def
        intro!: runs_process_result_one [OF parse sok] split: list.splits option.splits)
qed


lemma runs_login:
  assumes rq: "carries rq text" "get_login_info text = Some (0, [user, pwd])" and u: "plain_text 128 user"
    and conf: "login_configured e" and small: "length (password_of colleq (tables w) user) < PWD_LEN"
  shows "runs (\<lambda>(_, w'). tables w' = tables w \<and>
      (if password_of colleq (tables w) user = pwd
       then \<exists>token. is_token token \<and> keys (ext w') = (keys (ext w))(user \<mapsto> token) \<and>
         out w' = out w @ CONTENT_TYPE @ login_answer ''000'' token
       else keys (ext w') = keys (ext w) \<and> out w' = out w @ CONTENT_TYPE @ login_answer ''001'' ''fail''))
    (login_serve e True junk stale rq () w)"
proof -
  obtain r a b c ip port where conf: "get_mysql_info e 256 = Some (r, a, b, c)"
    "config_or_empty e 30 ''redis'' ''ip'' = Some ip" "config_or_empty e 10 ''redis'' ''port'' = Some port"
    using conf by (auto simp: login_configured_def)
  have q: "quiet ''000''" "quiet ''001''" "quiet ''fail''" by (simp_all add: quiet_def code_def)
  have "length user \<le> 512" using u by (simp add: plain_text_def)
  then show ?thesis
    unfolding login_serve_def
    by (auto simp: rq(2) runs_simps return_login_status_text q token_quiet put_def small
        intro!: runs_with_body [OF rq(1)] runs_check_user_pwd [OF conf(1) u] runs_set_token [OF conf(2,3)]) blast
qed

lemma runs_insert_user:
  assumes ok: "registrable user nick pwd tel email" and new: "\<not> taken colleq (tables w) ''name'' user"
    and Q: "\<And>r w' time. keys (ext w') = keys (ext w) \<Longrightarrow> out w' = out w \<Longrightarrow>
      (if taken colleq (tables w) ''nickname'' nick then tables w' = tables w \<and> r = - 1
       else tables w' = (tables w)(''user'' := tables w ''user'' @ [account user nick pwd tel time email]) \<and> r = 0) \<Longrightarrow> Q (r, w')"
  shows "runs Q (insert_user e user nick pwd tel email w)"
proof -
  let ?f = "''insert into user (name, nickname, password, phone, createtime, email) values (`%s`, `%s`, `%s`, `%s`, `%s`, `%s`)''"
  let ?s = "Insert ''user'' [''name'', ''nickname'', ''password'', ''phone'', ''createtime'', ''email'']
       [user, nick, pwd, tel, env_now e (ext w), email]"
  define q where "q = fmt ?f [Str user, Str nick, Str pwd, Str tel, Str (env_now e (ext w)), Str email]"
  have q: "sql_text ?f [Str user, Str nick, Str pwd, Str tel, Str (strftime_now e w), Str email] = Some q"
    using ok clock_short [of "ext w"]
    by (simp add: q_def sql_text_def strftime_now_def store_def fmt_def unquote_def SQL_MAX_LEN_def registrable_def)
  have parse: "sql_parse q = Some ?s"
    unfolding q_def by (rule sql_insert_user) (use ok clock in \<open>auto simp: registrable_def plain_text_def\<close>)
  have sok: "stmt_ok ?s" using ok clock by (simp add: stored_def schema_def registrable_def)
  show ?thesis
    unfolding insert_user_def q using exact [OF parse sok, of "ext w"] new
    by (auto simp: runs_simps mysql_query_def sql_keys key_clash_def unique_keys_def taken_def
      account_def Let_def split: if_splits intro!: Q)
qed

lemma runs_register:
  assumes rq: "carries rq text" "get_reg_info text = Some (0, [user, nick, pwd, tel, email])" 
    and ok: "registrable user nick pwd tel email" and conf: "get_mysql_info e 256 = Some (0, c)"
    and noise: "\<And>x. taken colleq (tables w) ''name'' user \<Longrightarrow> env_garbage e x \<noteq> None"
  shows "runs (\<lambda>(_, w'). \<exists>time. keys (ext w') = keys (ext w) \<and>
      (\<exists>status. registered colleq (tables w) user nick (account user nick pwd tel time email) = (status, tables w') \<and>
        out w' = out w @ CONTENT_TYPE @ status_text status))
    (register_serve e rq () w)"
proof -
  obtain a b d where conf: "get_mysql_info e 256 = Some (0, a, b, d)" using conf by (cases c) auto
  define q where "q = fmt ''select * from user where name = `%s`'' [Str user]"
  have plain: "plain user" "plain nick" "plain pwd" "plain tel" "plain email" and len: "length user \<le> 128"
    using ok by (auto simp: registrable_def plain_text_def)
  have q: "sql_text ''select * from user where name = `%s`'' [Str user] = Some q"
    using len by (simp add: q_def sql_text_def store_def fmt_def unquote_def SQL_MAX_LEN_def)
  have parse: "sql_parse q = Some (Select ''*'' ''user'' [(''name'', user)])"
    unfolding q_def by (rule sql_user_exists) (rule plain(1))
  have sok: "stmt_ok (Select ''*'' ''user'' [(''name'', user)])"
    using ok by (simp add: stored_def schema_def registrable_def)
  have names: "view (snd (env_mysql_query e ''set names utf8'' x)) = view x" for x
    using exact [OF sql_set_names, of x] by auto
  have garbage: "runs (\<lambda>_. P) (env_garbage e x) = P" if "filter (matches colleq [(''name'', user)]) (tables w ''user'') \<noteq> []" for P x
    using noise [of x] that by (auto simp: runs_def taken_iff split: option.split)
  show ?thesis
    unfolding register_serve_def user_register_def conf
    by (auto simp: rq(2) runs_simps q names msql_conn_def mysql_query_def mysql_up keep_connect sql_keys put_def unchanged_def
        taken_iff registered_def register_status_def answer_status_put statuses garbage
        intro!: runs_with_body [OF rq(1)] runs_process_result_one [OF parse sok] runs_insert_user [OF ok] split: list.split if_splits) blast
qed

end

end
