(* ===== verification/Handlers.thy ===== *)
theory Handlers
  imports Site Upload_Cgi
begin

text \<open>
  What holds of the handlers in every environment, whatever the servers answer: they write nothing but the
  final status, whose meaning is their return code. The rules of the collection \<open>out_rules\<close> say that the
  external calls do not write to the standard output.
\<close>

named_theorems out_rules \<open>calls that leave the standard output alone\<close>

lemma out_redisCommand:
  assumes "\<And>a w'. out w' = out w \<Longrightarrow> Q (a, w')" shows "ok Q (redisCommand e f args w)"
  using assms by (auto simp: redisCommand_def ok_simps split: format_result.split)

lemma out_connect_redis [out_rules]:
  assumes "\<And>a w'. out w' = out w \<Longrightarrow> Q (a, w')" shows "ok Q (rop_connectdb_nopwd e ip port w)"
  using assms by (simp add: rop_connectdb_nopwd_def redis_connect_def ok_simps)

lemma out_rop [out_rules]:
  assumes "\<And>a w'. out w' = out w \<Longrightarrow> Q (a, w')"
  shows "ok Q (rop_zset_exit e key mem w)" "ok Q (rop_zset_add e key score mem w)"
    "ok Q (rop_hash_set e key fld val w)"
  unfolding rop_zset_exit_def rop_zset_add_def rop_hash_set_def ok_simps
  by (rule out_redisCommand; auto simp: ok_def assms split: option.splits)+

lemma out_rop_code [out_rules]:
  assumes "\<And>a w'. out w' = out w \<Longrightarrow> a \<in> {0, - 1} \<Longrightarrow> Q (a, w')"
  shows "ok Q (rop_zset_zrem e key mem w)" "ok Q (rop_hash_del e key fld w)" "ok Q (rop_zset_increment e key mem w)"
  unfolding rop_zset_zrem_def rop_hash_del_def rop_zset_increment_def ok_simps
  by (rule out_redisCommand; auto simp: ok_def assms reply_ok_def split: option.splits)+

lemma out_connect_mysql [out_rules]:
  assumes "\<And>a w'. out w' = out w \<Longrightarrow> Q (a, w')" shows "ok Q (connect_mysql e c w)"
  using assms by (simp add: connect_mysql_def msql_conn_def mysql_query_def ok_simps)

lemma out_run_sql [out_rules]:
  assumes "\<And>a w'. out w' = out w \<Longrightarrow> Q (a, w')" shows "ok Q (run_sql e f args w)"
  using assms by (simp add: run_sql_def sql_text_def mysql_query_def ok_simps)

lemma out_query_one [out_rules]:
  assumes "\<And>r t w'. out w' = out w \<Longrightarrow> Q (r, t, w')" shows "ok Q (query_one e f args buf w)"
  using assms
  by (auto simp: query_one_def sql_text_def process_result_one_def mysql_query_def ok_simps Let_def
      split: sql_reply.split list.split option.split)

lemma out_remove [out_rules]:
  assumes "\<And>a w'. out w' = out w \<Longrightarrow> Q (a, w')" shows "ok Q (remove_file_from_storage e fileid w)"
  unfolding remove_file_from_storage_def ok_simps using assms by (auto simp: system_def ok_simps intro!: ok_config)

lemma out_count_user_file [out_rules]:
  assumes "\<And>r w'. out w' = out w \<Longrightarrow> r \<in> {0, - 1} \<Longrightarrow> Q (r, w')" shows "ok Q (count_user_file e f user tmp w)"
  unfolding count_user_file_def ok_simps using assms by (auto simp: ok_simps intro!: out_rules)

lemma out_add_reference [out_rules]:
  assumes "\<And>r w'. out w' = out w \<Longrightarrow> r \<in> {0, - 1} \<Longrightarrow> Q (r, w')" shows "ok Q (add_reference e user md5 filename tmp w)"
  unfolding add_reference_def ok_simps using assms by (auto simp: ok_simps intro!: out_rules)

lemma out_shared_state [out_rules]:
  assumes "\<And>s w'. out w' = out w \<Longrightarrow> Q (s, w')" shows "ok Q (shared_state e user md5 filename fileid w)"
  unfolding shared_state_def ok_simps using assms by (auto simp: ok_simps intro!: out_rules)

lemma out_del_share [out_rules]:
  assumes "\<And>r t w'. out w' = out w \<Longrightarrow> r \<in> {0, - 1} \<Longrightarrow> Q (r, t, w')" shows "ok Q (del_share e user md5 filename fileid flag tmp w)"
  unfolding del_share_def ok_simps using assms by (auto simp: ok_simps intro!: out_rules)

lemma out_del_user_file [out_rules]:
  assumes "\<And>r t w'. out w' = out w \<Longrightarrow> r \<in> {0, - 1} \<Longrightarrow> Q (r, t, w')" shows "ok Q (del_user_file e user md5 filename tmp w)"
  unfolding del_user_file_def ok_simps using assms by (auto simp: ok_simps intro!: out_rules)

lemma out_del_reference [out_rules]:
  assumes "\<And>r w'. out w' = out w \<Longrightarrow> r \<in> {0, - 1} \<Longrightarrow> Q (r, w')" shows "ok Q (del_reference e md5 tmp w)"
  unfolding del_reference_def ok_simps using assms by (auto simp: ok_simps Let_def intro!: out_rules)

subsection \<open>The handlers\<close>

lemma code_deal_md5:
  "ok (\<lambda>(r, w'). out w' = out w \<and> r \<in> {0, - 1, - 2, - 3}) (deal_md5_body e c user md5 filename w)"
  unfolding deal_md5_body_def ok_simps by (auto simp: ok_simps intro!: out_rules)

lemma code_share_file:
  "ok (\<lambda>(r, w'). out w' = out w \<and> r \<in> {0, - 1, - 2}) (share_file_body e c user md5 filename w)"
  unfolding share_file_body_def ok_simps by (auto simp: ok_simps intro!: out_rules)

lemma code_del_file:
  "ok (\<lambda>(r, w'). out w' = out w \<and> r \<in> {0, - 1}) (del_file_body e c user md5 filename w)"
  unfolding del_file_body_def ok_simps by (auto simp: ok_simps intro!: out_rules split: option.split)

lemma code_pv_file:
  "ok (\<lambda>(r, w'). out w' = out w \<and> r \<in> {0, - 1}) (pv_file_body e c user md5 filename w)"
  unfolding pv_file_body_def ok_simps by (auto simp: ok_simps intro!: out_rules split: if_splits)

lemma code_save_file:
  "ok (\<lambda>(r, w'). out w' = out w \<and> r \<in> {0, - 1, - 2}) (save_file_body e c user md5 filename w)"
  unfolding save_file_body_def ok_simps by (auto simp: ok_simps intro!: out_rules)

lemma code_share_pv_file: "ok (\<lambda>(r, w'). out w' = out w \<and> r \<in> {0, - 1}) (share_pv_file_body e c md5 filename w)"
  unfolding share_pv_file_body_def ok_simps by (auto simp: ok_simps Let_def intro!: out_rules)

lemma code_cancel_share_file: "ok (\<lambda>(r, w'). out w' = out w \<and> r \<in> {0, - 1}) (cancel_share_file_body e c user md5 filename w)"
  unfolding cancel_share_file_body_def ok_simps by (auto simp: ok_simps intro!: out_rules)

lemma out_read_pipe [out_rules]:
  assumes "\<And>a w'. out w' = out w \<Longrightarrow> Q (a, w')" shows "ok Q (read_pipe e argv w)"
  using assms by (auto simp: read_pipe_def ok_simps split: option.split)

lemma out_upload_to_dstorage [out_rules]:
  assumes "\<And>a w'. out w' = out w \<Longrightarrow> Q (a, w')" shows "ok Q (upload_to_dstorage e filename w)"
  unfolding upload_to_dstorage_def ok_simps using assms
  by (auto simp: ok_simps intro!: ok_config out_read_pipe okI [of "trim_space _"] split: option.split)

lemma out_make_file_url [out_rules]:
  assumes "\<And>a w'. out w' = out w \<Longrightarrow> Q (a, w')" shows "ok Q (make_file_url e fileid w)"
  unfolding make_file_url_def ok_simps using assms
  by (auto simp: ok_simps Let_def intro!: ok_config out_read_pipe okI [of "strstr _ _"] split: option.split)

lemma out_recv_save_file [out_rules]:
  assumes "\<And>a w'. out w' = out w \<Longrightarrow> Q (a, w')" shows "ok Q (recv_save_file e len stdin w)"
  unfolding recv_save_file_def Let_def using assms by (auto simp: ok_simps intro!: okI [of "parse_upload _"] split: option.split)

lemma out_store_fileinfo [out_rules]:
  assumes "\<And>r w'. out w' = out w \<Longrightarrow> r \<in> {0, - 1} \<Longrightarrow> Q (r, w')" shows "ok Q (store_fileinfo_to_mysql e c u fileid url w)"
  unfolding store_fileinfo_to_mysql_def ok_simps using assms
  by (auto simp: ok_simps intro!: out_rules okI [of "get_file_suffix _ _"])

lemma code_upload_file: "ok (\<lambda>(r, w'). out w' = out w \<and> r \<in> {0, - 1}) (upload_file e c len stdin w)"
  unfolding upload_file_def ok_simps by (auto simp: ok_simps intro!: out_rules split: option.split)

text \<open>A handler that answers with a status for each of its return codes, and has no other codes.\<close>

definition answers_with :: "(int \<times> string) list \<Rightarrow> 'x world \<Rightarrow> (int \<times> 'x world) option \<Rightarrow> bool" where
  "answers_with table w m = ok (\<lambda>(r, w'). \<exists>s. map_of table r = Some s \<and> out w' = out w @ status_text s) m"

lemma answers_withI:
  assumes "ok (\<lambda>(r, w'). out w' = out w \<and> r \<in> fst ` set table) m"
    and "\<And>r s w. map_of table r = Some s \<Longrightarrow> h r w = answer_status s w \<and> is_status s"
  shows "answers_with table w (do { (r, w) \<leftarrow> m; w \<leftarrow> h r w; Some (r, w) })"
proof (cases m)
  case (Some a)
  obtain r w1 where a: "a = (r, w1)" by (cases a)
  then obtain s where s: "map_of table r = Some s" using okD [OF assms(1) Some] by (metis (mono_tags, lifting) case_prod_conv map_of_eq_None_iff option.exhaust)
  then show ?thesis
    using assms(2) [OF s] okD [OF assms(1) Some] a Some
    by (simp add: answers_with_def ok_simps answer_status_put put_def)
qed (simp add: answers_with_def ok_simps)

lemma codes: "is_status ''005''" "is_status ''006''" "is_status ''007''" "is_status ''010''" "is_status ''011''" "is_status ''012''"
  "is_status ''013''" "is_status ''014''" "is_status ''016''" "is_status ''017''" "is_status ''018''" "is_status ''019''"
  "is_status ''020''" "is_status ''021''" "is_status ''022''" "is_status ''111''" "is_status ''008''" "is_status ''009''"
  by (simp_all add: is_status_def isdigit_def code_def)

lemma answers_deal_md5:
  "answers_with [(0, ''006''), (- 1, ''007''), (- 2, ''005''), (- 3, ''007'')] w (deal_md5 e c user md5 filename w)"
  unfolding deal_md5_def using code_deal_md5 by (intro answers_withI) (auto simp: codes insert_commute split: if_splits)

subsection \<open>Properties\<close>


end
