(* ===== verification/File_Store.thy ===== *)
theory File_Store
  imports Reliable Answers
begin

text \<open>
  What the file programs promise, without tables and statements: for each digest the number of references,
  for each user, digest and name the number of entries, for each user the number of files. The operations
  on such a \<open>file_store\<close> are the specification; the programs implement them on the tables through the
  abstraction \<open>store_of\<close>.
\<close>

record file_store =
  fs_count :: "string \<Rightarrow> int option"
  fs_owned :: "string \<times> string \<times> string \<Rightarrow> nat"
  fs_total :: "string \<Rightarrow> int option"

definition bump :: "int option \<Rightarrow> int" where
  "bump n = (case n of None \<Rightarrow> 1 | Some i \<Rightarrow> i + 1)"

definition add_owner ::
    "(string \<Rightarrow> string \<Rightarrow> bool) \<Rightarrow> string \<Rightarrow> string \<Rightarrow> string \<Rightarrow> file_store \<Rightarrow> file_store" where
  "add_owner eq user md5 filename s =
     s\<lparr>fs_count := (\<lambda>m. if eq md5 m then Some (bump (fs_count s md5)) else fs_count s m),
       fs_owned := (\<lambda>(u, m, f). fs_owned s (u, m, f) + (if eq user u \<and> eq md5 m \<and> eq filename f then 1 else 0)),
       fs_total := (\<lambda>u. if eq user u then Some (bump (fs_total s user)) else fs_total s u)\<rparr>"

text \<open>Adding a file that is stored already; the two programs differ in their codes for a file that is not.\<close>

definition instant_upload ::
    "(string \<Rightarrow> string \<Rightarrow> bool) \<Rightarrow> string \<Rightarrow> string \<Rightarrow> string \<Rightarrow> file_store \<Rightarrow> int \<times> file_store" where
  "instant_upload eq user md5 filename s =
    (if fs_count s md5 = None then (- 3, s)
     else if 0 < fs_owned s (user, md5, filename) then (- 2, s)
     else (0, add_owner eq user md5 filename s))"

definition save_shared ::
    "(string \<Rightarrow> string \<Rightarrow> bool) \<Rightarrow> string \<Rightarrow> string \<Rightarrow> string \<Rightarrow> file_store \<Rightarrow> int \<times> file_store" where
  "save_shared eq user md5 filename s =
    (if 0 < fs_owned s (user, md5, filename) then (- 2, s)
     else if fs_count s md5 = None then (- 1, s)
     else (0, add_owner eq user md5 filename s))"

text \<open>Recording an uploaded file, which fails for a digest that is stored already.\<close>

definition new_file ::
    "(string \<Rightarrow> string \<Rightarrow> bool) \<Rightarrow> string \<Rightarrow> string \<Rightarrow> string \<Rightarrow> file_store \<Rightarrow> int \<times> file_store" where
  "new_file eq user md5 filename s =
    (if fs_count s md5 = None then (0, add_owner eq user md5 filename s) else (- 1, s))"

text \<open>Removing an entry of a file that is not shared: the last reference removes the file.\<close>

definition lower :: "int option \<Rightarrow> int option" where
  "lower n = (case n of None \<Rightarrow> None | Some i \<Rightarrow> if i = 1 then None else Some (i - 1))"

definition delete_owned ::
    "(string \<Rightarrow> string \<Rightarrow> bool) \<Rightarrow> string \<Rightarrow> string \<Rightarrow> string \<Rightarrow> file_store \<Rightarrow> file_store" where
  "delete_owned eq user md5 filename s =
     s\<lparr>fs_count := (\<lambda>m. if eq md5 m then lower (fs_count s md5) else fs_count s m),
       fs_owned := (\<lambda>(u, m, f). if eq user u \<and> eq md5 m \<and> eq filename f then 0 else fs_owned s (u, m, f)),
       fs_total := (\<lambda>u. if eq user u then lower (fs_total s user) else fs_total s u)\<rparr>"

subsection \<open>The abstraction\<close>

definition cell :: "(string \<Rightarrow> string \<Rightarrow> bool) \<Rightarrow> db \<Rightarrow> string \<Rightarrow> string \<Rightarrow> string \<Rightarrow> int option" where
  "cell eq d t k v =
    (case filter (matches eq [(k, v)]) (d t) of [] \<Rightarrow> None | r # _ \<Rightarrow> map_option atoi (r ''count''))"

definition entries :: "(string \<Rightarrow> string \<Rightarrow> bool) \<Rightarrow> db \<Rightarrow> string \<times> string \<times> string \<Rightarrow> nat" where
  "entries eq d = (\<lambda>(u, m, f).
     length (filter (matches eq [(''user'', u), (''md5'', m), (''filename'', f)]) (d ''user_file_list'')))"

definition store_of :: "(string \<Rightarrow> string \<Rightarrow> bool) \<Rightarrow> db \<Rightarrow> file_store" where
  "store_of eq d = \<lparr>fs_count = cell eq d ''file_info'' ''md5'', fs_owned = entries eq d,
     fs_total = cell eq d ''user_file_count'' ''user''\<rparr>"

text \<open>Tables whose counters are decimal numbers that can be incremented, one for each key.\<close>

definition counters :: "(string \<Rightarrow> string \<Rightarrow> bool) \<Rightarrow> db \<Rightarrow> string \<Rightarrow> string \<Rightarrow> bool" where
  "counters eq d t k \<longleftrightarrow>
    (\<forall>v. filter (matches eq [(k, v)]) (d t) = [] \<or>
         (\<exists>r i. filter (matches eq [(k, v)]) (d t) = [r] \<and> r ''count'' = Some (show_int i) \<and> 0 \<le> i \<and> i < 2 ^ 31 - 1))"

definition well_formed :: "(string \<Rightarrow> string \<Rightarrow> bool) \<Rightarrow> db \<Rightarrow> bool" where
  "well_formed eq d \<longleftrightarrow> counters eq d ''file_info'' ''md5'' \<and> counters eq d ''user_file_count'' ''user''"

lemma counters_cases:
  assumes "counters eq d t k"
  obtains "filter (matches eq [(k, v)]) (d t) = []" "cell eq d t k v = None"
  | r i where "filter (matches eq [(k, v)]) (d t) = [r]" "r ''count'' = Some (show_int i)" "cell eq d t k v = Some i"
    "0 \<le> i" "i < 2 ^ 31 - 1" "atoi (show_int i) = i"
  using assms [unfolded counters_def, rule_format, of v] atoi_show_int by (fastforce simp: cell_def)

lemma filter_update:
  "k \<noteq> col \<Longrightarrow> filter (matches eq [(k, v)]) (map (\<lambda>r. if matches eq [(k, v)] r then r(col \<mapsto> x) else r) rows) =
     map (\<lambda>r. r(col \<mapsto> x)) (filter (matches eq [(k, v)]) rows)"
  by (induction rows) (auto simp: matches_one)

lemma cell_cong: "d' t = d t \<Longrightarrow> cell eq d' t = cell eq d t"
  by (simp add: cell_def fun_eq_iff)

lemma counters_cong: "d' t = d t \<Longrightarrow> counters eq d' t k = counters eq d t k"
  by (simp add: counters_def)

lemma entries_cong: "d' ''user_file_list'' = d ''user_file_list'' \<Longrightarrow> entries eq d' = entries eq d"
  by (simp add: entries_def fun_eq_iff)

context collation
begin

lemma cell_class: "colleq v v' \<Longrightarrow> cell colleq d t k v = cell colleq d t k v'"
  by (simp add: cell_def matches_class)

lemma cell_set:
  assumes "counters colleq d t k" "0 \<le> j" "j < 2 ^ 31" "k \<noteq> ''count''"
    and d': "d' = snd (exec colleq (Update t ''count'' (show_int j) [(k, v)]) d)"
  shows "cell colleq d' t k v' =
    (if colleq v v' \<and> cell colleq d t k v' \<noteq> None then Some j else cell colleq d t k v')"
proof -
  let ?up = "\<lambda>r. if matches colleq [(k, v)] r then r(''count'' \<mapsto> show_int j) else r"
  have same: "matches colleq [(k, v')] \<circ> ?up = matches colleq [(k, v')]"
    using assms(4) by (simp add: matches_one fun_eq_iff)
  have "d' t = map ?up (d t)" by (simp add: d')
  then have rows: "filter (matches colleq [(k, v')]) (d' t) = map ?up (filter (matches colleq [(k, v')]) (d t))"
    by (simp only: filter_map same)
  have j: "atoi (show_int j) = j" by (rule atoi_show_int) (use assms in simp_all)
  show ?thesis using assms(1)
  proof (cases rule: counters_cases [where v = v'])
    case (2 r i)
    have "matches colleq [(k, v')] r" using filter_ConsD [OF 2(1)] by simp
    then have "matches colleq [(k, v)] r = colleq v v'" by (rule matches_same)
    then show ?thesis using 2 rows j by (simp add: cell_def)
  qed (use rows in \<open>simp add: cell_def\<close>)
qed

lemma cell_new:
  assumes "cell colleq d t k v = None" "counters colleq d t k" "new k = Some v" "new ''count'' = Some (show_int j)" "0 \<le> j" "j < 2 ^ 31"
  shows "cell colleq (d(t := d t @ [new])) t k v' = (if colleq v v' then Some j else cell colleq d t k v')"
proof (cases "colleq v v'")
  case True
  have "filter (matches colleq [(k, v)]) (d t) = []" using assms(1,2) by (auto elim: counters_cases [where v = v])
  then have "filter (matches colleq [(k, v')]) (d t) = []" using matches_class [OF True, of k] by simp
  moreover have "atoi (show_int j) = j" by (rule atoi_show_int) (use assms in simp_all)
  ultimately show ?thesis using True assms(3,4) by (simp add: cell_def matches_one)
qed (use assms in \<open>simp add: cell_def matches_one\<close>)

lemma cell_delete:
  "cell colleq (snd (exec colleq (Delete t [(k, v)]) d)) t k v' = (if colleq v v' then None else cell colleq d t k v')"
proof -
  have "filter (matches colleq [(k, v')]) (filter (\<lambda>r. \<not> matches colleq [(k, v)] r) rows) =
      (if colleq v v' then [] else filter (matches colleq [(k, v')]) rows)" for rows
    using matches_class [of v v' k] matches_disjoint [of k v _ v'] by (induction rows) auto
  then show ?thesis by (simp add: cell_def)
qed

lemma entries_delete:
  "entries colleq (snd (exec colleq (Delete ''user_file_list'' [(''user'', user), (''md5'', md5), (''filename'', filename)]) d)) (u, m, f) =
    (if colleq user u \<and> colleq md5 m \<and> colleq filename f then 0 else entries colleq d (u, m, f))"
proof -
  let ?del = "matches colleq [(''user'', user), (''md5'', md5), (''filename'', filename)]"
  let ?is = "matches colleq [(''user'', u), (''md5'', m), (''filename'', f)]"
  have split: "?del r = (matches colleq [(''user'', user)] r \<and> matches colleq [(''md5'', md5)] r \<and> matches colleq [(''filename'', filename)] r)"
    "?is r = (matches colleq [(''user'', u)] r \<and> matches colleq [(''md5'', m)] r \<and> matches colleq [(''filename'', f)] r)" for r
    by (simp_all add: matches_def)
  have "filter ?is (filter (\<lambda>r. \<not> ?del r) rows) =
      (if colleq user u \<and> colleq md5 m \<and> colleq filename f then [] else filter ?is rows)" for rows
  proof (induction rows)
    case (Cons r rows)
    have "?is r \<Longrightarrow> ?del r = (colleq user u \<and> colleq md5 m \<and> colleq filename f)"
      using matches_same [of "''user''" u r user] matches_same [of "''md5''" m r md5] matches_same [of "''filename''" f r filename]
      by (simp add: split)
    with Cons show ?case by auto
  qed simp
  then show ?thesis by (simp add: entries_def)
qed

lemma entries_new:
  assumes "new ''user'' = Some user" "new ''md5'' = Some md5" "new ''filename'' = Some filename"
  shows "entries colleq (d(''user_file_list'' := d ''user_file_list'' @ [new])) (u, m, f) =
    entries colleq d (u, m, f) + (if colleq user u \<and> colleq md5 m \<and> colleq filename f then 1 else 0)"
  using assms by (simp add: entries_def matches_def)

text \<open>The three changes of a program that adds an owner: the count of the file, the owner's entry, the owner's total.\<close>

lemma store_of_add_owner:
  assumes "\<And>v. cell colleq d1 ''file_info'' ''md5'' v =
      (if colleq md5 v then Some (bump (cell colleq d ''file_info'' ''md5'' md5)) else cell colleq d ''file_info'' ''md5'' v)"
    and "\<And>t. t \<noteq> ''file_info'' \<Longrightarrow> d1 t = d t"
    and "d2 = d1(''user_file_list'' := d1 ''user_file_list'' @ [new])"
    and "new ''user'' = Some user" "new ''md5'' = Some md5" "new ''filename'' = Some filename"
    and "\<And>u. cell colleq d3 ''user_file_count'' ''user'' u =
      (if colleq user u then Some (bump (cell colleq d2 ''user_file_count'' ''user'' user)) else cell colleq d2 ''user_file_count'' ''user'' u)"
    and "\<And>t. t \<noteq> ''user_file_count'' \<Longrightarrow> d3 t = d2 t"
  shows "store_of colleq d3 = add_owner colleq user md5 filename (store_of colleq d)"
proof -
  have 1: "cell colleq d3 ''file_info'' = cell colleq d1 ''file_info''" using assms(3,8) by (intro cell_cong) simp
  have 2: "entries colleq d3 x = entries colleq d2 x" for x using entries_cong [of d3 d2] assms(8) by simp
  have 3: "entries colleq d1 = entries colleq d" using assms(2) by (intro entries_cong) simp
  have 4: "cell colleq d2 ''user_file_count'' = cell colleq d ''user_file_count''" using assms(2,3) by (intro cell_cong) simp
  show ?thesis
    unfolding store_of_def add_owner_def
    using assms(1,7) entries_new [OF assms(4-6), of d1, folded assms(3)] by (auto simp: 1 2 3 4 fun_eq_iff)
qed

end

subsection \<open>The programs\<close>

lemma show_wrap32_length: "length (show_int (wrap32 i)) \<le> 11"
proof -
  have "nat \<bar>wrap32 i\<bar> < 10 ^ Suc 9" using wrap32_range [of i] by simp
  then have "length (show_nat (nat \<bar>wrap32 i\<bar>)) \<le> Suc 9" by (rule show_nat_length)
  then show ?thesis by (cases "wrap32 i < 0") (simp_all add: show_int_def)
qed

lemma show_int_length: "- (2 ^ 31) \<le> j \<Longrightarrow> j < 2 ^ 31 \<Longrightarrow> length (show_int j) \<le> 11"
  using show_wrap32_length [of j] by (simp add: wrap32_id)

definition short_fields :: "string \<Rightarrow> string \<Rightarrow> string \<Rightarrow> bool" where
  "short_fields user md5 filename \<longleftrightarrow> fields_ok user md5 filename \<and> length user + length md5 + length filename \<le> 300"

text \<open>The file is not shared, its counters are positive, and the storage system does what it is told.\<close>

definition deletable :: "(string \<Rightarrow> string \<Rightarrow> bool) \<Rightarrow> string \<Rightarrow> string \<Rightarrow> string \<Rightarrow> db \<Rightarrow> bool" where
  "deletable eq user md5 filename d \<longleftrightarrow>
     (\<exists>n. cell eq d ''file_info'' ''md5'' md5 = Some n \<and> 1 \<le> n) \<and>
     (\<exists>n. cell eq d ''user_file_count'' ''user'' user = Some n \<and> 1 \<le> n) \<and>
     (\<forall>r \<in> set (d ''user_file_list''). r ''shared_status'' = Some ''0'') \<and>
     (\<forall>r \<in> set (d ''file_info''). \<exists>s. r ''file_id'' = Some s \<and> length s \<le> 256)"

lemma format_zlexcount:
  "redisFormatCommand ''zlexcount %s [%s [%s'' [Str key, Str a, Str b] = Formatted [''zlexcount'', key, ''['' @ a, ''['' @ b]"
  by (simp add: redisFormatCommand_def)

context reliable
begin

lemma runs_set_counter:
  assumes parse: "sql_parse (fmt f [Num j, Str v]) = Some (Update t ''count'' (show_int j) [(k, v)])"
    and sok: "stored t k v" "(t, k) \<in> {(''file_info'', ''md5''), (''user_file_count'', ''user'')}"
    and len: "length (fmt f [Num j, Str v]) < SQL_MAX_LEN"
    and c: "counters colleq (tables w) t k" "cell colleq (tables w) t k v \<noteq> None" and j: "0 \<le> j" "j < 2 ^ 31"
    and Q: "\<And>w'. (\<And>v'. cell colleq (tables w') t k v' = (if colleq v v' then Some j else cell colleq (tables w) t k v')) \<Longrightarrow>
      filter (matches colleq [(k, v)]) (tables w' t) =
        map (\<lambda>r. r(''count'' \<mapsto> show_int j)) (filter (matches colleq [(k, v)]) (tables w t)) \<Longrightarrow>
      (\<And>t'. t' \<noteq> t \<Longrightarrow> tables w' t' = tables w t') \<Longrightarrow> Q (True, w')"
  shows "runs Q (run_sql e f [Num j, Str v] w)"
proof (rule runs_run_sql [OF parse _ len])
  show "stmt_ok (Update t ''count'' (show_int j) [(k, v)])"
    using sok j by (auto simp: stored_int)
  fix w'
  assume d: "tables w' = snd (exec colleq (Update t ''count'' (show_int j) [(k, v)]) (tables w))"
  have k: "k \<noteq> ''count''" using sok(2) by auto
  have "cell colleq (tables w') t k v' = (if colleq v v' then Some j else cell colleq (tables w) t k v')" for v'
    using cell_set [OF c(1) j k d, of v'] c(2) cell_class [of v v' "tables w" t k] by auto
  moreover have "filter (matches colleq [(k, v)]) (tables w' t) =
      map (\<lambda>r. r(''count'' \<mapsto> show_int j)) (filter (matches colleq [(k, v)]) (tables w t))"
    using filter_update [OF k] by (simp add: d)
  ultimately show "Q (fst (exec colleq (Update t ''count'' (show_int j) [(k, v)]) (tables w)) \<noteq> SqlError, w')"
    using Q d by simp
qed

lemma runs_select_counter:
  assumes parse: "sql_parse (fmt f [Str v]) = Some (Select ''count'' t [(k, v)])"
    and sok: "stored t k v" "(t, k) \<in> {(''file_info'', ''md5''), (''user_file_count'', ''user'')}"
    and len: "length (fmt f [Str v]) < SQL_MAX_LEN" and c: "counters colleq (tables w) t k"
    and Q: "\<And>w'. tables w' = tables w \<Longrightarrow> cell colleq (tables w) t k v = None \<Longrightarrow> Q (1, b, w')"
      "\<And>w' i. tables w' = tables w \<Longrightarrow> cell colleq (tables w) t k v = Some i \<Longrightarrow> 0 \<le> i \<Longrightarrow> i < 2 ^ 31 - 1 \<Longrightarrow>
        atoi (show_int i) = i \<Longrightarrow> Q (0, show_int i, w')"
  shows "runs Q (query_one e f [Str v] (Some b) w)"
proof (rule runs_query_one [OF parse _ len])
  show "stmt_ok (Select ''count'' t [(k, v)])" using sok by (auto simp: schema_def)
next
  fix r rs s
  assume *: "filter (matches colleq [(k, v)]) (tables w t) = r # rs" "r ''count'' = Some s"
  from c show "length s < 512"
  proof (cases rule: counters_cases [where v = v])
    case (2 r' i)
    then have "s = show_int (wrap32 i)" using * by (simp add: wrap32_id)
    then show ?thesis using show_wrap32_length [of i] by simp
  qed (use * in simp)
next
  fix w' assume "same w w'"
  with c show "case filter (matches colleq [(k, v)]) (tables w t) of
      [] \<Rightarrow> Q (1, case Some b of None \<Rightarrow> [] | Some b \<Rightarrow> b, w')
    | r # rs \<Rightarrow> (case Some b of None \<Rightarrow> Q (2, [], w') | Some b \<Rightarrow> Q (0, case r ''count'' of None \<Rightarrow> b | Some s \<Rightarrow> s, w'))"
    using Q by (cases rule: counters_cases [where v = v]) (auto simp: unchanged_def)
qed simp

lemma runs_count_user_file:
  assumes u: "plain_text 128 user" and c: "counters colleq (tables w) ''user_file_count'' ''user''"
    and Q: "\<And>w'. (\<And>u. cell colleq (tables w') ''user_file_count'' ''user'' u =
          (if colleq user u then Some (bump (cell colleq (tables w) ''user_file_count'' ''user'' user))
           else cell colleq (tables w) ''user_file_count'' ''user'' u)) \<Longrightarrow>
      (\<And>t. t \<noteq> ''user_file_count'' \<Longrightarrow> tables w' t = tables w t) \<Longrightarrow> Q (0, w')"
  shows "runs Q (count_user_file e INSERT_USER_COUNT user tmp w)"
proof -
  have p: "plain user" "length user \<le> 128" using u by (simp_all add: plain_text_def)
  have sel: "length (fmt ''select count from user_file_count where user = `%s`'' [Str user]) < SQL_MAX_LEN"
    and ins: "length (fmt INSERT_USER_COUNT [Str user, Num 1]) < SQL_MAX_LEN"
    using p show_int_digit by (simp_all add: fmt_def unquote_def SQL_MAX_LEN_def INSERT_USER_COUNT_def)
  have upd: "length (fmt ''update user_file_count set count = %d where user = `%s`'' [Num (i + 1), Str user]) < SQL_MAX_LEN"
    if "0 \<le> i" "i < 2147483647" for i
    using p show_int_length [of "i + 1"] that by (simp add: fmt_def unquote_def SQL_MAX_LEN_def)
  have new: "runs R (run_sql e INSERT_USER_COUNT [Str user, Num 1] w1)"
    if w1: "tables w1 = tables w" and none: "cell colleq (tables w) ''user_file_count'' ''user'' user = None"
      and R: "\<And>w'. (\<And>u. cell colleq (tables w') ''user_file_count'' ''user'' u =
          (if colleq user u then Some 1 else cell colleq (tables w) ''user_file_count'' ''user'' u)) \<Longrightarrow>
        (\<And>t. t \<noteq> ''user_file_count'' \<Longrightarrow> tables w' t = tables w t) \<Longrightarrow> R (True, w')" for R w1
  proof (rule runs_run_sql [OF sql_insert_user_count(1) _ ins])
    let ?new = "[''count'' \<mapsto> show_int 1, ''user'' \<mapsto> user] :: row"
    have "filter (matches colleq [(''user'', user)]) (tables w ''user_file_count'') = []"
      using c none by (auto elim: counters_cases [where v = user])
    then have fresh: "\<not> key_clash colleq ''user_file_count'' ?new (tables w ''user_file_count'')"
      by (simp add: key_clash_def unique_keys_def list_ex_iff filter_empty_conv)
    fix w'
    assume "tables w' = snd (exec colleq (Insert ''user_file_count'' [''user'', ''count''] [user, show_int 1]) (tables w1))"
    then have d: "tables w' = (tables w)(''user_file_count'' := tables w ''user_file_count'' @ [?new])"
      using fresh w1 by (simp add: Let_def)
    then show "R (fst (exec colleq (Insert ''user_file_count'' [''user'', ''count''] [user, show_int 1]) (tables w1)) \<noteq> SqlError, w')"
      using R cell_new [OF none c, of ?new 1] fresh w1 by (simp add: Let_def)
  qed (use p u in \<open>simp_all add: stored_simps stored_int\<close>)
  show ?thesis
    unfolding count_user_file_def runs_simps
    by (rule runs_select_counter [OF sql_count_of_user _ _ sel c])
      (use p u upd c Q in \<open>auto simp: runs_simps stored_simps bump_def sql_set_user_count wrap32_id
          intro!: new runs_set_counter [where k = "''user''" and t = "''user_file_count''"]\<close>)
qed

lemma runs_insert_user_file:
  assumes f: "short_fields user md5 filename"
    and Q: "\<And>w' new. tables w' = (tables w)(''user_file_list'' := tables w ''user_file_list'' @ [new]) \<Longrightarrow>
      new ''user'' = Some user \<Longrightarrow> new ''md5'' = Some md5 \<Longrightarrow> new ''filename'' = Some filename \<Longrightarrow> Q (True, w')"
  shows "runs Q (run_sql e INSERT_USER_FILE [Str user, Str md5, Str (strftime_now e w), Str filename, Num 0, Num 0] w)"
proof (rule runs_run_sql [OF sql_insert_user_file])
  have fo: "fields_ok user md5 filename" using f by (simp add: short_fields_def)
  show "plain user" "plain md5" "plain filename" using fo by simp_all
  show "stmt_ok (Insert ''user_file_list'' [''user'', ''md5'', ''createtime'', ''filename'', ''shared_status'', ''pv'']
      [user, md5, strftime_now e w, filename, show_int 0, show_int 0])"
    using fo stored_int [of 0 "''user_file_list''"] by (auto simp: stored_simps)
  show "length (fmt INSERT_USER_FILE [Str user, Str md5, Str (strftime_now e w), Str filename, Num 0, Num 0]) < SQL_MAX_LEN"
    using f clock_short [of "ext w"]
    by (simp add: fmt_def unquote_def INSERT_USER_FILE_def SQL_MAX_LEN_def short_fields_def show_int_digit strftime_now_def)
qed (auto simp: Let_def key_clash_def unique_keys_def intro!: Q)

lemma runs_add_reference:
  assumes f: "short_fields user md5 filename" and wf: "well_formed colleq (tables w)"
    and fi: "fs_count (store_of colleq (tables w)) md5 = Some i" and i: "0 \<le> i" "i < 2 ^ 31 - 1" "atoi (show_int i) = i"
    and Q: "\<And>w'. store_of colleq (tables w') = add_owner colleq user md5 filename (store_of colleq (tables w)) \<Longrightarrow> Q (0, w')"
  shows "runs Q (add_reference e user md5 filename (show_int i) w)"
proof -
  have fo: "fields_ok user md5 filename" using f by (simp add: short_fields_def)
  have c: "counters colleq (tables w) ''file_info'' ''md5''" "counters colleq (tables w) ''user_file_count'' ''user''"
    using wf by (simp_all add: well_formed_def)
  have ci: "cell colleq (tables w) ''file_info'' ''md5'' md5 = Some i" using fi by (simp add: store_of_def)
  have n: "wrap32 (i + 1) = i + 1" by (rule wrap32_id) (use i in simp_all)
  have upd: "length (fmt ''update file_info set count = %d where md5 = `%s`'' [Num (i + 1), Str md5]) < SQL_MAX_LEN"
    using f show_wrap32_length [of "i + 1", unfolded n] by (simp add: fmt_def unquote_def SQL_MAX_LEN_def short_fields_def)
  have last: "Q (0, w3)"
    if "\<And>v. cell colleq (tables w1) ''file_info'' ''md5'' v = (if colleq md5 v then Some (i + 1) else cell colleq (tables w) ''file_info'' ''md5'' v)"
      "\<And>t. t \<noteq> ''file_info'' \<Longrightarrow> tables w1 t = tables w t"
      "tables w2 = (tables w1)(''user_file_list'' := tables w1 ''user_file_list'' @ [new])"
      "new ''user'' = Some user" "new ''md5'' = Some md5" "new ''filename'' = Some filename"
      "\<And>u. cell colleq (tables w3) ''user_file_count'' ''user'' u =
          (if colleq user u then Some (bump (cell colleq (tables w2) ''user_file_count'' ''user'' user))
           else cell colleq (tables w2) ''user_file_count'' ''user'' u)"
      "\<And>t. t \<noteq> ''user_file_count'' \<Longrightarrow> tables w3 t = tables w2 t" for w1 w2 w3 new
    by (rule Q, rule store_of_add_owner [OF _ that(2-8)]) (simp add: that(1) ci bump_def)
  have keep: "counters colleq (tables w2) ''user_file_count'' ''user''"
    if "tables w2 ''user_file_count'' = tables w ''user_file_count''" for w2
    using c(2) that by (simp add: counters_def)
  show ?thesis
    unfolding add_reference_def runs_simps i(3) n
    by (rule runs_set_counter [OF sql_set_count(1) _ _ upd c(1)])
      (use i in \<open>auto simp: stored_simps runs_simps fields_ok_simps [OF fo] ci intro!: runs_insert_user_file [OF f] runs_count_user_file last keep\<close>)
qed

lemma runs_owned:
  assumes f: "short_fields user md5 filename"
    and Q: "\<And>w'. tables w' = tables w \<Longrightarrow> Q (if 0 < fs_owned (store_of colleq (tables w)) (user, md5, filename) then 2 else 1, [], w')"
  shows "runs Q (query_one e ''select * from user_file_list where user = `%s` and md5 = `%s` and filename = `%s`''
      [Str user, Str md5, Str filename] None w)"
proof (rule runs_query_one [OF sql_owned])
  have fo: "fields_ok user md5 filename" using f by (simp add: short_fields_def)
  then show "plain user" "plain md5" "plain filename"
    "stmt_ok (Select ''*'' ''user_file_list'' [(''user'', user), (''md5'', md5), (''filename'', filename)])"
    by (simp_all add: stored_simps)
  show "length (fmt ''select * from user_file_list where user = `%s` and md5 = `%s` and filename = `%s`''
      [Str user, Str md5, Str filename]) < SQL_MAX_LEN"
    using f by (simp add: fmt_def unquote_def SQL_MAX_LEN_def short_fields_def)
qed (use Q in \<open>auto simp: unchanged_def store_of_def entries_def split: list.split\<close>)

lemma runs_file_count:
  assumes f: "short_fields user md5 filename" and wf: "well_formed colleq (tables w)"
    and Q: "\<And>w'. tables w' = tables w \<Longrightarrow> fs_count (store_of colleq (tables w)) md5 = None \<Longrightarrow> Q (1, b, w')"
      "\<And>w' i. tables w' = tables w \<Longrightarrow> fs_count (store_of colleq (tables w)) md5 = Some i \<Longrightarrow> 0 \<le> i \<Longrightarrow> i < 2 ^ 31 - 1 \<Longrightarrow>
        atoi (show_int i) = i \<Longrightarrow> Q (0, show_int i, w')"
  shows "runs Q (query_one e ''select count from file_info where md5 = `%s`'' [Str md5] (Some b) w)"
proof (rule runs_select_counter [OF sql_count_of_file])
  have fo: "fields_ok user md5 filename" using f by (simp add: short_fields_def)
  then show "plain md5" "stored ''file_info'' ''md5'' md5" by (simp_all add: stored_simps)
  show "length (fmt ''select count from file_info where md5 = `%s`'' [Str md5]) < SQL_MAX_LEN"
    using f by (simp add: fmt_def unquote_def SQL_MAX_LEN_def short_fields_def)
qed (use Q wf in \<open>auto simp: store_of_def well_formed_def\<close>)

lemma runs_answer:
  assumes "is_status s" "\<And>w'. tables w' = tables w \<Longrightarrow> out w' = out w @ status_text s \<Longrightarrow> Q w'"
  shows "runs Q (answer_status s w)"
  using assms by (simp add: answer_status_put runs_simps)

lemma refines_deal_md5:
  assumes f: "short_fields user md5 filename" and wf: "well_formed colleq (tables w)"
  shows "runs (\<lambda>(r, w'). (r, store_of colleq (tables w')) = instant_upload colleq user md5 filename (store_of colleq (tables w)))
    (deal_md5 e c user md5 filename w)"
  unfolding deal_md5_def deal_md5_body_def runs_simps
  by (auto intro!: runs_connect_mysql runs_file_count [OF f] runs_owned [OF f] runs_add_reference [OF f] runs_answer
      simp: runs_simps unchanged_def wf instant_upload_def is_status_def isdigit_def code_def)

lemma refines_save_file:
  assumes f: "short_fields user md5 filename" and wf: "well_formed colleq (tables w)"
  shows "runs (\<lambda>(r, w'). (r, store_of colleq (tables w')) = save_shared colleq user md5 filename (store_of colleq (tables w)))
    (save_file e c user md5 filename w)"
  unfolding save_file_def save_file_body_def runs_simps
  by (auto intro!: runs_connect_mysql runs_file_count [OF f] runs_owned [OF f] runs_add_reference [OF f] runs_answer
      simp: runs_simps unchanged_def wf save_shared_def is_status_def isdigit_def code_def)

subsubsection \<open>Deletion\<close>

lemma runs_del_user_file:
  assumes f: "short_fields user md5 filename" and c: "counters colleq (tables w) ''user_file_count'' ''user''"
    and n: "cell colleq (tables w) ''user_file_count'' ''user'' user = Some n" "1 \<le> n"
    and Q: "\<And>w' tmp. (\<And>u. cell colleq (tables w') ''user_file_count'' ''user'' u =
          (if colleq user u then lower (Some n) else cell colleq (tables w) ''user_file_count'' ''user'' u)) \<Longrightarrow>
        (\<And>u m g. entries colleq (tables w') (u, m, g) =
          (if colleq user u \<and> colleq md5 m \<and> colleq filename g then 0 else entries colleq (tables w) (u, m, g))) \<Longrightarrow>
        tables w' ''file_info'' = tables w ''file_info'' \<Longrightarrow>
        tables w' ''user_file_list'' =
          filter (\<lambda>r. \<not> matches colleq [(''user'', user), (''md5'', md5), (''filename'', filename)] r) (tables w ''user_file_list'') \<Longrightarrow>
        Q (0, tmp, w')"
  shows "runs Q (del_user_file e user md5 filename tmp w)"
proof -
  have fo: "fields_ok user md5 filename" using f by (simp add: short_fields_def)
  have u: "plain user" "length user \<le> 128" using fields_ok_simps [OF fo] by (simp_all add: plain_text_def)
  have sel: "length (fmt ''select count from user_file_count where user = `%s`'' [Str user]) < SQL_MAX_LEN"
    and del: "length (fmt ''delete from user_file_count where user = `%s`'' [Str user]) < SQL_MAX_LEN"
    and lst: "length (fmt ''delete from user_file_list where user = `%s` and md5 = `%s` and filename = `%s`''
      [Str user, Str md5, Str filename]) < SQL_MAX_LEN"
    using f u by (simp_all add: fmt_def unquote_def SQL_MAX_LEN_def short_fields_def)
  have upd: "length (fmt ''update user_file_count set count = %d where user = `%s`'' [Num (i - 1), Str user]) < SQL_MAX_LEN"
    if "1 \<le> i" "i < 2147483647" for i
    using u show_int_length [of "i - 1"] that by (simp add: fmt_def unquote_def SQL_MAX_LEN_def)
  have row: "runs R (run_sql e ''delete from user_file_list where user = `%s` and md5 = `%s` and filename = `%s`''
      [Str user, Str md5, Str filename] w1)"
    if w1: "\<And>u. cell colleq (tables w1) ''user_file_count'' ''user'' u =
          (if colleq user u then lower (Some n) else cell colleq (tables w) ''user_file_count'' ''user'' u)"
        "\<And>t. t \<noteq> ''user_file_count'' \<Longrightarrow> tables w1 t = tables w t"
      and R: "\<And>w'. \<forall>tmp. Q (0, tmp, w') \<Longrightarrow> R (True, w')" for R w1
  proof (rule runs_run_sql [OF sql_delete_user_file _ lst])
    fix w'
    assume d: "tables w' = snd (exec colleq (Delete ''user_file_list'' [(''user'', user), (''md5'', md5), (''filename'', filename)]) (tables w1))"
    have e: "entries colleq (tables w1) = entries colleq (tables w)" by (rule entries_cong) (simp add: w1(2))
    have c: "cell colleq (tables w') ''user_file_count'' = cell colleq (tables w1) ''user_file_count''"
      by (rule cell_cong) (simp add: d)
    have "entries colleq (tables w') (u, m, g) =
        (if colleq user u \<and> colleq md5 m \<and> colleq filename g then 0 else entries colleq (tables w) (u, m, g))" for u m g
      unfolding d entries_delete e by (rule refl)
    moreover have "tables w' ''file_info'' = tables w ''file_info''" unfolding d by (simp add: w1(2))
    moreover have "tables w' ''user_file_list'' =
        filter (\<lambda>r. \<not> matches colleq [(''user'', user), (''md5'', md5), (''filename'', filename)] r) (tables w ''user_file_list'')"
      unfolding d by (simp add: w1(2))
    ultimately have "\<forall>tmp. Q (0, tmp, w')" using w1(1) by (intro allI Q) (simp_all only: c)
    then show "R (fst (exec colleq (Delete ''user_file_list'' [(''user'', user), (''md5'', md5), (''filename'', filename)]) (tables w1)) \<noteq> SqlError, w')"
      using R by simp
  qed (use fo in \<open>simp_all add: stored_simps\<close>)
  have drop: "runs R (run_sql e ''delete from user_file_count where user = `%s`'' [Str user] w1)"
    if w1: "tables w1 = tables w" and one: "n = 1"
      and R: "\<And>w'. (\<And>u. cell colleq (tables w') ''user_file_count'' ''user'' u =
          (if colleq user u then lower (Some n) else cell colleq (tables w) ''user_file_count'' ''user'' u)) \<Longrightarrow>
        (\<And>t. t \<noteq> ''user_file_count'' \<Longrightarrow> tables w' t = tables w t) \<Longrightarrow> R (True, w')" for R w1
  proof (rule runs_run_sql [OF sql_delete_user_count _ del])
    fix w'
    assume d: "tables w' = snd (exec colleq (Delete ''user_file_count'' [(''user'', user)]) (tables w1))"
    have "R (True, w')"
      by (rule R) (unfold d, simp_all add: cell_delete w1 one lower_def del: exec.simps, simp)
    then show "R (fst (exec colleq (Delete ''user_file_count'' [(''user'', user)]) (tables w1)) \<noteq> SqlError, w')" by simp
  qed (use fo in \<open>simp_all add: stored_simps\<close>)
  have lower: "lower (Some n) = Some (n - 1)" if "n \<noteq> 1" using that by (simp add: lower_def)
  show ?thesis
    unfolding del_user_file_def runs_simps
    by (rule runs_select_counter [OF sql_count_of_user _ _ sel c])
      (use u fo upd c n in \<open>auto simp: runs_simps stored_simps lower sql_set_user_count wrap32_id
          intro!: drop row runs_set_counter [where k = "''user''" and t = "''user_file_count''"]\<close>)
qed

lemma runs_remove_file:
  assumes "config_or_empty e 256 ''dfs_path'' ''client'' = Some path" "length path + length fileid < 2000"
    and "\<And>c x. fst (env_system e c x) = 0" and "\<And>w'. tables w' = tables w \<Longrightarrow> Q (0, w')"
  shows "runs Q (remove_file_from_storage e fileid w)"
  using assms by (simp add: remove_file_from_storage_def system_def runs_simps keep_system)

lemma runs_file_id:
  assumes "plain_text 200 md5" "filter (matches colleq [(''md5'', md5)]) (tables w ''file_info'') = [r]"
    "r ''file_id'' = Some s" "length s \<le> 256" "\<And>w'. tables w' = tables w \<Longrightarrow> Q (0, s, w')"
  shows "runs Q (query_one e ''select file_id from file_info where md5 = `%s`'' [Str md5] (Some b) w)"
  by (rule runs_query_one [OF sql_id_of_file])
    (use assms in \<open>auto simp: plain_text_def stored_simps schema_def fmt_def unquote_def SQL_MAX_LEN_def unchanged_def\<close>)

lemma runs_delete_file:
  assumes "plain_text 200 md5"
    and Q: "\<And>w'. (\<And>m. cell colleq (tables w') ''file_info'' ''md5'' m =
        (if colleq md5 m then None else cell colleq (tables w) ''file_info'' ''md5'' m)) \<Longrightarrow>
      (\<And>t. t \<noteq> ''file_info'' \<Longrightarrow> tables w' t = tables w t) \<Longrightarrow> Q (True, w')"
  shows "runs Q (run_sql e ''delete from file_info where md5 = `%s`'' [Str md5] w)"
proof (rule runs_run_sql [OF sql_delete_file])
  fix w'
  assume d: "tables w' = snd (exec colleq (Delete ''file_info'' [(''md5'', md5)]) (tables w))"
  have "Q (True, w')" by (rule Q) (unfold d, rule cell_delete, simp)
  then show "Q (fst (exec colleq (Delete ''file_info'' [(''md5'', md5)]) (tables w)) \<noteq> SqlError, w')" by simp
qed (use assms(1) in \<open>auto simp: plain_text_def stored_simps fmt_def unquote_def SQL_MAX_LEN_def\<close>)

lemma runs_del_reference:
  assumes f: "plain_text 200 md5" and c: "counters colleq (tables w) ''file_info'' ''md5''"
    and k: "cell colleq (tables w) ''file_info'' ''md5'' md5 = Some k" "1 \<le> k"
    and ids: "\<forall>r \<in> set (tables w ''file_info''). \<exists>s. r ''file_id'' = Some s \<and> length s \<le> 256"
    and storage: "config_or_empty e 256 ''dfs_path'' ''client'' = Some path" "length path < 256" "\<And>c x. fst (env_system e c x) = 0"
    and Q: "\<And>w'. (\<And>m. cell colleq (tables w') ''file_info'' ''md5'' m =
          (if colleq md5 m then lower (Some k) else cell colleq (tables w) ''file_info'' ''md5'' m)) \<Longrightarrow>
        (\<And>t. t \<noteq> ''file_info'' \<Longrightarrow> tables w' t = tables w t) \<Longrightarrow> Q (0, w')"
  shows "runs Q (del_reference e md5 tmp w)"
proof -
  have m: "plain md5" "length md5 \<le> 200" using f by (simp_all add: plain_text_def)
  have sel: "length (fmt ''select count from file_info where md5 = `%s`'' [Str md5]) < SQL_MAX_LEN"
    using m by (simp add: fmt_def unquote_def SQL_MAX_LEN_def)
  have upd: "length (fmt ''update file_info set count=%d where md5 = `%s`'' [Num (k - 1), Str md5]) < SQL_MAX_LEN"
    if "k < 2147483647"
    using m show_int_length [of "k - 1"] that k(2) by (simp add: fmt_def unquote_def SQL_MAX_LEN_def)
  obtain r s where r: "filter (matches colleq [(''md5'', md5)]) (tables w ''file_info'') = [r]" "r ''file_id'' = Some s" "length s \<le> 256"
  proof -
    obtain r where "filter (matches colleq [(''md5'', md5)]) (tables w ''file_info'') = [r]"
      using c k by (auto elim: counters_cases [where v = md5])
    moreover from filter_ConsD [OF this] have "r \<in> set (tables w ''file_info'')" by simp
    ultimately show ?thesis using ids that by blast
  qed
  show ?thesis
    unfolding del_reference_def Let_def runs_simps
    by (rule runs_select_counter [OF sql_count_of_file _ _ sel c])
      (use m f upd c k r storage in \<open>auto simp: runs_simps stored_simps lower_def sql_set_count(2) wrap32_id
          intro!: runs_set_counter [where k = "''md5''" and t = "''file_info''"] runs_file_id runs_delete_file runs_remove_file Q\<close>)
qed

lemma runs_unshared:
  assumes f: "short_fields user md5 filename" and redis: "\<And>args x. fst (env_redis e (''zlexcount'' # args) x) = Some (R_INTEGER 0)"
    and rows: "\<forall>r \<in> set (tables w ''user_file_list''). r ''shared_status'' = Some ''0''"
    and Q: "\<And>tmp w'. tables w' = tables w \<Longrightarrow> Q (Some (0, False, tmp), w')"
  shows "runs Q (shared_state e user md5 filename fileid w)"
proof -
  have fo: "fields_ok user md5 filename" using f by (simp add: short_fields_def)
  have len: "length (fmt ''select shared_status from user_file_list where user = `%s` and md5 = `%s` and filename = `%s`''
      [Str user, Str md5, Str filename]) < SQL_MAX_LEN"
    using f by (simp add: fmt_def unquote_def SQL_MAX_LEN_def short_fields_def)
  have zero: "atoi ''0'' = 0" using atoi_show_int [of 0] by (simp add: show_int_digit)
  have exit: "runs R (rop_zset_exit e FILE_PUBLIC_ZSET fileid w)" if "\<And>w'. tables w' = tables w \<Longrightarrow> R (0, w')" for R
    using that redis by (simp add: rop_zset_exit_def redisCommand_def format_zlexcount runs_simps keep_redis wrap32_id)
  have st: "r ''shared_status'' = Some ''0''" if "filter P (tables w ''user_file_list'') = r # rs" for P r rs
    using rows filter_ConsD [OF that] by blast
  show ?thesis
    unfolding shared_state_def runs_simps
    by (auto dest!: st intro!: exit runs_query_one [OF sql_shared_status _ len] Q
        simp: runs_simps fields_ok_simps [OF fo] stored_simps schema_def unchanged_def zero split: list.split)
qed

text \<open>The tables after the entry is gone and before the reference is.\<close>

definition entry_gone :: "string \<Rightarrow> string \<Rightarrow> string \<Rightarrow> db \<Rightarrow> db \<Rightarrow> bool" where
  "entry_gone user md5 filename d d' \<longleftrightarrow>
     (\<forall>u. cell colleq d' ''user_file_count'' ''user'' u =
       (if colleq user u then lower (cell colleq d ''user_file_count'' ''user'' user) else cell colleq d ''user_file_count'' ''user'' u)) \<and>
     (\<forall>u m f. entries colleq d' (u, m, f) =
       (if colleq user u \<and> colleq md5 m \<and> colleq filename f then 0 else entries colleq d (u, m, f))) \<and>
     d' ''file_info'' = d ''file_info'' \<and>
     d' ''user_file_list'' =
       filter (\<lambda>r. \<not> matches colleq [(''user'', user), (''md5'', md5), (''filename'', filename)] r) (d ''user_file_list'')"

lemma runs_entry_gone:
  assumes f: "short_fields user md5 filename" and wf: "well_formed colleq (tables w)" and del: "deletable colleq user md5 filename (tables w)"
    and Q: "\<And>tmp w'. entry_gone user md5 filename (tables w) (tables w') \<Longrightarrow> Q (0, tmp, w')"
  shows "runs Q (del_user_file e user md5 filename tmp w)"
proof -
  obtain n where n: "cell colleq (tables w) ''user_file_count'' ''user'' user = Some n" "1 \<le> n"
    using del by (auto simp: deletable_def)
  show ?thesis
    by (rule runs_del_user_file [OF f _ n]) (use wf Q n in \<open>simp_all add: well_formed_def entry_gone_def\<close>)
qed

lemma runs_reference_gone:
  assumes f: "short_fields user md5 filename" and wf: "well_formed colleq d" and del: "deletable colleq user md5 filename d"
    and gone: "entry_gone user md5 filename d (tables w)"
    and storage: "config_or_empty e 256 ''dfs_path'' ''client'' = Some path" "length path < 256" "\<And>c x. fst (env_system e c x) = 0"
    and Q: "\<And>w'. store_of colleq (tables w') = delete_owned colleq user md5 filename (store_of colleq d) \<Longrightarrow>
      tables w' ''user_file_list'' = tables w ''user_file_list'' \<Longrightarrow> Q (0, w')"
  shows "runs Q (del_reference e md5 tmp w)"
proof -
  have w: "tables w ''file_info'' = d ''file_info''" using gone by (simp add: entry_gone_def)
  then have cell: "cell colleq (tables w) ''file_info'' = cell colleq d ''file_info''" by (rule cell_cong)
  obtain k where k: "cell colleq d ''file_info'' ''md5'' md5 = Some k" "1 \<le> k" using del by (auto simp: deletable_def)
  show ?thesis
  proof (rule runs_del_reference [where k = k])
    fix w'
    assume w': "\<And>m. cell colleq (tables w') ''file_info'' ''md5'' m =
        (if colleq md5 m then lower (Some k) else cell colleq (tables w) ''file_info'' ''md5'' m)"
      "\<And>t. t \<noteq> ''file_info'' \<Longrightarrow> tables w' t = tables w t"
    have "cell colleq (tables w') ''user_file_count'' = cell colleq (tables w) ''user_file_count''"
      "entries colleq (tables w') = entries colleq (tables w)"
      by (rule cell_cong entries_cong, simp add: w'(2))+
    then show "Q (0, w')"
      using gone w' k by (intro Q) (auto simp: store_of_def delete_owned_def entry_gone_def cell fun_eq_iff)
  next
    show "counters colleq (tables w) ''file_info'' ''md5''" using wf w by (simp add: well_formed_def counters_def)
  qed (use f k del storage w cell in \<open>auto simp: deletable_def short_fields_def\<close>)
qed

lemma refines_del_file:
  assumes f: "short_fields user md5 filename" and wf: "well_formed colleq (tables w)"
    and del: "deletable colleq user md5 filename (tables w)"
    and redis: "\<And>args x. fst (env_redis e (''zlexcount'' # args) x) = Some (R_INTEGER 0)"
    and storage: "config_or_empty e 256 ''dfs_path'' ''client'' = Some path" "length path < 256" "\<And>c x. fst (env_system e c x) = 0"
  shows "runs (\<lambda>(r, w'). r = 0 \<and> store_of colleq (tables w') = delete_owned colleq user md5 filename (store_of colleq (tables w)) \<and>
      tables w' ''user_file_list'' =
        filter (\<lambda>r. \<not> matches colleq [(''user'', user), (''md5'', md5), (''filename'', filename)] r) (tables w ''user_file_list''))
    (del_file e c user md5 filename w)"
proof -
  have len: "length md5 + length filename < 1024" using f by (simp add: short_fields_def)
  have rows: "\<forall>r \<in> set (tables w ''user_file_list''). r ''shared_status'' = Some ''0''" using del by (simp add: deletable_def)
  show ?thesis
    unfolding del_file_def del_file_body_def runs_simps
    by (auto simp: runs_simps unchanged_def wf del redis storage len rows is_status_def isdigit_def code_def entry_gone_def
        intro!: runs_connect_redis runs_connect_mysql runs_unshared [OF f] runs_entry_gone [OF f]
          runs_reference_gone [OF f wf del _ storage] runs_answer)
qed

end

end
