(* ===== verification/Reference_Server.thy ===== *)
theory Reference_Server
  imports Refcount_Programs Session
begin

text \<open>
  A small server that obeys the laws of \<open>database\<close> and \<open>token_store\<close>: it runs the statements of \<open>sql_parse\<close> on
  tables and the two Redis commands on a map of keys, compares texts without regard to case, and never
  fails. It shows that the laws can hold, and it lets the programs run inside the logic.
\<close>

definition same_text :: "string \<Rightarrow> string \<Rightarrow> bool" where
  "same_text a b = (map tolower a = map tolower b)"

definition server_query :: "string \<Rightarrow> db \<times> keys \<Rightarrow> sql_reply \<times> (db \<times> keys)" where
  "server_query q x =
    (case sql_parse q of
       None \<Rightarrow> (if prefix_of ''select '' q then (SqlRows [], x) else (SqlError, x))
     | Some s \<Rightarrow> (case exec same_text s (fst x) of (r, d) \<Rightarrow> (r, (d, snd x))))"

definition server_redis :: "string list \<Rightarrow> db \<times> keys \<Rightarrow> redisReply option \<times> (db \<times> keys)" where
  "server_redis argv x =
    (if described argv then (case redis_exec argv (snd x) of (r, k) \<Rightarrow> (Some r, (fst x, k)))
     else (Some (R_INTEGER (if take 1 argv = [''zlexcount''] then 0 else 1)), x))"

definition server_config :: string where
  "server_config =
    (let q = CHR 0x22 # []; s = (\<lambda>t. q @ t @ q) in
     ''{'' @ s ''redis'' @ '':{'' @ s ''ip'' @ '':'' @ s ''127.0.0.1'' @ '','' @ s ''port'' @ '':'' @ s ''6379'' @ ''},'' @
     s ''mysql'' @ '':{'' @ s ''user'' @ '':'' @ s ''root'' @ '','' @ s ''password'' @ '':'' @ s ''pw'' @ '','' @
       s ''database'' @ '':'' @ s ''db'' @ ''},'' @
     s ''dfs_path'' @ '':{'' @ s ''client'' @ '':'' @ s ''/etc/fdfs/client.conf'' @ ''}}'')"

text \<open>The answers of the commands of the storage system.\<close>

definition server_pipe :: "string list \<Rightarrow> string" where
  "server_pipe argv =
    (if take 1 argv = [''fdfs_file_info''] then ''source ip address: 127.0.0.1'' @ [CHR 0x0A]
     else ''group1/M00/00/00/wKgx'' @ [CHR 0x0A])"

definition server :: "(db \<times> keys) env" where
  "server = \<lparr>
     env_file = (\<lambda>p. if p = CONFIG_PATH then Some server_config else None),
     env_mysql_connect = (\<lambda>u p d x. (True, x)),
     env_mysql_query = server_query,
     env_redis_connect = (\<lambda>a x. (Conn_ok, x)),
     env_redis = server_redis,
     env_system = (\<lambda>c x. (0, x)),
     env_pipe = (\<lambda>argv x. (Some (server_pipe argv), x)),
     env_write_file = (\<lambda>f s x. (True, x)),
     env_unlink = (\<lambda>f x. x),
     env_now = (\<lambda>x. ''2024-01-01 00:00:00''),
     env_rand = (\<lambda>x. (7, x)),
     env_garbage = (\<lambda>x. Some [])\<rparr>"

definition server_conf :: config where
  "server_conf = \<lparr>mysql_user = ''root'', mysql_pwd = ''pw'', mysql_db = ''db'', redis_ip = ''127.0.0.1'', redis_port = ''6379''\<rparr>"

definition start :: "(string \<times> row list) list \<Rightarrow> (string \<times> string) list \<Rightarrow> (db \<times> keys) world" where
  "start tbs ks = \<lparr>ext = (\<lambda>t. case map_of tbs t of None \<Rightarrow> [] | Some rs \<Rightarrow> rs, map_of ks), out = [], trace = []\<rparr>"

lemma same_text_equiv: "same_text a a" "same_text a b \<Longrightarrow> same_text b a" "same_text a b \<Longrightarrow> same_text b c \<Longrightarrow> same_text a c"
  by (simp_all add: same_text_def)

lemma parse_select: "parse_tokens (TWord ''select'' # ts) = Some s \<Longrightarrow> \<exists>c t cs. s = Select c t cs"
  by (auto simp: parse_tokens_def split: list.splits token.splits if_splits)

lemma select_unchanged:
  assumes "prefix_of ''select '' q" "sql_parse q = Some s"
  shows "snd (exec eq s d) = d"
proof -
  obtain r where q: "q = ''select'' @ CHR '' '' # r"
    using assms(1) unfolding prefix_of_def by (metis append_take_drop_id append_Cons append_Nil)
  have "lex q = map_option (Cons (TWord ''select'')) (lex (CHR '' '' # r))"
    unfolding q by (rule lex_word) (auto simp: word_char_def code_def isdigit_def)
  then have "\<exists>c t cs. s = Select c t cs"
    using assms(2) parse_select by (auto simp: sql_parse_def split: option.splits)
  then show ?thesis by auto
qed

lemma server_sel [simp]:
  "env_mysql_query server = server_query" "env_redis server = server_redis" "env_now server x = ''2024-01-01 00:00:00''"
  "env_mysql_connect server u p d x = (True, x)" "env_redis_connect server a x = (Conn_ok, x)"
  "env_system server c x = (0, x)" "env_pipe server argv x = (Some (server_pipe argv), x)"
  "env_write_file server f s x = (True, x)" "env_unlink server f x = x" "env_rand server x = (7, x)"
  by (simp_all add: server_def)

lemma server_redis_view: "fst (snd (server_redis argv x)) = fst x"
  by (simp add: server_redis_def split_beta)

lemma server_query_view:
  "fst (snd (server_query q x)) = (case sql_parse q of None \<Rightarrow> fst x | Some s \<Rightarrow> snd (exec same_text s (fst x)))"
  "snd (snd (server_query q x)) = snd x"
  by (simp_all add: server_query_def split_beta split: option.split)

lemma reply_agrees_refl: "reply_agrees s r r"
  by (cases s) (auto split: sql_reply.split)

interpretation ref: database same_text server fst
proof (unfold_locales, goal_cases)
  case (4 q s x)
  then show ?case by (simp add: server_query_def split_beta reply_agrees_refl)
next
  case (5 q x)
  then show ?case by (auto simp: server_query_view select_unchanged split: option.split)
next
  case 13
  show ?case by (simp add: plain_text_def plain_def code_def)
qed (simp_all add: same_text_def server_redis_view)

interpretation ref_store: token_store server snd
proof (unfold_locales, goal_cases)
  case (1 argv x)
  then show ?case by (auto simp: server_redis_def redis_exec_def split_beta)
qed simp_all

end
