(* ===== verification/File_Programs.thy ===== *)
theory File_Programs
  imports File_Store Reference_Server
begin

text \<open>
  The properties of the programs that handle files, for every server that obeys the laws of the locales
  \<open>database\<close> and \<open>reliable\<close>: the reference counts, what is removed from the storage system, and the
  refinement of the operations on a \<open>file_store\<close>.
\<close>

interpretation ref: reliable same_text server fst
proof (unfold_locales, goal_cases)
  case (1 q s x)
  then show ?case by (simp add: server_query_def split_beta reply_agrees_refl)
qed simp_all

subsection \<open>Sequences of requests\<close>

text \<open>One handler of the programs runs to its end, or something happens that leaves the two tables and the
  storage system alone. A delete request comes from an owner of the file.\<close>

inductive file_step ::
    "(string \<Rightarrow> string \<Rightarrow> bool) \<Rightarrow> 'x env \<Rightarrow> ('x \<Rightarrow> db) \<Rightarrow> config \<Rightarrow> 'x world \<Rightarrow> 'x world \<Rightarrow> bool"
  for eq e view c where
  instant: "\<lbrakk>fields_ok user md5 filename; \<forall>i. counted eq (view (ext w)) md5 i \<longrightarrow> i < 2 ^ 31 - 1;
      deal_md5 e c user md5 filename w = Some (r, w')\<rbrakk> \<Longrightarrow> file_step eq e view c w w'"
| save: "\<lbrakk>fields_ok user md5 filename; \<forall>i. counted eq (view (ext w)) md5 i \<longrightarrow> i < 2 ^ 31 - 1;
      save_file e c user md5 filename w = Some (r, w')\<rbrakk> \<Longrightarrow> file_step eq e view c w w'"
| upload: "\<lbrakk>fields_ok (u_user u) (u_md5 u) (u_filename u); plain_text 256 fileid; plain_text 512 url;
      - (2 ^ 63) \<le> u_size u; u_size u < 2 ^ 63; store_fileinfo_to_mysql e c u fileid url w = Some (r, w')\<rbrakk>
      \<Longrightarrow> file_step eq e view c w w'"
| delete: "\<lbrakk>fields_ok user md5 filename; owns eq (view (ext w)) user md5 filename;
      del_file e c user md5 filename w = Some (r, w')\<rbrakk> \<Longrightarrow> file_step eq e view c w w'"
| share: "\<lbrakk>fields_ok user md5 filename; share_file e c user md5 filename w = Some (r, w')\<rbrakk> \<Longrightarrow> file_step eq e view c w w'"
| pv: "\<lbrakk>fields_ok user md5 filename; pv_file e c user md5 filename w = Some (r, w')\<rbrakk> \<Longrightarrow> file_step eq e view c w w'"
| share_pv: "\<lbrakk>fields_ok user md5 filename; share_pv_file e c md5 filename w = Some (r, w')\<rbrakk> \<Longrightarrow> file_step eq e view c w w'"
| cancel: "\<lbrakk>fields_ok user md5 filename; cancel_share_file e c user md5 filename w = Some (r, w')\<rbrakk> \<Longrightarrow> file_step eq e view c w w'"
| other: "same_files view w w' \<Longrightarrow> file_step eq e view c w w'"

lemma file_step_inv:
  assumes "database eq e view" "file_step eq e view c w w'" "refcount_inv eq (view (ext w))"
  shows "refcount_inv eq (view (ext w'))"
proof -
  have keep: "refcount_inv eq (view (ext w'))" if "same_refs eq view w w'" using same_refsD [OF that] assms(3) by simp
  from assms(2) show ?thesis
  proof cases
    case instant
    then show ?thesis using okD [OF database.inv_deal_md5 [OF assms(1)] instant(3)] assms(3) by auto
  next
    case save
    then show ?thesis using okD [OF database.inv_save_file [OF assms(1)] save(3)] assms(3) by auto
  next
    case upload
    then show ?thesis using okD [OF database.inv_store_fileinfo [OF assms(1)] upload(6)] assms(3) by auto
  next
    case delete
    then show ?thesis using okD [OF database.inv_del_file [OF assms(1)] delete(3)] assms(3) by auto
  next
    case share
    then show ?thesis using okD [OF database.same_refs_share_file [OF assms(1)] share(2)] by (auto intro: keep)
  next
    case pv
    then show ?thesis using okD [OF database.same_refs_pv_file [OF assms(1)] pv(2)] by (auto intro: keep)
  next
    case share_pv
    then show ?thesis using okD [OF database.same_refs_share_pv_file [OF assms(1)] share_pv(2)] by (auto intro: keep)
  next
    case cancel
    then show ?thesis using okD [OF database.same_refs_cancel_share_file [OF assms(1)] cancel(2)] by (auto intro: keep)
  next
    case other
    then show ?thesis using same_filesD(1) [of view w w' eq] assms(3) by simp
  qed
qed

subsection \<open>A concrete state\<close>

text \<open>A file with one owner, \<open>alice\<close>; \<open>bob\<close> has another file.\<close>

definition file_row :: "string \<Rightarrow> string \<Rightarrow> string \<Rightarrow> row" where
  "file_row md5 file_id n = [''md5'' \<mapsto> md5, ''file_id'' \<mapsto> file_id, ''count'' \<mapsto> n]"

definition entry_row :: "string \<Rightarrow> string \<Rightarrow> string \<Rightarrow> row" where
  "entry_row user md5 filename = [''user'' \<mapsto> user, ''md5'' \<mapsto> md5, ''filename'' \<mapsto> filename, ''shared_status'' \<mapsto> ''0'']"

definition total_row :: "string \<Rightarrow> string \<Rightarrow> row" where
  "total_row user n = [''user'' \<mapsto> user, ''count'' \<mapsto> n]"

definition two_users :: "(db \<times> keys) world" where
  "two_users = start
     [(''file_info'', [file_row ''abc'' ''group1/M00/a'' ''1'', file_row ''def'' ''group1/M00/d'' ''1'']),
      (''user_file_list'', [entry_row ''alice'' ''abc'' ''a.txt'', entry_row ''bob'' ''def'' ''d.txt'']),
      (''user_file_count'', [total_row ''alice'' ''1'', total_row ''bob'' ''1''])] []"

lemmas two_users_simps = two_users_def start_def file_row_def entry_row_def total_row_def

lemma two_users_tables:
  "fst (ext two_users) ''file_info'' = [file_row ''abc'' ''group1/M00/a'' ''1'', file_row ''def'' ''group1/M00/d'' ''1'']"
  "fst (ext two_users) ''user_file_list'' = [entry_row ''alice'' ''abc'' ''a.txt'', entry_row ''bob'' ''def'' ''d.txt'']"
  "fst (ext two_users) ''user_file_count'' = [total_row ''alice'' ''1'', total_row ''bob'' ''1'']"
  by (simp_all add: two_users_def start_def)

lemma same_text_disjoint: "same_text a m \<and> same_text b m \<Longrightarrow> same_text a b"
  by (simp add: same_text_def)

lemma two_users_inv: "refcount_inv same_text (fst (ext two_users))"
proof -
  have "\<not> same_text ''abc'' ''def''" by (simp add: same_text_def tolower_def code_def)
  then have "\<not> (same_text ''abc'' m \<and> same_text ''def'' m)" for m using same_text_disjoint by blast
  then show ?thesis
    unfolding refcount_inv_def counted_def counts_def refs_def two_users_tables
    by (auto simp: matches_one file_row_def entry_row_def show_int_digit intro!: exI [of _ 1])
qed

lemma two_users_wf: "well_formed same_text (fst (ext two_users))"
proof -
  have "\<not> same_text ''abc'' ''def''" "\<not> same_text ''alice'' ''bob''" by (simp_all add: same_text_def tolower_def code_def)
  then have "\<not> (same_text ''abc'' m \<and> same_text ''def'' m)" "\<not> (same_text ''alice'' m \<and> same_text ''bob'' m)" for m
    using same_text_disjoint by blast+
  then show ?thesis
    unfolding well_formed_def counters_def two_users_tables
    by (auto simp: matches_one file_row_def total_row_def show_int_digit intro!: exI [of _ 1])
qed

lemma two_users_fields: "short_fields ''bob'' ''abc'' ''a.txt''" "short_fields ''alice'' ''abc'' ''a.txt''"
  by (simp_all add: short_fields_def fields_ok_def plain_text_def plain_def code_def)

lemma two_users_bob:
  "fst (instant_upload same_text ''bob'' ''abc'' ''a.txt'' (store_of same_text (fst (ext two_users)))) = 0"
  "fs_count (snd (instant_upload same_text ''bob'' ''abc'' ''a.txt'' (store_of same_text (fst (ext two_users))))) ''ABC'' = Some 2"
  by code_simp+

lemma two_users_alice:
  "save_shared same_text ''alice'' ''abc'' ''a.txt'' (store_of same_text (fst (ext two_users))) =
     (- 2, store_of same_text (fst (ext two_users)))"
proof -
  have "0 < fs_owned (store_of same_text (fst (ext two_users))) (''alice'', ''abc'', ''a.txt'')" by code_simp
  then show ?thesis by (simp add: save_shared_def)
qed

subsection \<open>Properties\<close>



text \<open>C5: on a server that does not fail, \<open>deal_md5\<close> returns, and its code and its effect on the tables are
  those of \<open>instant_upload\<close> on the abstract store: a digest that is not stored gives \<open>-3\<close>, a file that the user has already
  gives \<open>-2\<close>, and otherwise the reference count, the user's entries and the user's total each grow by one.\<close>

theorem instant_upload_refined:
  assumes "reliable eq e view" and "short_fields user md5 filename" and "well_formed eq (view (ext w))"
  shows "\<exists>r w'. deal_md5 e c user md5 filename w = Some (r, w') \<and>
    instant_upload eq user md5 filename (store_of eq (view (ext w))) = (r, store_of eq (view (ext w')))"
  using reliable.refines_deal_md5 [OF assms, of c] by (auto simp: runs_iff)

theorem instant_upload_refined_witness:
  "\<exists>w'. deal_md5 server server_conf ''bob'' ''abc'' ''a.txt'' two_users = Some (0, w') \<and>
    fs_count (store_of same_text (fst (ext w'))) ''ABC'' = Some 2"
  using instant_upload_refined [OF ref.reliable_axioms two_users_fields(1) two_users_wf, of server_conf] two_users_bob by auto

text \<open>C22: likewise \<open>save_file\<close> implements \<open>save_shared\<close>: \<open>-2\<close> for a file that the user has already, \<open>-1\<close> for a
  digest that is not stored, and otherwise one more owner.\<close>

theorem save_file_refined:
  assumes "reliable eq e view" and "short_fields user md5 filename" and "well_formed eq (view (ext w))"
  shows "\<exists>r w'. save_file e c user md5 filename w = Some (r, w') \<and>
    save_shared eq user md5 filename (store_of eq (view (ext w))) = (r, store_of eq (view (ext w')))"
  using reliable.refines_save_file [OF assms, of c] by (auto simp: runs_iff)

theorem save_file_refined_witness:
  "\<exists>w'. save_file server server_conf ''alice'' ''abc'' ''a.txt'' two_users = Some (- 2, w') \<and>
    store_of same_text (fst (ext w')) = store_of same_text (fst (ext two_users))"
  using save_file_refined [OF ref.reliable_axioms two_users_fields(2) two_users_wf, of server_conf] two_users_alice by auto


lemma server_zlexcount: "fst (env_redis server (''zlexcount'' # args) x) = Some (R_INTEGER 0)"
proof -
  have "described argv \<Longrightarrow> hd argv \<in> {''get'', ''setex''}" for argv
    by (cases argv rule: described.cases) auto
  from this [of "''zlexcount'' # args"] show ?thesis by (auto simp: server_redis_def)
qed

lemma server_path: "config_or_empty server 256 ''dfs_path'' ''client'' = Some ''/etc/fdfs/client.conf''"
  by code_simp

lemma two_users_deletable: "deletable same_text user ''abc'' filename (fst (ext two_users))" if "user \<in> {''alice'', ''bob''}"
proof -
  have one: "atoi ''1'' = 1" using atoi_show_int [of 1] by (simp add: show_int_digit)
  show ?thesis
    using that unfolding deletable_def two_users_tables cell_def
    by (auto simp: matches_one file_row_def total_row_def entry_row_def same_text_def tolower_def code_def one)
qed






end
