(* ===== verification/Account_Programs.thy ===== *)
theory Account_Programs
  imports Site File_Programs
begin

text \<open>
  What registration and login do as whole programs, from the bytes of a request to the bytes of the answer,
  the rows of table \<open>user\<close> and the tokens in Redis. The reference server shows that the laws of \<open>site\<close> can
  hold.
\<close>

interpretation ref_site: site same_text server fst snd
  by unfold_locales (auto simp: server_query_view server_redis_def split_beta)

definition post :: "string \<Rightarrow> fcgi_request" where
  "post text = \<lparr>content_length = Some (show_nat (length text)), query_string = None, body = text\<rparr>"

lemma carries_post:
  assumes "is_cstr text" "text \<noteq> []" "length text < 4089"
  shows "carries (post text) text"
proof -
  have "atoi (show_int (int (length text))) = int (length text)" using assms by (intro atoi_show_int) auto
  then show ?thesis using assms by (simp add: carries_def post_def request_length_def show_int_def)
qed

definition json_of :: "(string \<times> string) list \<Rightarrow> string" where
  "json_of nvs = the (cJSON_PrintUnformatted (object_of nvs))"

lemma server_configured: "login_configured server" "get_mysql_info server 256 = Some (0, ''root'', ''pw'', ''db'')"
  by code_simp+

lemma password_of_new:
  assumes "collation colleq" "\<not> taken colleq d ''name'' user"
  shows "password_of colleq (d(''user'' := d ''user'' @ [account user nick pwd tel time email])) user = pwd"
  using assms by (simp add: taken_iff password_of_def matches_def account_def collation.colleq_refl)

subsection \<open>Requests of the examples\<close>

definition bob_login :: "string \<Rightarrow> string" where
  "bob_login pwd = json_of [(''user'', ''bob''), (''pwd'', pwd)]"

definition bob_register :: string where
  "bob_register = json_of [(''userName'', ''bob''), (''nickName'', ''b''), (''firstPwd'', ''pw''), (''phone'', ''1''), (''email'', ''e'')]"

lemma bob_carries: "carries (post (bob_login ''pw'')) (bob_login ''pw'')" "carries (post (bob_login [])) (bob_login [])"
  "carries (post bob_register) bob_register"
  by (rule carries_post; code_simp)+

lemma bob_fields: "get_login_info (bob_login ''pw'') = Some (0, [''bob'', ''pw''])" "get_login_info (bob_login []) = Some (0, [''bob'', []])"
  "get_reg_info bob_register = Some (0, [''bob'', ''b'', ''pw'', ''1'', ''e''])"
  by code_simp+

lemma bob_plain: "plain_text 128 ''bob''" "registrable ''bob'' ''b'' ''pw'' ''1'' ''e''"
  by code_simp+

subsection \<open>Properties\<close>

text \<open>C1: a user registers with a name and a nickname that are both free, and then sends a login request with
  that name. The registration is answered with 002; the login is answered with 000 and a token of 32 hexadecimal
  digits, which is the one now stored for the user, when it carries the password of the registration, and
  with 001 and no change of the stored tokens when it carries another one. Both requests run to their end
  without undefined behaviour, whatever the random numbers and the unwritten memory.\<close>

theorem register_then_login:
  assumes "site colleq e view keys" "login_configured e" "get_mysql_info e 256 = Some (0, c)"
    and "carries rq text" "get_reg_info text = Some (0, [user, nick, pwd, tel, email])" "registrable user nick pwd tel email"
    and "\<not> taken colleq (view (ext w)) ''name'' user" "\<not> taken colleq (view (ext w)) ''nickname'' nick"
    and "carries rq' text'" "get_login_info text' = Some (0, [user, pwd'])"
  shows "\<exists>w1 w2. register_serve e rq () w = Some ((), w1) \<and> out w1 = out w @ CONTENT_TYPE @ status_text ''002'' \<and>
    login_serve e True junk stale rq' () w1 = Some ((), w2) \<and>
    (if pwd' = pwd then \<exists>token. is_token token \<and> keys (ext w2) = (keys (ext w))(user \<mapsto> token) \<and>
       out w2 = out w1 @ CONTENT_TYPE @ login_answer ''000'' token
     else keys (ext w2) = keys (ext w) \<and> out w2 = out w1 @ CONTENT_TYPE @ login_answer ''001'' ''fail'')"
proof -
  have coll: "collation colleq"
    using assms(1) by (simp add: site_def reliable_def database_def sql_server_def)
  obtain w1 time where w1: "register_serve e rq () w = Some ((), w1)" "keys (ext w1) = keys (ext w)"
    "out w1 = out w @ CONTENT_TYPE @ status_text ''002''"
    "view (ext w1) = (view (ext w))(''user'' := view (ext w) ''user'' @ [account user nick pwd tel time email])"
    using site.runs_register [OF assms(1,4,5,6,3), of w] assms(7,8) by (auto simp: runs_iff registered_def) metis
  have pw: "password_of colleq (view (ext w1)) user = pwd" using password_of_new [OF coll assms(7)] w1(4) by simp
  have "plain_text 128 user" "length pwd < PWD_LEN" using assms(6) by (auto simp: registrable_def plain_text_def PWD_LEN_def)
  then show ?thesis
    using site.runs_login [OF assms(1,9,10) _ assms(2), of w1 junk stale] pw w1(1-3) by (auto simp: runs_iff split: if_splits)
qed

theorem register_then_login_witness:
  "\<exists>w1 w2. register_serve server (post bob_register) () (start [] []) = Some ((), w1) \<and>
    login_serve server True (\<lambda>_. [] :: 32 word list) [] (post (bob_login ''pw'')) () w1 = Some ((), w2) \<and>
    (\<exists>token. is_token token \<and> snd (ext w2) ''bob'' = Some token)"
proof -
  have "\<not> taken same_text (fst (ext (start [] []))) ''name'' ''bob''" "\<not> taken same_text (fst (ext (start [] []))) ''nickname'' ''b''"
    by (simp_all add: start_def taken_def)
  from register_then_login [OF ref_site.site_axioms server_configured bob_carries(3) bob_fields(3) bob_plain(2) this bob_carries(1) bob_fields(1),
    of "\<lambda>_. []" "[]"]
  show ?thesis by fastforce
qed



text \<open>C25: a login request with a name that no row of table \<open>user\<close> has, and with an empty password, is answered
  with 000 and a token, which is stored for that name: nobody needs to be registered to log in.\<close>

theorem login_unknown_user:
  assumes "site colleq e view keys" "login_configured e"
    and "carries rq text" "get_login_info text = Some (0, [user, []])" "plain_text 128 user"
    and "\<not> taken colleq (view (ext w)) ''name'' user"
  shows "\<exists>w' token. login_serve e True junk stale rq () w = Some ((), w') \<and> is_token token \<and>
    keys (ext w') user = Some token \<and> out w' = out w @ CONTENT_TYPE @ login_answer ''000'' token"
proof -
  have "password_of colleq (view (ext w)) user = []" using assms(6) by (simp add: password_of_def taken_iff)
  then show ?thesis
    using site.runs_login [OF assms(1,3,4,5,2), of w junk stale] by (auto simp: runs_iff PWD_LEN_def)
qed

theorem login_unknown_user_witness:
  "\<exists>w' token. login_serve server True (\<lambda>_. [] :: 64 word list) [] (post (bob_login [])) () (start [] []) = Some ((), w') \<and>
    is_token token \<and> snd (ext w') ''bob'' = Some token"
proof -
  have "\<not> taken same_text (fst (ext (start [] []))) ''name'' ''bob''" by (simp add: start_def taken_def)
  from login_unknown_user [OF ref_site.site_axioms server_configured(1) bob_carries(2) bob_fields(2) bob_plain(1) this]
  show ?thesis by blast
qed



text \<open>C8: issuing a token for a user always succeeds, and from then on the token check that the file programs run
  accepts that token for the user and nothing else, while the stored tokens of all other users are what they
  were before.\<close>

theorem token_session:
  assumes "site colleq e view keys" "login_configured e" "length user \<le> 512"
  shows "\<exists>token w1. set_token e True junk stale user w = Some (0, token, w1) \<and> is_token token \<and>
    (\<forall>t. \<exists>w2. verify_token e user t w1 = Some (if t = token then 0 else - 1, w2)) \<and>
    (\<forall>other. other \<noteq> user \<longrightarrow> keys (ext w1) other = keys (ext w) other)"
proof -
  obtain ip port where conf: "config_or_empty e 30 ''redis'' ''ip'' = Some ip" "config_or_empty e 10 ''redis'' ''port'' = Some port"
    using assms(2) by (auto simp: login_configured_def)
  let ?Q = "\<lambda>(r, token, w'). r = 0 \<and> is_token token \<and> keys (ext w') = (keys (ext w))(user \<mapsto> token)"
  have "runs ?Q (set_token e True junk stale user w)"
    by (rule site.runs_set_token [OF assms(1) conf assms(3)]) simp
  then obtain token w1 where w1: "set_token e True junk stale user w = Some (0, token, w1)" "is_token token"
    "keys (ext w1) = (keys (ext w))(user \<mapsto> token)"
    by (auto simp: runs_iff)
  have "runs (\<lambda>(r, _). r = (if t = token then 0 else - 1)) (verify_token e user t w1)" for t
    by (rule site.runs_verify_token [OF assms(1) conf]) (use w1(2,3) is_token_cstr in \<open>auto simp: is_token_def\<close>)
  then show ?thesis using w1 by (auto simp: runs_iff)
qed

theorem token_session_witness:
  "\<exists>token w1. set_token server True (\<lambda>_. [] :: 64 word list) [] ''bob'' (start [] []) = Some (0, token, w1) \<and>
    (\<exists>w2. verify_token server ''bob'' token w1 = Some (0, w2)) \<and> (\<exists>w2. verify_token server ''bob'' [] w1 = Some (- 1, w2))"
proof -
  obtain token w1 where s: "set_token server True (\<lambda>_. [] :: 64 word list) [] ''bob'' (start [] []) = Some (0, token, w1)" "is_token token"
    and v: "\<forall>t. \<exists>w2. verify_token server ''bob'' t w1 = Some (if t = token then 0 else - 1, w2)"
    using token_session [OF ref_site.site_axioms server_configured(1), of "''bob''" "\<lambda>_. []" "[]" "start [] []"] by auto
  have "token \<noteq> []" using s(2) by (auto simp: is_token_def)
  then show ?thesis using s v [rule_format, of token] v [rule_format, of "[]"] by auto
qed

text \<open>C31: whatever name, random numbers and memory contents go into it, the token exists and consists of
  32 lower-case hexadecimal digits, so that it fits the arrays of \<open>TOKEN_LEN\<close> characters with its terminator.\<close>

theorem token_shape:
  "\<exists>token. token_of True junk stale tmp = Some token \<and> is_token token \<and> store TOKEN_LEN token = Some token"
  using token_of_total [of junk stale tmp] is_tokenD by (fastforce simp: store_def)

end
