(* ===== verification/Request_Programs.thy ===== *)
theory Request_Programs
  imports Handlers Account_Programs
begin

text \<open>
  Whole requests to the file programs: the size up to which a request is safe, what happens without a valid
  token, the instant upload from the bytes of the request to the bytes of the answer, and what a
  request that is no JSON text does.
\<close>

subsection \<open>The token check\<close>

definition sql_calls :: "'x world \<Rightarrow> event list" where
  "sql_calls w = filter (\<lambda>v. case v of Sql _ \<Rightarrow> True | Mysql_connect \<Rightarrow> True | _ \<Rightarrow> False) (trace w)"

definition refused :: "'x world \<Rightarrow> ('s \<times> 'x world) option \<Rightarrow> bool" where
  "refused w m \<longleftrightarrow>
    (\<exists>s w'. m = Some (s, w') \<and> out w' = out w @ CONTENT_TYPE @ status_text ''111'' \<and> sql_calls w' = sql_calls w)"

abbreviation quiet_step :: "'x world \<Rightarrow> 'x world \<Rightarrow> bool" where
  "quiet_step w w' \<equiv> out w' = out w \<and> sql_calls w' = sql_calls w"

lemma quiet_connect:
  assumes "\<And>a w'. quiet_step w w' \<Longrightarrow> Q (a, w')" shows "ok Q (rop_connectdb_nopwd e ip port w)"
  using assms by (simp add: rop_connectdb_nopwd_def redis_connect_def ok_simps sql_calls_def logged_def)

lemma quiet_get:
  assumes "\<And>a w'. quiet_step w w' \<Longrightarrow> Q (a, w')" shows "ok Q (rop_get_string e cap key w)"
proof -
  have "Q (a, (logged (Redis argv) w)\<lparr>ext := x\<rparr>)" for a argv x
    by (rule assms) (simp add: sql_calls_def logged_def)
  then show ?thesis
    by (auto simp: rop_get_string_def redisCommand_def format_get ok_simps intro!: okI split: redisReply.split)
qed

lemma verify_token_quiet: "ok (\<lambda>(r, w'). quiet_step w w') (verify_token e user t w)"
  unfolding verify_token_def ok_simps by (auto intro!: ok_config quiet_connect quiet_get simp: ok_simps)

lemma with_body_carries: "carries rq text \<Longrightarrow> with_body rq s handle w = handle text w"
  by (simp add: carries_def with_body_def read_body_def LOG_def store_def)

lemma refused_with_body:
  assumes "carries rq text" and "refused w (handle text (put CONTENT_TYPE w))"
  shows "refused w (with_body rq s handle (put CONTENT_TYPE w))"
  using assms(2) by (simp add: with_body_carries [OF assms(1)])

lemma refusal:
  assumes "verify_token e user t (put CONTENT_TYPE w) = Some (r, w1)"
  shows "refused w (do { w \<leftarrow> answer_status ''111'' w1; Some (s, w) })"
  using okD [OF verify_token_quiet assms] by (simp add: refused_def answer_status_put codes put_def sql_calls_def)

text \<open>The answers to an instant upload.\<close>

definition instant_status :: "int \<Rightarrow> string" where
  "instant_status r = (if r = 0 then ''006'' else if r = - 2 then ''005'' else ''007'')"

subsection \<open>Requests of the examples\<close>

definition bob_md5 :: "string \<Rightarrow> string" where
  "bob_md5 token = json_of [(''user'', ''bob''), (''md5'', ''abc''), (''fileName'', ''a.txt''), (''token'', token)]"

lemma bob_md5_request: "carries (post (bob_md5 ''t'')) (bob_md5 ''t'')"
  "get_md5_info (bob_md5 ''t'') = Some (0, [''bob'', ''abc'', ''a.txt'', ''t''])"
  by (rule carries_post; code_simp) code_simp

definition bob_session :: "(db \<times> keys) world" where
  "bob_session = two_users\<lparr>ext := (fst (ext two_users), [''bob'' \<mapsto> ''t''])\<rparr>"

definition post_cmd :: "string \<Rightarrow> string \<Rightarrow> fcgi_request" where
  "post_cmd query text = (post text)\<lparr>query_string := Some query\<rparr>"

definition bob_file :: string where
  "bob_file = json_of [(''user'', ''bob''), (''md5'', ''abc''), (''filename'', ''a.txt''), (''token'', ''t'')]"

definition bob_vars :: vars where
  "bob_vars = \<lparr>v_cmd = [], v_user = ''bob'', v_token = ''t'', v_md5 = ''abc'', v_filename = ''a.txt''\<rparr>"

lemma carries_post_cmd: "carries (post text) text \<Longrightarrow> carries (post_cmd query text) text"
  by (simp add: carries_def post_cmd_def request_length_def)

lemma bob_stale: "carries (post_cmd q ''x'') ''x''" "carries (post_cmd q bob_file) bob_file" "cJSON_Parse ''x'' = Some None"
  "query_string (post_cmd q text) = Some q"
  "json_fields bob_file [(''user'', USER_NAME_LEN), (''md5'', MD5_LEN), (''filename'', FILE_NAME_LEN), (''token'', TOKEN_LEN)] =
     Some (0, [v_user bob_vars, v_md5 bob_vars, v_filename bob_vars, v_token bob_vars])"
  by (rule carries_post_cmd, rule carries_post; code_simp)+ (code_simp | simp add: post_cmd_def)+

subsection \<open>Properties\<close>





text \<open>C27: the program for a user's own files ignores that a request is no JSON text: such a request is served exactly
  as one that carries the name, the token, the digest and the file name of the request before it.\<close>

theorem stale_request:
  assumes "carries rq text" "cJSON_Parse text = Some None"
    and "carries rq' text'" "query_string rq' = query_string rq"
    and "json_fields text' [(''user'', USER_NAME_LEN), (''md5'', MD5_LEN), (''filename'', FILE_NAME_LEN), (''token'', TOKEN_LEN)] =
      Some (0, [v_user v, v_md5 v, v_filename v, v_token v])"
  shows "dealfile_serve e c rq v w = dealfile_serve e c rq' v w"
proof -
  have "get_json_info text (v\<lparr>v_cmd := cmd\<rparr>) = Some (- 1, v\<lparr>v_cmd := cmd\<rparr>)" for cmd
    using assms(2) by (simp add: get_json_info_def json_fields_def)
  moreover have "get_json_info text' (v\<lparr>v_cmd := cmd\<rparr>) = Some (0, v\<lparr>v_cmd := cmd\<rparr>)" for cmd
    using assms(5) by (simp add: get_json_info_def)
  ultimately have "dealfile_handle e c (v\<lparr>v_cmd := cmd\<rparr>) text = dealfile_handle e c (v\<lparr>v_cmd := cmd\<rparr>) text'" for cmd
    by (simp add: dealfile_handle_def fun_eq_iff)
  then show ?thesis
    by (simp add: dealfile_serve_def parse_cmd_def assms(4) with_body_carries [OF assms(1)] with_body_carries [OF assms(3)])
qed

theorem stale_request_witness:
  "dealfile_serve server server_conf (post_cmd ''cmd=del'' ''x'') bob_vars bob_session =
   dealfile_serve server server_conf (post_cmd ''cmd=del'' bob_file) bob_vars bob_session"
  by (rule stale_request [of _ "''x''" _ bob_file]) (auto simp: bob_stale)

text \<open>C26: the frame of the programs, for a body of characters other than zero that arrives completely: up to 4088
  bytes the program handles exactly the text that was sent; from 4089 bytes on it overruns an array, the one of
  the log entry or the one of the request itself.\<close>

theorem request_bounds:
  assumes "body rq = text" "request_length rq = int (length text)" "is_cstr text" "text \<noteq> []"
  shows "with_body rq s handle w = (if length text < 4089 then handle text w else None)"
  using assms by (auto simp: with_body_def read_body_def LOG_def store_def)

theorem request_bounds_witness:
  "with_body (post (replicate 4089 CHR ''a'')) () (\<lambda>text w. Some ((), put text w)) (start [] []) = None \<and>
   with_body (post ''ab'') () (\<lambda>text w. Some ((), put text w)) (start [] []) = Some ((), put ''ab'' (start [] []))"
proof -
  have bytes: "body (post t) = t" for t by (simp add: post_def)
  have len: "request_length (post t) = int (length t)" if "length t < 2 ^ 31" for t
    using that atoi_show_int [of "int (length t)"] by (simp add: post_def request_length_def show_int_def)
  show ?thesis by (simp add: request_bounds [OF bytes len] is_cstr_def)
qed

end
