(* ===== verification/Upload_Programs.thy ===== *)
theory Upload_Programs
  imports Request_Programs
begin

text \<open>
  The upload program: the multipart body that a browser sends is taken apart exactly.
\<close>

subsection \<open>Searching in a block\<close>

lemma strstr_first:
  assumes "sub \<noteq> []" "hd sub \<notin> set a" shows "strstr (a @ sub @ b) sub = Some (sub @ b)"
  using assms
proof (induction a)
  case Nil
  then show ?case by (cases sub) (simp_all add: prefix_of_def)
next
  case (Cons c a)
  then show ?case by (cases sub) (auto simp: prefix_of_def)
qed

lemma strstr_block_first:
  assumes "sub \<noteq> []" "hd sub \<notin> set a" "is_cstr a" "is_cstr sub"
  shows "strstr_block (a @ sub @ b) sub = Some (Some (sub @ b))"
proof -
  have "cstr (a @ sub @ b) = a @ sub @ cstr b"
    using assms(3,4) by (simp add: cstr_def is_cstr_def takeWhile_append)
  then show ?thesis using strstr_first [OF assms(1,2)] by (simp add: strstr_block_def)
qed

lemma found_first:
  assumes "sub \<noteq> []" "hd sub \<notin> set a" "is_cstr a" "is_cstr sub"
  shows "found (a @ sub @ b) sub = Some (sub @ b)"
  by (simp add: found_def strstr_block_first [OF assms])

text \<open>A value between quotes that the parser delivers unchanged.\<close>

definition quotable :: "nat \<Rightarrow> string \<Rightarrow> bool" where
  "quotable cap v \<longleftrightarrow> v \<noteq> [] \<and> length v < cap \<and> is_cstr v \<and> CHR 0x22 \<notin> set v \<and> CHR 0x0D \<notin> set v \<and>
     \<not> isspace (hd v) \<and> \<not> isspace (last v)"

lemma strip_id: "v \<noteq> [] \<Longrightarrow> \<not> isspace (hd v) \<Longrightarrow> \<not> isspace (last v) \<Longrightarrow> strip v = v"
proof -
  assume v: "v \<noteq> []" "\<not> isspace (hd v)" "\<not> isspace (last v)"
  have "dropWhile isspace v = v" using v by (cases v) auto
  moreover have "dropWhile isspace (rev v) = rev v" using v by (cases v rule: rev_cases) auto
  ultimately show ?thesis by (simp add: strip_def)
qed

lemma take_field_first:
  assumes "quotable cap v" "name \<noteq> []" "hd name \<notin> set a" "is_cstr a" "is_cstr name"
  shows "take_field cap name (a @ name @ [CHR 0x22] @ v @ [CHR 0x22] @ b) = Some (v, CHR 0x22 # b)"
proof -
  have q: "found (v @ [CHR 0x22] @ b) [CHR 0x22] = Some ([CHR 0x22] @ b)"
    using assms(1) by (intro found_first) (auto simp: quotable_def is_cstr_def)
  have "trim_space v = Some v"
    using assms(1) trim_space_strip [of v] strip_id [of v] by (simp add: quotable_def)
  then show ?thesis
    using assms(1) q unfolding take_field_def found_first [OF assms(2-5)]
    by (simp add: quotable_def store_def)
qed

subsection \<open>The body of a request\<close>

definition multipart :: "string \<Rightarrow> upload \<Rightarrow> string \<Rightarrow> string \<Rightarrow> string \<Rightarrow> string" where
  "multipart boundary u ctype content rest =
     boundary @ CRLF @
     ''Content-Disposition: form-data; '' @ ''user='' @ [CHR 0x22] @ u_user u @ [CHR 0x22] @
       ''; '' @ ''filename='' @ [CHR 0x22] @ u_filename u @ [CHR 0x22] @
       ''; '' @ ''md5='' @ [CHR 0x22] @ u_md5 u @ [CHR 0x22] @ ''; '' @ ''size='' @ show_int (u_size u) @ CRLF @
     ctype @ CRLF @ CRLF @ content @ CRLF @ boundary @ rest"

definition line :: "string \<Rightarrow> bool" where
  "line s \<longleftrightarrow> is_cstr s \<and> CHR 0x0D \<notin> set s"

text \<open>What a browser sends: fields that can be quoted, a boundary that occurs nowhere in the content.\<close>

definition sendable :: "string \<Rightarrow> upload \<Rightarrow> string \<Rightarrow> string \<Rightarrow> string \<Rightarrow> bool" where
  "sendable boundary u ctype content rest \<longleftrightarrow>
     line boundary \<and> boundary \<noteq> [] \<and> length boundary < TEMP_BUF_MAX_LEN \<and> line ctype \<and>
     quotable USER_NAME_LEN (u_user u) \<and> quotable FILE_NAME_LEN (u_filename u) \<and> quotable MD5_LEN (u_md5 u) \<and>
     0 \<le> u_size u \<and> u_size u < 2 ^ 63 \<and>
     length (u_user u) + length (u_filename u) + length (u_md5 u) \<le> 400 \<and>
     list_all (\<lambda>i. take (length boundary) (drop i (content @ CRLF @ boundary @ rest)) \<noteq> boundary) [0..<length content + 2]"

lemma show_size:
  assumes "0 \<le> n" "n < 2 ^ 63"
  shows "line (show_int n)" "length (show_int n) \<le> 19" "strtol (show_int n) = n"
proof -
  have "nat n < 10 ^ Suc 18" using assms by simp
  then show "length (show_int n) \<le> 19" using assms(1) show_nat_length [of "nat n" 18] by (simp add: show_int_def)
  show "line (show_int n)"
    using show_nat_digits [of "nat n"] assms(1) by (auto simp: line_def is_cstr_def show_int_def isdigit_def code_def)
  show "strtol (show_int n) = n" using assms by (intro strtol_show_int) auto
qed

lemma parse_multipart:
  assumes "line boundary" "boundary \<noteq> []" "length boundary < TEMP_BUF_MAX_LEN" "line ctype"
    and "quotable USER_NAME_LEN (u_user u)" "quotable FILE_NAME_LEN (u_filename u)" "quotable MD5_LEN (u_md5 u)"
    and "0 \<le> u_size u" "u_size u < 2 ^ 63"
    and "length (u_user u) + length (u_filename u) + length (u_md5 u) \<le> 400"
    and "\<forall>i \<in> {0..<length content + 2}. take (length boundary) (drop i (content @ CRLF @ boundary @ rest)) \<noteq> boundary"
  shows "parse_upload (multipart boundary u ctype content rest) = Some (Some (u, content))"
proof -
  define tail where "tail = content @ CRLF @ boundary @ rest"
  define l2 where "l2 = ctype @ CRLF @ CRLF @ tail"
  define sz where "sz = ''; '' @ ''size='' @ show_int (u_size u)"
  define md where "md = ''; '' @ ''md5='' @ [CHR 0x22] @ u_md5 u @ [CHR 0x22]"
  define fn where "fn = ''; '' @ ''filename='' @ [CHR 0x22] @ u_filename u @ [CHR 0x22]"
  define us where "us = ''Content-Disposition: form-data; '' @ ''user='' @ [CHR 0x22] @ u_user u @ [CHR 0x22]"
  note size = show_size [OF assms(8,9)]
  have crlf: "strstr_block (a @ CRLF @ b) CRLF = Some (Some (CRLF @ b))" "found (a @ CRLF @ b) CRLF = Some (CRLF @ b)" if "line a" for a b
    using that strstr_block_first [of CRLF a b] found_first [of CRLF a b] by (auto simp: line_def CRLF_def is_cstr_def)
  define header where "header = us @ fn @ md @ sz"
  have header: "line header" "length header < TEMP_BUF_MAX_LEN"
    using assms(5-7,10) size(1,2)
    by (auto simp: header_def line_def us_def fn_def md_def sz_def is_cstr_def quotable_def TEMP_BUF_MAX_LEN_def)
  have f1: "take_field USER_NAME_LEN ''user='' (header @ b) = Some (u_user u, CHR 0x22 # fn @ md @ sz @ b)" for b
    using take_field_first [OF assms(5), of "''user=''" "''Content-Disposition: form-data; ''" "fn @ md @ sz @ b"]
    by (simp add: header_def us_def is_cstr_def)
  have f2: "take_field FILE_NAME_LEN ''filename='' (CHR 0x22 # fn @ b) = Some (u_filename u, CHR 0x22 # b)" for b
    using take_field_first [OF assms(6), of "''filename=''" "[CHR 0x22, CHR '';'', CHR '' '']" b] by (simp add: fn_def is_cstr_def)
  have f3: "take_field MD5_LEN ''md5='' (CHR 0x22 # md @ b) = Some (u_md5 u, CHR 0x22 # b)" for b
    using take_field_first [OF assms(7), of "''md5=''" "[CHR 0x22, CHR '';'', CHR '' '']" b] by (simp add: md_def is_cstr_def)
  have f4: "found (CHR 0x22 # sz @ b) ''size='' = Some (''size='' @ show_int (u_size u) @ b)" for b
    using found_first [of "''size=''" "[CHR 0x22, CHR '';'', CHR '' '']" "show_int (u_size u) @ b"] by (simp add: sz_def is_cstr_def)
  have "\<exists>p r. tail = p @ boundary @ r \<and> length p = length content + 2"
    by (rule exI [of _ "content @ CRLF"], rule exI [of _ rest]) (simp add: tail_def CRLF_def)
  then have mem: "memstr tail boundary = Some (length content + 2)"
    unfolding memstr_Some using assms(2,11) occurs_iff [OF assms(2), of _ tail] by (metis tail_def linorder_not_less atLeastLessThan_iff zero_le)
  have whole: "multipart boundary u ctype content rest = boundary @ CRLF @ header @ CRLF @ l2"
    by (simp add: multipart_def header_def l2_def tail_def us_def fn_def md_def sz_def)
  have drops: "drop 2 (CRLF @ x) = x" "drop 4 (CRLF @ CRLF @ x) = x" for x by (simp_all add: CRLF_def)
  have "length (show_int (u_size u)) < 256" using size(2) by simp
  then show ?thesis
    unfolding parse_upload_def whole crlf(1) [OF assms(1)]
    using header assms(3) f2 f3 f4 mem
    by (simp add: store_def drops crlf(1) [OF header(1)] f1 f2 f3 f4 crlf(2) [OF size(1)] crlf(2) [OF assms(4)] l2_def size(3) Let_def
        del: drop_append) (simp add: tail_def CRLF_def)
qed

lemma parse_sendable:
  assumes "sendable boundary u ctype content rest"
  shows "parse_upload (multipart boundary u ctype content rest) = Some (Some (u, content))"
  by (rule parse_multipart; insert assms [unfolded sendable_def list_all_iff set_upt]; elim conjE; assumption)

subsection \<open>The protocol of an upload\<close>

text \<open>The external calls of an upload with the return code, in their order: the local copy is written, handed to the
  storage system, removed, its address is asked for, and only then MySQL is connected and the file recorded. Every
  failure ends the sequence.\<close>

definition stored_calls :: "string \<Rightarrow> string \<Rightarrow> string \<Rightarrow> event list" where
  "stored_calls path filename fileid =
    [Write_file filename, Pipe [''fdfs_upload_file'', path, filename], Unlink filename, Pipe [''fdfs_file_info'', path, fileid]]"

definition record_sql :: "upload \<Rightarrow> string \<Rightarrow> string \<Rightarrow> string \<Rightarrow> string" where
  "record_sql u fileid url suffix =
     fmt ''insert into file_info (md5, file_id, url, size, type, count) values (`%s`, `%s`, `%s`, `%ld`, `%s`, %d)''
       [Str (u_md5 u), Str fileid, Str url, Num (u_size u), Str suffix, Num 1]"

inductive uploads :: "int \<Rightarrow> event list \<Rightarrow> bool" where
  rejected: "uploads (- 1) []"
| unwritable: "uploads (- 1) [Write_file filename]"
| not_stored: "uploads (- 1) [Write_file filename, Pipe [''fdfs_upload_file'', path, filename]]"
| no_address: "uploads (- 1) (stored_calls path filename fileid)"
| no_database: "uploads (- 1) (stored_calls path filename fileid @ [Mysql_connect])"
| not_recorded: "uploads (- 1) (stored_calls path (u_filename u) fileid @
     [Mysql_connect, Sql ''set names utf8'', Sql (record_sql u fileid url suffix)])"
| not_listed: "uploads (- 1) (stored_calls path (u_filename u) fileid @
     [Mysql_connect, Sql ''set names utf8'', Sql (record_sql u fileid url suffix), Sql q])"
| recorded: "r \<in> {0, - 1} \<Longrightarrow> uploads r (stored_calls path (u_filename u) fileid @
     [Mysql_connect, Sql ''set names utf8'', Sql (record_sql u fileid url suffix), Sql q, Sql q', Sql q''])"

lemmas uploads_intros = uploads.intros [unfolded stored_calls_def, simplified]

lemma calls_run_sql:
  assumes "\<And>a w'. trace w' = trace w @ [Sql (fmt f args)] \<Longrightarrow> Q (a, w')" shows "ok Q (run_sql e f args w)"
  using assms by (simp add: run_sql_def sql_text_def mysql_query_def ok_simps logged_def)

lemma calls_connect_mysql:
  assumes "\<And>w'. trace w' = trace w @ [Mysql_connect] \<Longrightarrow> Q (False, w')"
    and "\<And>w'. trace w' = trace w @ [Mysql_connect, Sql ''set names utf8''] \<Longrightarrow> Q (True, w')"
  shows "ok Q (connect_mysql e c w)"
  using assms by (simp add: connect_mysql_def msql_conn_def mysql_query_def ok_simps logged_def)

lemma calls_query_one:
  assumes "\<And>r t w'. trace w' = trace w @ [Sql (fmt f args)] \<Longrightarrow> Q (r, t, w')" shows "ok Q (query_one e f args buf w)"
  using assms
  by (auto simp: query_one_def sql_text_def process_result_one_def mysql_query_def ok_simps Let_def logged_def
      split: sql_reply.split list.split option.split)

lemma calls_count_user_file:
  assumes "\<And>r q q' w'. trace w' = trace w @ [Sql q, Sql q'] \<Longrightarrow> r \<in> {0, - 1} \<Longrightarrow> Q (r, w')"
  shows "ok Q (count_user_file e f user tmp w)"
  unfolding count_user_file_def ok_simps
  by (rule calls_query_one) (auto simp: ok_simps intro!: calls_run_sql assms)

lemma calls_record:
  assumes "\<And>a w'. trace w' = trace w @ [Sql (record_sql u fileid url suffix)] \<Longrightarrow> Q (a, w')"
  shows "ok Q (run_sql e ''insert into file_info (md5, file_id, url, size, type, count) values (`%s`, `%s`, `%s`, `%ld`, `%s`, %d)''
    [Str (u_md5 u), Str fileid, Str url, Num (u_size u), Str suffix, Num 1] w)"
  by (rule calls_run_sql) (rule assms, simp only: record_sql_def)

lemma calls_insert:
  assumes "\<And>a q w'. trace w' = trace w @ [Sql q] \<Longrightarrow> Q (a, w')" shows "ok Q (run_sql e INSERT_USER_FILE args w)"
  by (rule calls_run_sql) (rule assms)

lemma calls_store_fileinfo:
  assumes "\<And>w'. trace w' = trace w @ [Mysql_connect] \<Longrightarrow> Q (- 1, w')"
    and "\<And>suffix w'. trace w' = trace w @ [Mysql_connect, Sql ''set names utf8'', Sql (record_sql u fileid url suffix)] \<Longrightarrow> Q (- 1, w')"
    and "\<And>suffix q w'. trace w' = trace w @ [Mysql_connect, Sql ''set names utf8'', Sql (record_sql u fileid url suffix), Sql q] \<Longrightarrow> Q (- 1, w')"
    and "\<And>suffix r q q' q'' w'. trace w' = trace w @ [Mysql_connect, Sql ''set names utf8'', Sql (record_sql u fileid url suffix), Sql q, Sql q', Sql q''] \<Longrightarrow>
      r \<in> {0, - 1} \<Longrightarrow> Q (r, w')"
  shows "ok Q (store_fileinfo_to_mysql e c u fileid url w)"
  unfolding store_fileinfo_to_mysql_def ok_simps
  by (auto simp: ok_simps intro!: calls_connect_mysql okI [of "get_file_suffix _ _"] calls_record calls_insert calls_count_user_file)
    (blast intro: assms)+

lemma calls_recv_save_file:
  assumes "\<And>w'. trace w' = trace w \<Longrightarrow> Q (None, w')"
    and "\<And>filename w'. trace w' = trace w @ [Write_file filename] \<Longrightarrow> Q (None, w')"
    and "\<And>u w'. trace w' = trace w @ [Write_file (u_filename u)] \<Longrightarrow> Q (Some u, w')"
  shows "ok Q (recv_save_file e len stdin w)"
  using assms unfolding recv_save_file_def Let_def
  by (auto simp: ok_simps logged_def intro!: okI [of "parse_upload _"] split: option.split)

lemma calls_read_pipe:
  assumes "\<And>r w'. trace w' = trace w @ [Pipe argv] \<Longrightarrow> Q (r, w')" shows "ok Q (read_pipe e argv w)"
  using assms by (auto simp: read_pipe_def ok_simps logged_def split: option.split)

lemma calls_upload_to_dstorage:
  assumes "\<And>path r w'. trace w' = trace w @ [Pipe [''fdfs_upload_file'', path, filename]] \<Longrightarrow> config_or_empty e 256 ''dfs_path'' ''client'' = Some path \<Longrightarrow> Q (r, w')"
  shows "ok Q (upload_to_dstorage e filename w)"
  unfolding upload_to_dstorage_def ok_simps
  by (auto simp: ok_simps intro!: okI [of "config_or_empty _ _ _ _"] okI [of "trim_space _"] calls_read_pipe assms split: option.split)

lemma calls_make_file_url:
  assumes "\<And>path r w'. trace w' = trace w @ [Pipe [''fdfs_file_info'', path, fileid]] \<Longrightarrow> config_or_empty e 256 ''dfs_path'' ''client'' = Some path \<Longrightarrow> Q (r, w')"
  shows "ok Q (make_file_url e fileid w)"
  unfolding make_file_url_def ok_simps
  by (auto simp: ok_simps Let_def intro!: okI [of "config_or_empty _ _ _ _"] okI [of "strstr _ _"] calls_read_pipe assms split: option.split)

lemma calls_upload_file:
  "ok (\<lambda>(r, w'). \<exists>steps. trace w' = trace w @ steps \<and> uploads r steps) (upload_file e c len stdin w)"
  unfolding upload_file_def ok_simps
  by (auto simp: ok_simps logged_def intro!: calls_recv_save_file calls_upload_to_dstorage calls_make_file_url calls_store_fileinfo
      split: option.split intro: uploads_intros)

subsection \<open>Recording the file\<close>

context reliable
begin

lemma runs_insert_file:
  assumes t: "plain_text 200 md5" "plain_text 256 fileid" "plain_text 512 url" "plain_text 20 suffix"
    and sz: "0 \<le> n" "n < 2 ^ 63" and len: "length md5 + length fileid + length url + length suffix \<le> 370"
    and wf: "well_formed colleq (tables w)"
    and Q: "\<And>w'. tables w' = tables w \<Longrightarrow> cell colleq (tables w) ''file_info'' ''md5'' md5 \<noteq> None \<Longrightarrow> Q (False, w')"
      "\<And>w'. cell colleq (tables w) ''file_info'' ''md5'' md5 = None \<Longrightarrow>
        (\<And>m. cell colleq (tables w') ''file_info'' ''md5'' m = (if colleq md5 m then Some 1 else cell colleq (tables w) ''file_info'' ''md5'' m)) \<Longrightarrow>
        (\<And>t. t \<noteq> ''file_info'' \<Longrightarrow> tables w' t = tables w t) \<Longrightarrow> Q (True, w')"
  shows "runs Q (run_sql e ''insert into file_info (md5, file_id, url, size, type, count) values (`%s`, `%s`, `%s`, `%ld`, `%s`, %d)''
    [Str md5, Str fileid, Str url, Num n, Str suffix, Num 1] w)"
proof (rule runs_run_sql [OF sql_insert_file])
  let ?s = "Insert ''file_info'' [''md5'', ''file_id'', ''url'', ''size'', ''type'', ''count''] [md5, fileid, url, show_int n, suffix, show_int 1]"
  define new where "new = map_of (zip [''md5'', ''file_id'', ''url'', ''size'', ''type'', ''count''] [md5, fileid, url, show_int n, suffix, show_int 1])"
  show "stmt_ok ?s" using t sz show_size [OF sz] strtol_show_int [of 1] by (simp add: stored_def schema_def)
  show "length (fmt ''insert into file_info (md5, file_id, url, size, type, count) values (`%s`, `%s`, `%s`, `%ld`, `%s`, %d)''
    [Str md5, Str fileid, Str url, Num n, Str suffix, Num 1]) < SQL_MAX_LEN"
    using len show_size(2) [OF sz] by (simp add: fmt_def unquote_def SQL_MAX_LEN_def show_int_digit)
  have c: "counters colleq (tables w) ''file_info'' ''md5''" using wf by (simp add: well_formed_def)
  have clash: "key_clash colleq ''file_info'' new (tables w ''file_info'') \<longleftrightarrow> cell colleq (tables w) ''file_info'' ''md5'' md5 \<noteq> None"
    by (rule counters_cases [OF c, where v = md5])
      (auto simp: new_def key_clash_def unique_keys_def list_ex_iff filter_empty_conv dest: filter_ConsD)
  have row: "new ''md5'' = Some md5" "new ''count'' = Some (show_int 1)" by (simp_all add: new_def)
  fix w' assume "tables w' = snd (exec colleq ?s (tables w))"
  then have d: "tables w' = (if key_clash colleq ''file_info'' new (tables w ''file_info'') then tables w
      else (tables w)(''file_info'' := tables w ''file_info'' @ [new]))"
    by (simp add: Let_def new_def del: zip_Cons_Cons)
  have e: "(fst (exec colleq ?s (tables w)) \<noteq> SqlError) = (\<not> key_clash colleq ''file_info'' new (tables w ''file_info''))"
    by (simp add: Let_def new_def del: zip_Cons_Cons)
  show "Q (fst (exec colleq ?s (tables w)) \<noteq> SqlError, w')"
    unfolding e using clash Q d cell_new [OF _ c row] by (cases "cell colleq (tables w) ''file_info'' ''md5'' md5") auto
qed (use t in \<open>auto simp: plain_text_def\<close>)

text \<open>The two statements after the new row of \<open>file_info\<close>.\<close>

lemma runs_list_file:
  assumes f: "short_fields user md5 filename" and wf: "well_formed colleq d"
    and none: "cell colleq d ''file_info'' ''md5'' md5 = None"
    and w1: "\<And>m. cell colleq (tables w1) ''file_info'' ''md5'' m = (if colleq md5 m then Some 1 else cell colleq d ''file_info'' ''md5'' m)"
    and other: "\<And>t. t \<noteq> ''file_info'' \<Longrightarrow> tables w1 t = d t"
    and Q: "\<And>w'. store_of colleq (tables w') = add_owner colleq user md5 filename (store_of colleq d) \<Longrightarrow> Q (0, w')"
  shows "runs Q (do {
      (listed, w) \<leftarrow> run_sql e INSERT_USER_FILE [Str user, Str md5, Str (strftime_now e w1), Str filename, Num 0, Num 0] w1;
      if \<not> listed then Some (- 1, w) else count_user_file e INSERT_USER_COUNT user [] w })"
  unfolding runs_simps(3)
proof (rule runs_insert_user_file [OF f])
  have fo: "fields_ok user md5 filename" using f by (simp add: short_fields_def)
  fix w2 new
  assume new: "tables w2 = (tables w1)(''user_file_list'' := tables w1 ''user_file_list'' @ [new])"
    "new ''user'' = Some user" "new ''md5'' = Some md5" "new ''filename'' = Some filename"
  have "runs Q (count_user_file e INSERT_USER_COUNT user [] w2)"
  proof (rule runs_count_user_file [OF fields_ok_simps(1) [OF fo]])
    show "counters colleq (tables w2) ''user_file_count'' ''user''"
      using wf other [of "''user_file_count''"] new(1) by (simp add: counters_def well_formed_def)
  qed (rule Q, rule store_of_add_owner [OF _ other new], simp_all add: w1 none bump_def)
  then show "runs Q (case (True, w2) of (listed, w) \<Rightarrow> if \<not> listed then Some (- 1, w) else count_user_file e INSERT_USER_COUNT user [] w)"
    by simp
qed

lemma refines_store_fileinfo:
  assumes f: "short_fields (u_user u) (u_md5 u) (u_filename u)" and wf: "well_formed colleq (tables w)"
    and suffix: "get_file_suffix SUFFIX_LEN (u_filename u) = Some suffix" "plain suffix"
    and t: "plain_text 256 fileid" "plain_text 512 url" "length (u_md5 u) + length fileid + length url \<le> 360"
    and sz: "0 \<le> u_size u" "u_size u < 2 ^ 63"
    and Q: "\<And>r w'. new_file colleq (u_user u) (u_md5 u) (u_filename u) (store_of colleq (tables w)) = (r, store_of colleq (tables w')) \<Longrightarrow> Q (r, w')"
  shows "runs Q (store_fileinfo_to_mysql e c u fileid url w)"
proof -
  have len: "length suffix < 8"
    using suffix(1) by (auto simp: get_file_suffix_def SUFFIX_LEN_def store_def Let_def split: if_splits)
  have fo: "fields_ok (u_user u) (u_md5 u) (u_filename u)" using f by (simp add: short_fields_def)
  have ins: "plain_text 200 (u_md5 u)" "plain_text 20 suffix" "length (u_md5 u) + length fileid + length url + length suffix \<le> 370"
    using fields_ok_simps [OF fo] len t(3) suffix(2) by (simp_all add: plain_text_def)
  have known: "Q (- 1, w1)" if "cell colleq (tables w) ''file_info'' ''md5'' (u_md5 u) \<noteq> None" "tables w1 = tables w" for w1
    using that by (intro Q) (simp add: new_file_def store_of_def)
  have new: "Q (0, w1)" if "cell colleq (tables w) ''file_info'' ''md5'' (u_md5 u) = None"
      "store_of colleq (tables w1) = add_owner colleq (u_user u) (u_md5 u) (u_filename u) (store_of colleq (tables w))" for w1
    using that by (intro Q) (simp add: new_file_def store_of_def)
  have recorded: "runs (\<lambda>x. runs Q (case x of (worked, w) \<Rightarrow> if \<not> worked then Some (- 1, w) else do {
         (worked, w) \<leftarrow> run_sql e INSERT_USER_FILE
           [Str (u_user u), Str (u_md5 u), Str (strftime_now e w), Str (u_filename u), Num 0, Num 0] w;
         if \<not> worked then Some (- 1, w) else count_user_file e INSERT_USER_COUNT (u_user u) [] w }))
      (run_sql e ''insert into file_info (md5, file_id, url, size, type, count) values (`%s`, `%s`, `%s`, `%ld`, `%s`, %d)''
         [Str (u_md5 u), Str fileid, Str url, Num (u_size u), Str suffix, Num 1] w0)" if "tables w0 = tables w" for w0
    by (rule runs_insert_file [OF ins(1) t(1,2) ins(2) sz ins(3)])
      (use that wf in \<open>simp_all add: runs_simps(1) known runs_list_file [OF f wf] new\<close>)
  show ?thesis
    unfolding store_fileinfo_to_mysql_def suffix(1) runs_simps(3)
    by (rule runs_connect_mysql) (use recorded in \<open>simp add: runs_simps(1,3) unchanged_def\<close>)
qed

subsubsection \<open>The whole upload\<close>

lemma runs_recv_save_file:
  assumes "buf \<noteq> []" "parse_upload buf = Some (Some (u, content))" "\<And>f t x. fst (env_write_file e f t x)"
    and "\<And>w'. tables w' = tables w \<Longrightarrow> Q (Some u, w')"
  shows "runs Q (recv_save_file e (int (length buf)) buf w)"
  using assms by (simp add: recv_save_file_def runs_simps keep_write)

lemma runs_upload_to_dstorage:
  assumes "config_or_empty e 256 ''dfs_path'' ''client'' = Some path"
    and "\<And>x. \<exists>t. fst (env_pipe e [''fdfs_upload_file'', path, filename] x) = Some t \<and> length t < TEMP_BUF_MAX_LEN \<and>
      trim_space (cstr t) = Some fileid" "fileid \<noteq> []"
    and Q: "\<And>w'. tables w' = tables w \<Longrightarrow> Q (Some fileid, w')"
  shows "runs Q (upload_to_dstorage e filename w)"
  using assms(1,3) assms(2) [of "ext w"] Q
  by (auto simp: upload_to_dstorage_def read_pipe_def runs_simps keep_pipe)

lemma runs_make_file_url:
  assumes "config_or_empty e 256 ''dfs_path'' ''client'' = Some path" "config_or_empty e 20 ''storage_web_server'' ''port'' = Some port"
    and "\<And>x. \<exists>t r. fst (env_pipe e [''fdfs_file_info'', path, fileid] x) = Some t \<and> length t < TEMP_BUF_MAX_LEN \<and>
      strstr (cstr t) ''source ip address: '' = Some (''source ip address: '' @ host @ CHR 0x0A # r)"
    and "CHR 0x0A \<notin> set host" "length host < HOST_NAME_LEN"
    and "length (''http://'' @ host @ '':'' @ port @ ''/'' @ fileid) < FILE_URL_LEN"
    and Q: "\<And>w'. tables w' = tables w \<Longrightarrow> Q (Some (''http://'' @ host @ '':'' @ port @ ''/'' @ fileid), w')"
  shows "runs Q (make_file_url e fileid w)"
proof -
  obtain t r where t: "fst (env_pipe e [''fdfs_file_info'', path, fileid] (ext w)) = Some t" "length t < TEMP_BUF_MAX_LEN"
    "strstr (cstr t) ''source ip address: '' = Some (''source ip address: '' @ host @ CHR 0x0A # r)"
    using assms(3) by blast
  have "strstr (host @ CHR 0x0A # r) [CHR 0x0A] = Some (CHR 0x0A # r)"
    using strstr_first [of "[CHR 0x0A]" host r] assms(4) by simp
  then show ?thesis
    using assms(1,2,5,6) t Q by (simp add: make_file_url_def read_pipe_def runs_simps keep_pipe store_def)
qed

end

text \<open>A storage system that works: it takes the file and reports an identifier, and its report on that
  identifier names the host.\<close>

definition storage_works :: "'x env \<Rightarrow> string \<Rightarrow> string \<Rightarrow> string \<Rightarrow> bool" where
  "storage_works e filename fileid url \<longleftrightarrow> (\<forall>f t x. fst (env_write_file e f t x)) \<and> fileid \<noteq> [] \<and>
    (\<exists>path port host. config_or_empty e 256 ''dfs_path'' ''client'' = Some path \<and>
      config_or_empty e 20 ''storage_web_server'' ''port'' = Some port \<and>
      (\<forall>x. \<exists>t. fst (env_pipe e [''fdfs_upload_file'', path, filename] x) = Some t \<and> length t < TEMP_BUF_MAX_LEN \<and>
         trim_space (cstr t) = Some fileid) \<and>
      (\<forall>x. \<exists>t r. fst (env_pipe e [''fdfs_file_info'', path, fileid] x) = Some t \<and> length t < TEMP_BUF_MAX_LEN \<and>
         strstr (cstr t) ''source ip address: '' = Some (''source ip address: '' @ host @ CHR 0x0A # r)) \<and>
      CHR 0x0A \<notin> set host \<and> length host < HOST_NAME_LEN \<and> url = ''http://'' @ host @ '':'' @ port @ ''/'' @ fileid)"

text \<open>Values that the columns of \<open>file_info\<close> and the array for a statement can hold.\<close>

definition recordable :: "upload \<Rightarrow> string \<Rightarrow> string \<Rightarrow> bool" where
  "recordable u fileid url \<longleftrightarrow> short_fields (u_user u) (u_md5 u) (u_filename u) \<and>
     (case get_file_suffix SUFFIX_LEN (u_filename u) of None \<Rightarrow> False | Some suffix \<Rightarrow> plain suffix) \<and>
     plain_text 256 fileid \<and> plain_text 512 url \<and> length (u_md5 u) + length fileid + length url \<le> 360 \<and>
     0 \<le> u_size u \<and> u_size u < 2 ^ 63"

context reliable
begin

lemma refines_upload_file:
  assumes "buf \<noteq> []" "parse_upload buf = Some (Some (u, content))" and store: "storage_works e (u_filename u) fileid url"
    and u: "recordable u fileid url" and wf: "well_formed colleq (tables w)"
    and Q: "\<And>r w'. new_file colleq (u_user u) (u_md5 u) (u_filename u) (store_of colleq (tables w)) = (r, store_of colleq (tables w')) \<Longrightarrow> Q (r, w')"
  shows "runs Q (upload_file e c (int (length buf)) buf w)"
proof -
  obtain path port host where p: "config_or_empty e 256 ''dfs_path'' ''client'' = Some path"
    "config_or_empty e 20 ''storage_web_server'' ''port'' = Some port"
    and pipe: "\<And>x. \<exists>t. fst (env_pipe e [''fdfs_upload_file'', path, u_filename u] x) = Some t \<and> length t < TEMP_BUF_MAX_LEN \<and>
         trim_space (cstr t) = Some fileid"
      "\<And>x. \<exists>t r. fst (env_pipe e [''fdfs_file_info'', path, fileid] x) = Some t \<and> length t < TEMP_BUF_MAX_LEN \<and>
         strstr (cstr t) ''source ip address: '' = Some (''source ip address: '' @ host @ CHR 0x0A # r)"
    and host: "CHR 0x0A \<notin> set host" "length host < HOST_NAME_LEN" "url = ''http://'' @ host @ '':'' @ port @ ''/'' @ fileid"
    using store unfolding storage_works_def by blast
  obtain suffix where s: "get_file_suffix SUFFIX_LEN (u_filename u) = Some suffix" "plain suffix"
    using u by (auto simp: recordable_def split: option.splits)
  have url: "length (''http://'' @ host @ '':'' @ port @ ''/'' @ fileid) < FILE_URL_LEN"
    using u host(3) by (simp add: recordable_def FILE_URL_LEN_def)
  have written: "\<And>f t x. fst (env_write_file e f t x)" and id: "fileid \<noteq> []" using store by (auto simp: storage_works_def)
  have rec: "short_fields (u_user u) (u_md5 u) (u_filename u)" "plain_text 256 fileid" "plain_text 512 url"
    "length (u_md5 u) + length fileid + length url \<le> 360" "0 \<le> u_size u" "u_size u < 2 ^ 63"
    using u by (simp_all add: recordable_def)
  have final: "runs Q (store_fileinfo_to_mysql e c u fileid (''http://'' @ host @ '':'' @ port @ ''/'' @ fileid) w1)" if "tables w1 = tables w" for w1
    using refines_store_fileinfo [OF rec(1) _ s rec(2-6), of w1 Q c] that wf Q by (simp add: host(3))
  show ?thesis
    unfolding upload_file_def runs_simps(3)
    by (rule runs_recv_save_file [OF assms(1,2) written])
      (auto simp: runs_simps keep_unlink intro!: runs_upload_to_dstorage [OF p(1) pipe(1) id] runs_make_file_url [OF p pipe(2) host(1,2) url]
        final [simplified])
qed

end

subsection \<open>Properties\<close>


definition bob_upload :: upload where
  "bob_upload = \<lparr>u_user = ''bob'', u_filename = ''n.txt'', u_md5 = ''fff'', u_size = 4\<rparr>"

definition bob_body :: string where
  "bob_body = multipart ''------X'' bob_upload ''Content-Type: text/plain'' [CHR 0x00, CHR 0x0D, CHR ''-'', CHR 0xFF] ''--''"

lemma bob_sendable: "sendable ''------X'' bob_upload ''Content-Type: text/plain'' [CHR 0x00, CHR 0x0D, CHR ''-'', CHR 0xFF] ''--''"
  by code_simp


text \<open>C17: in every environment, the external calls of an upload come in the one order of \<open>uploads\<close>: the local copy
  is written, given to the storage system, removed, and its address asked for, before MySQL is connected at all; the row of
  \<open>file_info\<close> comes before the entry of the user; and an upload that returns 0 has made every one of these calls.\<close>

theorem upload_protocol:
  "ok (\<lambda>(r, w'). \<exists>steps. trace w' = trace w @ steps \<and> uploads r steps) (upload_file e c len stdin w)"
  by (rule calls_upload_file)


lemma server_storage: "storage_works server ''n.txt'' ''group1/M00/00/00/wKgx'' ''http://127.0.0.1:/group1/M00/00/00/wKgx''"
proof -
  have "config_or_empty server 20 ''storage_web_server'' ''port'' = Some []"
    "trim_space (cstr (''group1/M00/00/00/wKgx'' @ [CHR 0x0A])) = Some ''group1/M00/00/00/wKgx''"
    "strstr (cstr (''source ip address: 127.0.0.1'' @ [CHR 0x0A])) ''source ip address: '' = Some (''source ip address: '' @ ''127.0.0.1'' @ CHR 0x0A # [])"
    by code_simp+
  then show ?thesis
    unfolding storage_works_def
    by (auto simp: server_path server_pipe_def TEMP_BUF_MAX_LEN_def HOST_NAME_LEN_def intro!: exI [of _ "''127.0.0.1''"])
qed


end
