(* ===== verification/Race.thy ===== *)
theory Race
  imports Request_Programs
begin

text \<open>
  Two processes of the program for instant uploads that run at the same time. Each of them is a sequence of
  statements, and the server may order the statements of both so that both processes read the
  reference count before either writes it.
\<close>

definition md5_read :: "'x env \<Rightarrow> config \<Rightarrow> string \<Rightarrow> 'x world \<Rightarrow> ((int \<times> string) option \<times> 'x world) option" where
  "md5_read e c md5 w = do {
     (conn, w) \<leftarrow> connect_mysql e c w;
     if \<not> conn then Some (None, w)
     else do {
       (ret2, tmp, w) \<leftarrow> query_one e ''select count from file_info where md5 = `%s`'' [Str md5] (Some []) w;
       Some (Some (ret2, tmp), w)
     }
   }"

definition md5_write ::
    "'x env \<Rightarrow> string \<Rightarrow> string \<Rightarrow> string \<Rightarrow> (int \<times> string) option \<Rightarrow> 'x world \<Rightarrow> (int \<times> 'x world) option" where
  "md5_write e user md5 filename st w =
    (case st of
       None \<Rightarrow> Some (- 1, w)
     | Some (ret2, tmp) \<Rightarrow>
         if ret2 = 0 then do {
           (ret2, _, w) \<leftarrow> query_one e ''select * from user_file_list where user = `%s` and md5 = `%s` and filename = `%s`''
             [Str user, Str md5, Str filename] None w;
           if ret2 = 2 then Some (- 2, w) else add_reference e user md5 filename tmp w
         }
         else if ret2 = 1 then Some (- 3, w)
         else Some (0, w))"

lemma deal_md5_split:
  "deal_md5_body e c user md5 filename w = do { (st, w) \<leftarrow> md5_read e c md5 w; md5_write e user md5 filename st w }"
  unfolding deal_md5_body_def md5_read_def md5_write_def
  by (auto split: Option.bind_splits)

text \<open>The schedule in which both processes read before either writes.\<close>

definition md5_race ::
    "'x env \<Rightarrow> config \<Rightarrow> string \<Rightarrow> string \<Rightarrow> string \<Rightarrow> string \<Rightarrow> 'x world \<Rightarrow> (int \<times> int \<times> 'x world) option" where
  "md5_race e c user1 user2 md5 filename w = do {
     (st1, w) \<leftarrow> md5_read e c md5 w;
     (st2, w) \<leftarrow> md5_read e c md5 w;
     (ret1, w) \<leftarrow> md5_write e user1 md5 filename st1 w;
     (ret2, w) \<leftarrow> md5_write e user2 md5 filename st2 w;
     Some (ret1, ret2, w)
   }"

definition short_counts :: "db \<Rightarrow> bool" where
  "short_counts d \<longleftrightarrow> (\<forall>r \<in> set (d ''user_file_count''). \<forall>s. r ''count'' = Some s \<longrightarrow> length s < 512)"

lemma short_counts_other: "d' ''user_file_count'' = d ''user_file_count'' \<Longrightarrow> short_counts d' = short_counts d"
  by (simp add: short_counts_def)

context database
begin

lemma effect_add_reference:
  assumes f: "fields_ok user md5 filename" and c: "counted colleq (tables w) md5 j" and i: "0 \<le> i" "i < 2 ^ 31 - 1"
  shows "ok (\<lambda>(r, w'). r = 0 \<longrightarrow> counted colleq (tables w') md5 (i + 1) \<and> refs colleq (tables w') md5 = refs colleq (tables w) md5 + 1)
    (add_reference e user md5 filename (show_int i) w)"
proof -
  have b: "- (2 ^ 31) \<le> i + 1" "i + 1 < 2 ^ 31" using i by simp_all
  have n: "wrap32 (atoi (show_int i) + 1) = i + 1" using i by (simp add: atoi_show_int wrap32_id)
  let ?d = "snd (exec colleq (Update ''file_info'' ''count'' (show_int (i + 1)) [(''md5'', md5)]) (tables w))"
  have step: "counts colleq (?d(''user_file_list'' := ?d ''user_file_list'' @ [new])) md5 = [Some (show_int (i + 1))]"
    "refs colleq (?d(''user_file_list'' := ?d ''user_file_list'' @ [new])) md5 = Suc (refs colleq (tables w) md5)"
    if "new ''md5'' = Some md5" for new
  proof -
    have "counts colleq (?d(''user_file_list'' := ?d ''user_file_list'' @ [new])) = counts colleq ?d" by (rule counts_cong) simp
    then show "counts colleq (?d(''user_file_list'' := ?d ''user_file_list'' @ [new])) md5 = [Some (show_int (i + 1))]"
      using c colleq_refl by (simp add: counts_update counted_def del: exec.simps)
    have "refs colleq ?d md5 = refs colleq (tables w) md5" by (simp add: refs_update_other del: exec.simps)
    then show "refs colleq (?d(''user_file_list'' := ?d ''user_file_list'' @ [new])) md5 = Suc (refs colleq (tables w) md5)"
      using refs_insert [of new md5 ?d md5, OF that] colleq_refl by (simp del: exec.simps)
  qed
  show ?thesis
    unfolding add_reference_def ok_simps n
    by (auto intro!: ok_set_count [OF b] ok_insert_user_file [OF f] ok_count_user_file
      simp: ok_simps unchanged_def same_refs_def counted_def step fields_ok_simps [OF f] simp del: exec.simps)
qed

end

context reliable
begin

lemma runs_new_count:
  assumes u: "plain_text 128 user" and s: "short_counts (tables w)"
    and none: "filter (matches colleq [(''user'', user)]) (tables w ''user_file_count'') = []"
    and Q: "\<And>w'. short_counts (tables w') \<Longrightarrow> (\<And>t. t \<noteq> ''user_file_count'' \<Longrightarrow> tables w' t = tables w t) \<Longrightarrow> Q (True, w')"
  shows "runs Q (run_sql e INSERT_USER_COUNT [Str user, Num 1] w)"
proof (rule runs_run_sql [OF sql_insert_user_count(1)])
  show "plain user" "stmt_ok (Insert ''user_file_count'' [''user'', ''count''] [user, show_int 1])"
    using u stored_int [of 1 "''user_file_count''"] by (simp_all add: plain_text_def stored_simps)
  show "length (fmt INSERT_USER_COUNT [Str user, Num 1]) < SQL_MAX_LEN"
    using u show_int_digit by (simp add: fmt_def unquote_def SQL_MAX_LEN_def INSERT_USER_COUNT_def plain_text_def)
  fix w'
  assume d: "tables w' = snd (exec colleq (Insert ''user_file_count'' [''user'', ''count''] [user, show_int 1]) (tables w))"
  have "\<not> key_clash colleq ''user_file_count'' (map_of (zip [''user'', ''count''] [user, show_int 1])) (tables w ''user_file_count'')"
    using none by (simp add: key_clash_def unique_keys_def list_ex_iff filter_empty_conv)
  then show "Q (fst (exec colleq (Insert ''user_file_count'' [''user'', ''count''] [user, show_int 1]) (tables w)) \<noteq> SqlError, w')"
    using d s Q [of w'] by (auto simp: Let_def short_counts_def show_int_digit)
qed

lemma runs_change_count:
  assumes u: "plain_text 128 user" and s: "short_counts (tables w)" and Q: "\<And>w'. short_counts (tables w') \<Longrightarrow> (\<And>t. t \<noteq> ''user_file_count'' \<Longrightarrow> tables w' t = tables w t) \<Longrightarrow> Q (True, w')"
  shows "runs Q (run_sql e ''update user_file_count set count = %d where user = `%s`'' [Num (wrap32 k), Str user] w)"
proof (rule runs_run_sql [OF sql_set_user_count])
  show "plain user" "stmt_ok (Update ''user_file_count'' ''count'' (show_int (wrap32 k)) [(''user'', user)])"
    using u wrap32_range [of k] by (simp_all add: plain_text_def stored_simps stored_int)
  show "length (fmt ''update user_file_count set count = %d where user = `%s`'' [Num (wrap32 k), Str user]) < SQL_MAX_LEN"
    using u show_wrap32_length [of k] by (simp add: fmt_def unquote_def SQL_MAX_LEN_def plain_text_def)
  fix w'
  assume d: "tables w' = snd (exec colleq (Update ''user_file_count'' ''count'' (show_int (wrap32 k)) [(''user'', user)]) (tables w))"
  have "length (show_int (wrap32 k)) < 512" using show_wrap32_length [of k] by simp
  then have "short_counts (tables w')" using s by (auto simp: short_counts_def d split: if_splits)
  then show "Q (fst (exec colleq (Update ''user_file_count'' ''count'' (show_int (wrap32 k)) [(''user'', user)]) (tables w)) \<noteq> SqlError, w')"
    using Q d by simp
qed

lemma runs_count_total:
  assumes u: "plain_text 128 user" and s: "short_counts (tables w)" and Q: "\<And>w'. short_counts (tables w') \<Longrightarrow> (\<And>t. t \<noteq> ''user_file_count'' \<Longrightarrow> tables w' t = tables w t) \<Longrightarrow> Q (0, w')"
  shows "runs Q (count_user_file e INSERT_USER_COUNT user tmp w)"
  unfolding count_user_file_def runs_simps
proof (rule runs_query_one [OF sql_count_of_user])
  show "plain user" "stmt_ok (Select ''count'' ''user_file_count'' [(''user'', user)])"
    using u by (simp_all add: plain_text_def stored_simps schema_def)
  show "length (fmt ''select count from user_file_count where user = `%s`'' [Str user]) < SQL_MAX_LEN"
    using u by (simp add: fmt_def unquote_def SQL_MAX_LEN_def plain_text_def)
  show "length c < 512" if "filter (matches colleq [(''user'', user)]) (tables w ''user_file_count'') = r # rs" "r ''count'' = Some c" for r rs c
    using filter_ConsD [OF that(1)] that(2) s by (auto simp: short_counts_def)
qed (use s Q in \<open>auto simp: runs_simps unchanged_def short_counts_def intro!: runs_new_count [OF u] runs_change_count [OF u] split: list.split\<close>)

lemma runs_add_reference_total:
  assumes f: "short_fields user md5 filename" and s: "short_counts (tables w)"
  shows "runs (\<lambda>(r, w'). r = 0 \<and> short_counts (tables w') \<and> (\<forall>u m n. entries colleq (tables w') (u, m, n) =
      entries colleq (tables w) (u, m, n) + (if colleq user u \<and> colleq md5 m \<and> colleq filename n then 1 else 0)))
    (add_reference e user md5 filename tmp w)"
proof -
  have fo: "fields_ok user md5 filename" using f by (simp add: short_fields_def)
  let ?k = "wrap32 (atoi tmp + 1)"
  have len: "length (fmt ''update file_info set count = %d where md5 = `%s`'' [Num ?k, Str md5]) < SQL_MAX_LEN"
    using f show_wrap32_length [of "atoi tmp + 1"] by (simp add: fmt_def unquote_def SQL_MAX_LEN_def short_fields_def)
  have "stmt_ok (Update ''file_info'' ''count'' (show_int ?k) [(''md5'', md5)])"
    using fields_ok_simps [OF fo] wrap32_range [of "atoi tmp + 1"] by (simp add: stored_simps stored_int)
  note upd = runs_run_sql [OF sql_set_count(1) [OF fields_ok_simps(5) [OF fo]] this len]
  show ?thesis
    unfolding add_reference_def runs_simps
    by (rule upd) (use fields_ok_simps [OF fo] s in \<open>auto simp: runs_simps short_counts_def entries_def matches_def intro!: runs_insert_user_file [OF f] runs_count_total\<close>)
qed

end

context reliable
begin

lemma runs_read_count:
  assumes f: "short_fields user md5 filename" and c: "counted colleq (tables w) md5 n" and n: "0 \<le> n" "n < 2 ^ 31"
    and Q: "\<And>w'. tables w' = tables w \<Longrightarrow> Q (0, show_int n, w')"
  shows "runs Q (query_one e ''select count from file_info where md5 = `%s`'' [Str md5] (Some b) w)"
proof (rule runs_query_one [OF sql_count_of_file])
  have fo: "fields_ok user md5 filename" using f by (simp add: short_fields_def)
  then show "plain md5" "stmt_ok (Select ''count'' ''file_info'' [(''md5'', md5)])" by (simp_all add: stored_simps schema_def)
  show "length (fmt ''select count from file_info where md5 = `%s`'' [Str md5]) < SQL_MAX_LEN"
    using f by (simp add: fmt_def unquote_def SQL_MAX_LEN_def short_fields_def)
  show "length s < 512" if "filter (matches colleq [(''md5'', md5)]) (tables w ''file_info'') = r # rs" "r ''count'' = Some s" for r rs s
    using that c show_int_length [of n] n by (simp add: counted_def counts_def)
qed (use c Q in \<open>auto simp: counted_def counts_def unchanged_def split: list.splits\<close>)

lemma runs_md5_read:
  assumes f: "short_fields user md5 filename" and c: "counted colleq (tables w) md5 n" and n: "0 \<le> n" "n < 2 ^ 31"
    and Q: "\<And>w'. tables w' = tables w \<Longrightarrow> Q (Some (0, show_int n), w')"
  shows "runs Q (md5_read e conf md5 w)"
  unfolding md5_read_def runs_simps
  by (auto intro!: runs_connect_mysql runs_read_count [OF f _ n] Q simp: runs_simps unchanged_def c)

lemma runs_md5_write:
  assumes f: "short_fields user md5 filename" and s: "short_counts (tables w)"
    and c: "counted colleq (tables w) md5 j" and n: "0 \<le> n" "n < 2 ^ 31 - 1" and new: "entries colleq (tables w) (user, md5, filename) = 0"
  shows "runs (\<lambda>(r, w'). r = 0 \<and> short_counts (tables w') \<and> counted colleq (tables w') md5 (n + 1) \<and>
      refs colleq (tables w') md5 = refs colleq (tables w) md5 + 1 \<and>
      (\<forall>u. entries colleq (tables w') (u, md5, filename) = entries colleq (tables w) (u, md5, filename) + (if colleq user u then 1 else 0)))
    (md5_write e user md5 filename (Some (0, show_int n)) w)"
proof -
  have fo: "fields_ok user md5 filename" using f by (simp add: short_fields_def)
  have add: "runs (\<lambda>(r, w'). r = 0 \<and> short_counts (tables w') \<and> counted colleq (tables w') md5 (n + 1) \<and>
      refs colleq (tables w') md5 = refs colleq (tables w) md5 + 1 \<and>
      (\<forall>u. entries colleq (tables w') (u, md5, filename) = entries colleq (tables w) (u, md5, filename) + (if colleq user u then 1 else 0)))
    (add_reference e user md5 filename (show_int n) w1)" if "tables w1 = tables w" for w1
    by (rule runs_mono [OF runs_ok [OF runs_add_reference_total [OF f] effect_add_reference [OF fo _ n]]])
      (use that s c colleq_refl in auto)
  show ?thesis
    unfolding md5_write_def
    by (auto intro!: runs_owned [OF f] runs_mono [OF add] simp: runs_simps store_of_def new)
qed

end

subsection \<open>Properties\<close>

text \<open>C23: on a server that does not fail, two processes of the instant upload serve two users who do not have the file
  yet, and both processes read the reference count before either writes it. Both uploads succeed; the file then has two
  references more, but its count has grown by one only, so that an exact count is smaller than the number of references.\<close>

theorem lost_update:
  assumes "reliable eq e view" "short_fields user1 md5 filename" "short_fields user2 md5 filename" "\<not> eq user1 user2"
    and "short_counts (view (ext w))" "counted eq (view (ext w)) md5 (int (refs eq (view (ext w)) md5))"
    and "int (refs eq (view (ext w)) md5) < 2 ^ 31 - 1"
    and "entries eq (view (ext w)) (user1, md5, filename) = 0" "entries eq (view (ext w)) (user2, md5, filename) = 0"
  shows "\<exists>w'. md5_race e c user1 user2 md5 filename w = Some (0, 0, w') \<and>
    refs eq (view (ext w')) md5 = refs eq (view (ext w)) md5 + 2 \<and>
    counted eq (view (ext w')) md5 (int (refs eq (view (ext w)) md5) + 1) \<and> \<not> refcount_inv eq (view (ext w'))"
proof -
  let ?n = "int (refs eq (view (ext w)) md5)"
  have n: "0 \<le> ?n" "?n < 2 ^ 31" using assms(7) by simp_all
  have "runs (\<lambda>(r1, r2, w'). r1 = 0 \<and> r2 = 0 \<and> counted eq (view (ext w')) md5 (?n + 1) \<and>
      refs eq (view (ext w')) md5 = refs eq (view (ext w)) md5 + 2) (md5_race e c user1 user2 md5 filename w)"
    unfolding md5_race_def runs_simps
    by (auto intro!: reliable.runs_md5_read [OF assms(1,2) _ n] runs_mono [OF reliable.runs_md5_write [OF assms(1,2) _ _ n(1) assms(7)]]
        runs_mono [OF reliable.runs_md5_write [OF assms(1,3) _ _ n(1) assms(7)]]
        simp: runs_simps assms(4,5,8,9) intro: assms(6))
  then obtain w' where w': "md5_race e c user1 user2 md5 filename w = Some (0, 0, w')"
    "counted eq (view (ext w')) md5 (?n + 1)" "refs eq (view (ext w')) md5 = refs eq (view (ext w)) md5 + 2"
    by (auto simp: runs_iff)
  have "\<not> refcount_inv eq (view (ext w'))"
  proof
    assume "refcount_inv eq (view (ext w'))"
    then show False
      by (cases rule: inv_cases [where m = md5]) (use w'(2,3) show_int_inject in \<open>auto simp: counted_def\<close>)
  qed
  with w' show ?thesis by blast
qed

theorem lost_update_witness:
  "\<exists>w'. md5_race server server_conf ''bob'' ''carol'' ''abc'' ''a.txt'' two_users = Some (0, 0, w') \<and>
    \<not> refcount_inv same_text (fst (ext w'))"
proof -
  have refs: "refs same_text (fst (ext two_users)) ''abc'' = 1"
    by (simp add: refs_def two_users_tables matches_one entry_row_def same_text_def tolower_def code_def)
  have carol: "short_fields ''carol'' ''abc'' ''a.txt''" "\<not> same_text ''bob'' ''carol''"
    by (simp_all add: short_fields_def fields_ok_def plain_text_def plain_def code_def same_text_def tolower_def)
  have "counted same_text (fst (ext two_users)) ''abc'' 1"
    by (simp add: counted_def counts_def two_users_tables matches_one file_row_def same_text_def tolower_def code_def show_int_digit)
  moreover have "short_counts (fst (ext two_users))" by (simp add: short_counts_def two_users_tables total_row_def)
  moreover have "entries same_text (fst (ext two_users)) (user, ''abc'', ''a.txt'') = 0" if "user \<in> {''bob'', ''carol''}" for user
    using that by (auto simp: entries_def two_users_tables matches_def entry_row_def same_text_def tolower_def code_def)
  ultimately show ?thesis
    using lost_update [OF ref.reliable_axioms two_users_fields(1) carol, of two_users server_conf] refs by auto
qed

end
