(* ===== verification/Redis_Reply.thy ===== *)
theory Redis_Reply
  imports Hiredis
begin

text \<open>
  How the Redis server writes a reply (\<^verbatim>\<open>redis/src/networking.c\<close>): the functions \<open>addReply...\<close> append to
  the pending output of a client, printing numbers with \<open>ll2string\<close> of \<^verbatim>\<open>redis/src/util.c\<close>, which computes
  the number of digits first and then fills an array from its end, two digits at a time. The output is the
  text \<open>reply_bytes\<close> (\<open>reply_to_bytes\<close>), so \<open>ll2string\<close> never leaves its array and prints the decimal
  representation. The static buffer and the list of blocks that hold the output are one list of characters.
\<close>

subsection \<open>Printing an integer\<close>

fun digits10 :: "nat \<Rightarrow> nat" where
  "digits10 v =
    (if v < 10 then 1
     else if v < 100 then 2
     else if v < 1000 then 3
     else if v < 1000000000000 then
       (if v < 100000000 then
          (if v < 1000000 then
             (if v < 10000 then 4 else 5 + (if v \<ge> 100000 then 1 else 0))
           else 7 + (if v \<ge> 10000000 then 1 else 0))
        else if v < 10000000000 then 9 + (if v \<ge> 1000000000 then 1 else 0)
        else 11 + (if v \<ge> 100000000000 then 1 else 0))
     else 12 + digits10 (v div 1000000000000))"

declare digits10.simps [simp del]

definition digit_pairs :: string where
  "digit_pairs =
    ''0001020304050607080910111213141516171819'' @
    ''2021222324252627282930313233343536373839'' @
    ''4041424344454647484950515253545556575859'' @
    ''6061626364656667686970717273747576777879'' @
    ''8081828384858687888990919293949596979899''"

text \<open>Writing one element of an array.\<close>

definition poke :: "int \<Rightarrow> char \<Rightarrow> string \<Rightarrow> string option" where
  "poke i c dst = (if 0 \<le> i \<and> nat i < length dst then Some (dst[nat i := c]) else None)"

function ll_fill :: "nat \<Rightarrow> int \<Rightarrow> string \<Rightarrow> string option" where
  "ll_fill v i dst =
    (if v \<ge> 100 then do {
       dst \<leftarrow> poke i (digit_pairs ! (v mod 100 * 2 + 1)) dst;
       dst \<leftarrow> poke (i - 1) (digit_pairs ! (v mod 100 * 2)) dst;
       ll_fill (v div 100) (i - 2) dst
     }
     else if v < 10 then poke i (char_of (48 + v)) dst
     else do {
       dst \<leftarrow> poke i (digit_pairs ! (v * 2 + 1)) dst;
       poke (i - 1) (digit_pairs ! (v * 2)) dst
     })"
  by pat_completeness auto
termination
  by (relation "measure (\<lambda>(v, _). v)") auto

declare ll_fill.simps [simp del]

definition ll2string :: "string \<Rightarrow> int \<Rightarrow> (nat \<times> string) option" where
  "ll2string dst svalue =
    (let negative = svalue < 0;
         v = nat (if negative then - svalue else svalue);
         len = digits10 v + (if negative then 1 else 0) in
     if len \<ge> length dst then Some (0, dst)
     else do {
       dst \<leftarrow> poke (int len) NUL dst;
       dst \<leftarrow> ll_fill v (int len - 1) dst;
       dst \<leftarrow> (if negative then poke 0 (CHR ''-'') dst else Some dst);
       Some (len, dst)
     })"

subsection \<open>The pending output of a client\<close>

definition OBJ_SHARED_BULKHDR_LEN :: int where "OBJ_SHARED_BULKHDR_LEN = 32"

definition addReplyString :: "string \<Rightarrow> string \<Rightarrow> string" where
  "addReplyString c s = c @ s"

text \<open>The shared headers of small lengths.\<close>

definition shared_hdr :: "char \<Rightarrow> int \<Rightarrow> string" where
  "shared_hdr prefix j = sprintf (prefix # ''%d'' @ CRLF) [Num j]"

definition nullbulk :: string where "nullbulk = ''$-1'' @ CRLF"

definition addReplyLongLongWithPrefix :: "string \<Rightarrow> int \<Rightarrow> char \<Rightarrow> string option" where
  "addReplyLongLongWithPrefix c ll prefix =
    (if (prefix = CHR ''*'' \<or> prefix = CHR ''$'') \<and> ll < OBJ_SHARED_BULKHDR_LEN \<and> ll \<ge> 0 then
       Some (c @ shared_hdr prefix ll)
     else do {
       (len, buf) \<leftarrow> ll2string (replicate 127 NUL) ll;
       Some (addReplyString c (prefix # take len buf @ CRLF))
     })"

definition addReplyLongLong :: "string \<Rightarrow> int \<Rightarrow> string option" where
  "addReplyLongLong c ll =
    (if ll = 0 then Some (c @ '':0'' @ CRLF)
     else if ll = 1 then Some (c @ '':1'' @ CRLF)
     else addReplyLongLongWithPrefix c ll (CHR '':''))"

definition addReplyMultiBulkLen :: "string \<Rightarrow> int \<Rightarrow> string option" where
  "addReplyMultiBulkLen c len =
    (if len < OBJ_SHARED_BULKHDR_LEN then (if len < 0 then None else Some (c @ shared_hdr (CHR ''*'') len))
     else addReplyLongLongWithPrefix c len (CHR ''*''))"

definition addReplyBulkCBuffer :: "string \<Rightarrow> string \<Rightarrow> string option" where
  "addReplyBulkCBuffer c p = do {
     c \<leftarrow> addReplyLongLongWithPrefix c (int (length p)) (CHR ''$'');
     Some (addReplyString c p @ CRLF)
   }"

definition addReplyErrorLength :: "string \<Rightarrow> string \<Rightarrow> string" where
  "addReplyErrorLength c s = addReplyString (addReplyString (addReplyString c ''-ERR '') s) CRLF"

definition addReplyStatusLength :: "string \<Rightarrow> string \<Rightarrow> string" where
  "addReplyStatusLength c s = addReplyString (addReplyString (addReplyString c ''+'') s) CRLF"

text \<open>A command that answers with a reply: arrays announce their length and are followed by their elements.
  Errors other than those of \<open>addReplyErrorLength\<close> are shared objects with the same shape.\<close>

fun reply_to :: "string \<Rightarrow> redisReply \<Rightarrow> string option"
and replies_to :: "string \<Rightarrow> redisReply list \<Rightarrow> string option" where
  "reply_to c (R_STRING s) = addReplyBulkCBuffer c s"
| "reply_to c (R_ARRAY rs) = do { c \<leftarrow> addReplyMultiBulkLen c (int (length rs)); replies_to c rs }"
| "reply_to c (R_INTEGER i) = addReplyLongLong c i"
| "reply_to c R_NIL = Some (c @ nullbulk)"
| "reply_to c (R_STATUS s) = Some (addReplyStatusLength c s)"
| "reply_to c (R_ERROR s) =
    Some (if take 4 s = ''ERR '' then addReplyErrorLength c (drop 4 s) else addReplyString c (''-'' @ s @ CRLF))"
| "replies_to c [] = Some c"
| "replies_to c (r # rs) = do { c \<leftarrow> reply_to c r; replies_to c rs }"

subsection \<open>The number of digits\<close>

lemma show_nat_step: "length (show_nat n) = (if n < 10 then 1 else Suc (length (show_nat (n div 10))))"
  by (simp add: show_nat.simps [of n])

lemma show_nat_digits_less: "0 < k \<Longrightarrow> length (show_nat n) \<le> k \<longleftrightarrow> n < 10 ^ k"
proof (induction k arbitrary: n)
  case (Suc k)
  show ?case
  proof (cases "k = 0")
    case False
    have "n div 10 < 10 ^ k \<longleftrightarrow> n < 10 ^ Suc k" by (simp add: div_less_iff_less_mult mult.commute)
    moreover have "10 \<le> (10 :: nat) ^ Suc k" by simp
    ultimately show ?thesis using Suc.IH [of "n div 10"] False by (auto simp: show_nat_step [of n])
  qed (simp add: show_nat_step [of n])
qed simp

lemma show_nat_length_eq: "0 < k \<Longrightarrow> 10 ^ k \<le> n \<Longrightarrow> n < 10 ^ Suc k \<Longrightarrow> length (show_nat n) = Suc k"
  using show_nat_digits_less [of k n] show_nat_digits_less [of "Suc k" n] by force

lemma show_nat_length_div: "10 ^ k \<le> n \<Longrightarrow> length (show_nat n) = k + length (show_nat (n div 10 ^ k))"
proof (induction k arbitrary: n)
  case (Suc k)
  have "10 \<le> n" using Suc.prems by (simp add: order_trans [of 10 "10 * 10 ^ k"])
  moreover have "10 ^ k \<le> n div 10" using Suc.prems by (simp add: less_eq_div_iff_mult_less_eq mult.commute)
  ultimately show ?case using Suc.IH [of "n div 10"] by (simp add: show_nat_step [of n] div_mult2_eq)
qed simp

lemma digits10_show: "digits10 v = length (show_nat v)"
proof (induction v rule: digits10.induct)
  case (1 v)
  note e = show_nat_length_eq [of _ v]
  show ?case
  proof (cases "v < 1000000000000")
    case True
    then show ?thesis
      using e [of 1] e [of 2] e [of 3] e [of 4] e [of 5] e [of 6] e [of 7] e [of 8] e [of 9] e [of 10] e [of 11]
      by (subst digits10.simps) (simp add: show_nat_step [of v])
  next
    case False
    then show ?thesis
      using 1 show_nat_length_div [of 12 v] by (subst digits10.simps) simp
  qed
qed

subsection \<open>The array is filled exactly\<close>

lemma digit_pairs_table:
  "list_all (\<lambda>i. digit_pairs ! (i * 2) = char_of (48 + i div 10) \<and> digit_pairs ! (i * 2 + 1) = char_of (48 + i mod 10))
     [0..<100]"
  by code_simp

lemma digit_pairs: "i < 100 \<Longrightarrow> digit_pairs ! (i * 2) = char_of (48 + i div 10)"
  "i < 100 \<Longrightarrow> digit_pairs ! Suc (i * 2) = char_of (48 + i mod 10)"
  using digit_pairs_table by (simp_all add: list_all_iff)

lemma poke_one: "poke (int (length p)) c (p @ a # t) = Some (p @ c # t)"
  by (simp add: poke_def list_update_append)

lemma poke_second: "poke (int (length p) + 1) c (p @ a # b # t) = Some (p @ a # c # t)"
  using poke_one [of "p @ [a]" c b t] by (simp add: add.commute)

lemma show_nat_pair: "100 \<le> v \<Longrightarrow>
    show_nat v = show_nat (v div 100) @ [char_of (48 + v mod 100 div 10), char_of (48 + v mod 100 mod 10)]"
proof -
  assume v: "100 \<le> v"
  have "v div 10 mod 10 = v mod 100 div 10" "v mod 10 = v mod 100 mod 10"
    using mod_mult2_eq [of v 10 10] by (simp_all add: mod_mod_cancel)
  moreover have "\<not> v div 10 < 10" using v by simp
  moreover have "v div 10 div 10 = v div 100" by (simp add: div_mult2_eq [symmetric])
  ultimately show ?thesis using v by (simp add: show_nat.simps [of v] show_nat.simps [of "v div 10"])
qed

lemma show_nat_two: "10 \<le> v \<Longrightarrow> v < 100 \<Longrightarrow> show_nat v = [char_of (48 + v div 10), char_of (48 + v mod 10)]"
  by (simp add: show_nat.simps [of v] show_nat.simps [of "v div 10"])

lemma split_last_two: "length d = n + 2 \<Longrightarrow> \<exists>d' a b. d = d' @ [a, b] \<and> length d' = n"
proof -
  assume "length d = n + 2"
  then obtain a b where "drop n d = [a, b]" "length (take n d) = n"
    by (cases "drop n d"; cases "tl (drop n d)") (auto simp: drop_eq_Nil dest: arg_cong [where f = length])
  then show ?thesis by (metis append_take_drop_id)
qed

lemma ll_fill_show:
  "length d = length (show_nat v) \<Longrightarrow> ll_fill v (int (length (p @ d)) - 1) (p @ d @ t) = Some (p @ show_nat v @ t)"
proof (induction v arbitrary: d t rule: less_induct)
  case (less v)
  consider (many) "100 \<le> v" | (one) "v < 10" | (two) "10 \<le> v" "v < 100" by linarith
  then show ?case
  proof cases
    case many
    have "length d = length (show_nat (v div 100)) + 2" using less.prems show_nat_pair [OF many] by simp
    then obtain d' a b where d: "d = d' @ [a, b]" "length d' = length (show_nat (v div 100))"
      using split_last_two by blast
    define q where "q = p @ d'"
    have i: "int (length (p @ d)) - 1 = int (length q) + 1" "p @ d @ t = q @ a # b # t" by (simp_all add: d q_def)
    have "ll_fill (v div 100) (int (length q) - 1) (q @ u) = Some (p @ show_nat (v div 100) @ u)" for u
      using less.IH [of "v div 100" d' u] many d(2) by (simp add: q_def)
    then show ?thesis
      using many unfolding i
      by (subst ll_fill.simps) (simp add: digit_pairs poke_one poke_second show_nat_pair)
  next
    case one
    then obtain a where "d = [a]" using less.prems by (cases d) (simp_all add: show_nat.simps [of v])
    then show ?thesis using one poke_one [of p _ a t] by (simp add: ll_fill.simps show_nat.simps [of v])
  next
    case two
    then obtain a b where d: "d = [a, b]" using less.prems by (auto simp: show_nat_two length_Suc_conv)
    have i: "int (length (p @ d)) - 1 = int (length p) + 1" by (simp add: d)
    show ?thesis
      using two unfolding i
      by (subst ll_fill.simps) (simp add: d digit_pairs poke_one poke_second show_nat_two)
  qed
qed

lemma ll2string_show:
  assumes "length (show_int i) < length dst"
  shows "\<exists>dst'. ll2string dst i = Some (length (show_int i), dst') \<and> take (length (show_int i)) dst' = show_int i"
proof -
  define v where "v = nat (if i < 0 then - i else i)"
  define sgn where "sgn = (if i < 0 then ''-'' else [])"
  have s: "show_int i = sgn @ show_nat v" by (simp add: show_int_def v_def sgn_def)
  define n where "n = length (show_int i)"
  have n: "n = digits10 v + (if i < 0 then 1 else 0)" by (simp add: n_def s digits10_show sgn_def)
  define p where "p = take (length sgn) dst"
  define d where "d = take (length (show_nat v)) (drop (length sgn) dst)"
  define t where "t = NUL # drop (Suc n) dst"
  have "dst[n := NUL] = p @ d @ t"
    using assms by (simp add: upd_conv_take_nth_drop p_def d_def t_def n_def s flip: take_add)
  then have "poke (int n) NUL dst = Some (p @ d @ t)" using assms by (simp add: poke_def n_def)
  moreover have lens: "length d = length (show_nat v)" "length p = length sgn" using assms by (simp_all add: d_def p_def s)
  moreover have "ll_fill v (int n - 1) (p @ d @ t) = Some (p @ show_nat v @ t)"
    using ll_fill_show [OF lens(1), of p t] lens by (simp add: n_def s)
  moreover have "(if i < 0 then poke 0 (CHR ''-'') (p @ show_nat v @ t) else Some (p @ show_nat v @ t)) =
      Some (sgn @ show_nat v @ t)"
    using lens(2) by (auto simp: sgn_def poke_def length_Suc_conv)
  ultimately have "ll2string dst i = Some (n, sgn @ show_nat v @ t)"
    using assms unfolding ll2string_def Let_def v_def [symmetric] n [symmetric] by (simp add: n_def)
  then show ?thesis by (simp add: n_def s)
qed


subsection \<open>What is written\<close>

fun reply_bytes :: "redisReply \<Rightarrow> string" where
  "reply_bytes (R_STRING s) = bulk s"
| "reply_bytes (R_ARRAY rs) = ''*'' @ show_nat (length rs) @ CRLF @ concat (map reply_bytes rs)"
| "reply_bytes (R_INTEGER i) = '':'' @ show_int i @ CRLF"
| "reply_bytes R_NIL = ''$-1'' @ CRLF"
| "reply_bytes (R_STATUS s) = ''+'' @ s @ CRLF"
| "reply_bytes (R_ERROR s) = ''-'' @ s @ CRLF"

text \<open>The replies of the protocol: integers of 64 bits, arrays of at most \<open>2 ^ 63 - 1\<close> elements.\<close>

fun sendable_reply :: "redisReply \<Rightarrow> bool" where
  "sendable_reply (R_STRING s) \<longleftrightarrow> length s < 2 ^ 63"
| "sendable_reply (R_ARRAY rs) \<longleftrightarrow> length rs < 2 ^ 63 \<and> list_all sendable_reply rs"
| "sendable_reply (R_INTEGER i) \<longleftrightarrow> - (2 ^ 63) \<le> i \<and> i < 2 ^ 63"
| "sendable_reply _ \<longleftrightarrow> True"

lemma show_int_short: "- (2 ^ 63) \<le> i \<Longrightarrow> i < 2 ^ 63 \<Longrightarrow> length (show_int i) < 127"
proof -
  assume "- (2 ^ 63) \<le> i" "i < 2 ^ 63"
  then have "(if i < 0 then - i else i) < 10 ^ Suc 19" by (simp split: if_split)
  then have "nat (if i < 0 then - i else i) < 10 ^ Suc 19" by (subst nat_less_iff) simp_all
  from show_nat_length [OF this] show ?thesis by (auto simp: show_int_def split: if_splits)
qed

lemma shared_hdr_eq: "prefix \<noteq> CHR ''%'' \<Longrightarrow> shared_hdr prefix j = prefix # show_int j @ CRLF"
  by (simp add: shared_hdr_def CRLF_def)

lemma addReplyLongLongWithPrefix_eq:
  assumes "- (2 ^ 63) \<le> ll" "ll < 2 ^ 63"
  shows "addReplyLongLongWithPrefix c ll prefix = Some (c @ prefix # show_int ll @ CRLF)"
  using ll2string_show [of ll "replicate 127 NUL"] show_int_short [OF assms]
  by (auto simp: addReplyLongLongWithPrefix_def addReplyString_def shared_hdr_eq)

lemma show_nat_Suc_0 [simp]: "show_nat (Suc 0) = ''1''"
  by code_simp

lemma addReply_numbers:
  "- (2 ^ 63) \<le> ll \<Longrightarrow> ll < 2 ^ 63 \<Longrightarrow> addReplyLongLong c ll = Some (c @ '':'' @ show_int ll @ CRLF)"
  "n < 2 ^ 63 \<Longrightarrow> addReplyMultiBulkLen c (int n) = Some (c @ ''*'' @ show_nat n @ CRLF)"
  "length s < 2 ^ 63 \<Longrightarrow> addReplyBulkCBuffer c s = Some (c @ bulk s)"
  by (auto simp: addReplyLongLong_def addReplyMultiBulkLen_def addReplyBulkCBuffer_def addReplyString_def
      addReplyLongLongWithPrefix_eq shared_hdr_eq bulk_def show_int_def)

lemma take_4_ERR: "take 4 s = ''ERR '' \<Longrightarrow> ''-ERR '' @ drop 4 s = ''-'' @ s"
  by (metis append_Cons append_Nil append_take_drop_id)

lemma reply_to_bytes:
  "sendable_reply r \<Longrightarrow> reply_to c r = Some (c @ reply_bytes r)"
  "list_all sendable_reply rs \<Longrightarrow> replies_to c rs = Some (c @ concat (map reply_bytes rs))"
proof (induction c r and c rs rule: reply_to_replies_to.induct)
  case (6 c s)
  then show ?case
    using take_4_ERR [of s] by (auto simp: addReplyErrorLength_def addReplyString_def)
qed (auto simp: addReply_numbers addReplyStatusLength_def addReplyString_def nullbulk_def)

end
