(* ===== verification/Reader.thy ===== *)
theory Reader
  imports Redis_Reply
begin

text \<open>
  The incremental reader of replies in the client library (\<^verbatim>\<open>hiredis-master/read.c\<close>) with the functions that
  build reply objects (\<^verbatim>\<open>hiredis-master/hiredis.c\<close>). Bytes are fed in pieces of any size; a stack of at most
  nine tasks keeps track of nested arrays, and an object is linked into its array as soon as it is created,
  so that the objects live in an explicit store (\<open>r_heap\<close>) of which the tasks hold addresses.

  \<open>r_stack\<close> is the live part \<open>rstack[ridx] ... rstack[0]\<close> of the task array, the current task first;
  it is empty when \<open>ridx\<close> is -1. \<open>None\<close> is undefined behaviour or a failed assertion. The parameter
  \<open>fails\<close> tells for which object memory cannot be allocated. Freed objects stay in the store.
\<close>

datatype reply_type = T_STRING | T_ARRAY | T_INTEGER | T_NIL | T_STATUS | T_ERROR

record redisReadTask =
  t_type :: "reply_type option"
  t_elements :: int
  t_idx :: int
  t_obj :: "nat option"

record reply_object =
  o_type :: reply_type
  o_integer :: int
  o_str :: "string option"
  o_elements :: nat
  o_element :: "nat option list"

record redisReader =
  r_err :: int
  r_errstr :: string
  r_buf :: string
  r_pos :: nat
  r_stack :: "redisReadTask list"
  r_reply :: "nat option"
  r_heap :: "nat \<Rightarrow> reply_object option"
  r_fresh :: nat

definition REDIS_ERR_PROTOCOL :: int where "REDIS_ERR_PROTOCOL = 4"
definition REDIS_ERR_OOM :: int where "REDIS_ERR_OOM = 5"

definition redisReaderCreate :: redisReader where
  "redisReaderCreate = \<lparr>r_err = 0, r_errstr = [], r_buf = [], r_pos = 0, r_stack = [], r_reply = None,
     r_heap = (\<lambda>_. None), r_fresh = 0\<rparr>"

subsection \<open>Errors\<close>

definition redisReaderSetError :: "int \<Rightarrow> string \<Rightarrow> redisReader \<Rightarrow> redisReader" where
  "redisReaderSetError ty str r =
    r\<lparr>r_reply := None, r_buf := [], r_pos := 0, r_stack := [], r_err := ty, r_errstr := take 127 str\<rparr>"

definition chrtos :: "char \<Rightarrow> string" where
  "chrtos byte =
    [CHR 0x22] @
    (if byte = CHR 0x5C \<or> byte = CHR 0x22 then [CHR 0x5C, byte]
     else if byte = CHR 0x0A then [CHR 0x5C, CHR ''n'']
     else if byte = CHR 0x0D then [CHR 0x5C, CHR ''r'']
     else if byte = CHR 0x09 then [CHR 0x5C, CHR ''t'']
     else if byte = CHR 0x07 then [CHR 0x5C, CHR ''a'']
     else if byte = CHR 0x08 then [CHR 0x5C, CHR ''b'']
     else if 32 \<le> code byte \<and> code byte < 127 then [byte]
     else CHR 0x5C # CHR ''x'' # show_hex2 (code byte))
    @ [CHR 0x22]"

definition redisReaderSetErrorProtocolByte :: "char \<Rightarrow> redisReader \<Rightarrow> redisReader" where
  "redisReaderSetErrorProtocolByte byte r =
    redisReaderSetError REDIS_ERR_PROTOCOL
      (take 127 (sprintf ''Protocol error, got %s as reply type byte'' [Str (take 7 (chrtos byte))])) r"

definition redisReaderSetErrorOOM :: "redisReader \<Rightarrow> redisReader" where
  "redisReaderSetErrorOOM r = redisReaderSetError REDIS_ERR_OOM ''Out of memory'' r"

subsection \<open>The buffer\<close>

text \<open>What is not read yet, \<open>buf + pos\<close> up to \<open>buf + len\<close>.\<close>

definition unread :: "redisReader \<Rightarrow> string" where
  "unread r = drop (r_pos r) (r_buf r)"

definition advance :: "nat \<Rightarrow> redisReader \<Rightarrow> redisReader" where
  "advance n r = r\<lparr>r_pos := r_pos r + n\<rparr>"

definition readBytes :: "nat \<Rightarrow> redisReader \<Rightarrow> (string \<times> redisReader) option" where
  "readBytes bytes r = (if length (unread r) \<ge> bytes then Some (unread r, advance bytes r) else None)"

fun seek_crlf :: "string \<Rightarrow> nat option" where
  "seek_crlf (a # b # s) =
    (if a = CHR 0x0D \<and> b = CHR 0x0A then Some 0 else map_option Suc (seek_crlf (b # s)))"
| "seek_crlf _ = None"

text \<open>The length is converted to \<open>int\<close>.\<close>

definition seekNewline :: "string \<Rightarrow> nat option" where
  "seekNewline s = seek_crlf (take (nat (wrap32 (int (length s) - 1) + 1)) s)"

fun read_digits :: "int \<Rightarrow> int \<Rightarrow> string \<Rightarrow> int option" where
  "read_digits mult v [] = None"
| "read_digits mult v (c # s) =
    (if c = CHR 0x0D then Some (mult * v)
     else if isdigit c then
       (if v * 10 + int (digit_value c) \<ge> 2 ^ 63 then None
        else read_digits mult (v * 10 + int (digit_value c)) s)
     else Some (- 1))"

definition readLongLong :: "string \<Rightarrow> int option" where
  "readLongLong s =
    (if deref s = CHR ''-'' then read_digits (- 1) 0 (tl s)
     else if deref s = CHR ''+'' then read_digits 1 0 (tl s)
     else read_digits 1 0 s)"

text \<open>A line: its text with what follows, its length, and the reader after it.\<close>

definition readLine :: "redisReader \<Rightarrow> (string \<times> nat \<times> redisReader) option" where
  "readLine r =
    (case seekNewline (unread r) of
       None \<Rightarrow> None
     | Some len \<Rightarrow> Some (unread r, len, advance (len + 2) r))"

subsection \<open>Objects\<close>

text \<open>A new object: it is entered into the array of the parent task, if there is one. The inner option is the
  null pointer.\<close>

definition create :: "(nat \<Rightarrow> bool) \<Rightarrow> reply_object \<Rightarrow> redisReader \<Rightarrow> (nat option \<times> redisReader) option" where
  "create fails ob r =
    (let a = r_fresh r; r' = r\<lparr>r_heap := (r_heap r)(a \<mapsto> ob), r_fresh := Suc a\<rparr> in
     if fails a then Some (None, r)
     else case r_stack r of
       cur # par # _ \<Rightarrow> do {
         p \<leftarrow> t_obj par;
         parent \<leftarrow> r_heap r p;
         if o_type parent = T_ARRAY \<and> 0 \<le> t_idx cur \<and> nat (t_idx cur) < length (o_element parent) then
           Some (Some a, r'\<lparr>r_heap := (r_heap r')(p \<mapsto>
             parent\<lparr>o_element := (o_element parent)[nat (t_idx cur) := Some a]\<rparr>)\<rparr>)
         else None
       }
     | _ \<Rightarrow> Some (Some a, r'))"

definition createReplyObject :: "reply_type \<Rightarrow> reply_object" where
  "createReplyObject ty = \<lparr>o_type = ty, o_integer = 0, o_str = None, o_elements = 0, o_element = []\<rparr>"

definition createStringObject ::
    "(nat \<Rightarrow> bool) \<Rightarrow> reply_type option \<Rightarrow> string \<Rightarrow> redisReader \<Rightarrow> (nat option \<times> redisReader) option" where
  "createStringObject fails ty str r =
    (case ty of
       Some t \<Rightarrow>
         if t \<in> {T_ERROR, T_STATUS, T_STRING} then create fails ((createReplyObject t)\<lparr>o_str := Some str\<rparr>) r
         else None
     | None \<Rightarrow> None)"

text \<open>The number of elements is an \<open>int\<close> parameter that is stored as \<open>size_t\<close>.\<close>

definition createArrayObject ::
    "(nat \<Rightarrow> bool) \<Rightarrow> int \<Rightarrow> redisReader \<Rightarrow> (nat option \<times> redisReader) option" where
  "createArrayObject fails elements r =
    create fails ((createReplyObject T_ARRAY)\<lparr>o_elements := nat (elements mod 2 ^ 64),
      o_element := replicate (nat elements) None\<rparr>) r"

definition createIntegerObject ::
    "(nat \<Rightarrow> bool) \<Rightarrow> int \<Rightarrow> redisReader \<Rightarrow> (nat option \<times> redisReader) option" where
  "createIntegerObject fails v r = create fails ((createReplyObject T_INTEGER)\<lparr>o_integer := v\<rparr>) r"

definition createNilObject :: "(nat \<Rightarrow> bool) \<Rightarrow> redisReader \<Rightarrow> (nat option \<times> redisReader) option" where
  "createNilObject fails r = create fails (createReplyObject T_NIL) r"

subsection \<open>Tasks\<close>

fun moveToNextTask :: "redisReadTask list \<Rightarrow> redisReadTask list option" where
  "moveToNextTask [] = Some []"
| "moveToNextTask [cur] = Some []"
| "moveToNextTask (cur # prv # st) =
    (if t_type prv \<noteq> Some T_ARRAY then None
     else if t_idx cur = t_elements prv - 1 then moveToNextTask (prv # st)
     else if t_idx cur < t_elements prv then
       Some (cur\<lparr>t_type := None, t_elements := - 1, t_idx := t_idx cur + 1\<rparr> # prv # st)
     else None)"

text \<open>After an object was made: the root becomes the reply, and the reader turns to the next task. The
  boolean of a result is \<open>REDIS_OK\<close>.\<close>

definition finish_item ::
    "(nat option \<times> redisReader) option \<Rightarrow> (bool \<times> redisReader) option" where
  "finish_item m = do {
     (obj, r) \<leftarrow> m;
     (case obj of
        None \<Rightarrow> Some (False, redisReaderSetErrorOOM r)
      | Some a \<Rightarrow> do {
          st \<leftarrow> moveToNextTask (r_stack r);
          Some (True, (if length (r_stack r) = 1 then r\<lparr>r_reply := Some a\<rparr> else r)\<lparr>r_stack := st\<rparr>)
        })
   }"

definition processLineItem :: "(nat \<Rightarrow> bool) \<Rightarrow> reply_type \<Rightarrow> redisReader \<Rightarrow> (bool \<times> redisReader) option" where
  "processLineItem fails ty r =
    (case readLine r of
       None \<Rightarrow> Some (False, r)
     | Some (p, len, r) \<Rightarrow>
         if ty = T_INTEGER then readLongLong p \<bind> (\<lambda>v. finish_item (createIntegerObject fails v r))
         else finish_item (createStringObject fails (Some ty) (take len p) r))"

definition processBulkItem :: "(nat \<Rightarrow> bool) \<Rightarrow> redisReader \<Rightarrow> (bool \<times> redisReader) option" where
  "processBulkItem fails r =
    (case seekNewline (unread r) of
       None \<Rightarrow> Some (False, r)
     | Some s \<Rightarrow> do {
         len \<leftarrow> readLongLong (unread r);
         if len < 0 then finish_item (map_option (map_prod id (advance (s + 2))) (createNilObject fails r))
         else if len + 2 \<ge> 2 ^ 63 then None
         else if s + 2 + (nat len + 2) \<le> length (unread r) then
           finish_item (map_option (map_prod id (advance (s + 2 + (nat len + 2))))
             (createStringObject fails (Some T_STRING) (take (nat len) (drop (s + 2) (unread r))) r))
         else Some (False, r)
       })"

text \<open>After an array was made that has elements: a task for the first of them.\<close>

definition enter_array ::
    "int \<Rightarrow> (nat option \<times> redisReader) option \<Rightarrow> (bool \<times> redisReader) option" where
  "enter_array elements m = do {
     (obj, r) \<leftarrow> m;
     (case obj of
        None \<Rightarrow> Some (False, redisReaderSetErrorOOM r)
      | Some a \<Rightarrow>
          (case r_stack r of
             cur # st \<Rightarrow>
               Some (True, (if st = [] then r\<lparr>r_reply := Some a\<rparr> else r)\<lparr>r_stack :=
                 \<lparr>t_type = None, t_elements = - 1, t_idx = 0, t_obj = None\<rparr> #
                 cur\<lparr>t_elements := elements, t_obj := Some a\<rparr> # st\<rparr>)
           | [] \<Rightarrow> None))
   }"

definition processMultiBulkItem :: "(nat \<Rightarrow> bool) \<Rightarrow> redisReader \<Rightarrow> (bool \<times> redisReader) option" where
  "processMultiBulkItem fails r =
    (if length (r_stack r) = 9 then
       Some (False, redisReaderSetError REDIS_ERR_PROTOCOL
         ''No support for nested multi bulk replies with depth > 7'' r)
     else case readLine r of
       None \<Rightarrow> Some (False, r)
     | Some (p, _, r) \<Rightarrow> do {
         elements \<leftarrow> readLongLong p;
         if elements = - 1 then finish_item (createNilObject fails r)
         else if elements > 0 then enter_array (wrap32 elements) (createArrayObject fails (wrap32 elements) r)
         else finish_item (createArrayObject fails (wrap32 elements) r)
       })"

subsection \<open>One item, and all items of a reply\<close>

fun type_byte :: "char \<Rightarrow> reply_type option" where
  "type_byte c =
    (if c = CHR ''-'' then Some T_ERROR
     else if c = CHR ''+'' then Some T_STATUS
     else if c = CHR '':'' then Some T_INTEGER
     else if c = CHR ''$'' then Some T_STRING
     else if c = CHR ''*'' then Some T_ARRAY
     else None)"

definition process_typed :: "(nat \<Rightarrow> bool) \<Rightarrow> reply_type \<Rightarrow> redisReader \<Rightarrow> (bool \<times> redisReader) option" where
  "process_typed fails ty r =
    (case ty of
       T_ERROR \<Rightarrow> processLineItem fails ty r
     | T_STATUS \<Rightarrow> processLineItem fails ty r
     | T_INTEGER \<Rightarrow> processLineItem fails ty r
     | T_STRING \<Rightarrow> processBulkItem fails r
     | T_ARRAY \<Rightarrow> processMultiBulkItem fails r
     | T_NIL \<Rightarrow> None)"

definition processItem :: "(nat \<Rightarrow> bool) \<Rightarrow> redisReader \<Rightarrow> (bool \<times> redisReader) option" where
  "processItem fails r =
    (case r_stack r of
       [] \<Rightarrow> None
     | cur # st \<Rightarrow>
         (case t_type cur of
            Some ty \<Rightarrow> process_typed fails ty r
          | None \<Rightarrow>
              (case readBytes 1 r of
                 None \<Rightarrow> Some (False, r)
               | Some (p, r) \<Rightarrow>
                   (case type_byte (deref p) of
                      None \<Rightarrow> Some (False, redisReaderSetErrorProtocolByte (deref p) r)
                    | Some ty \<Rightarrow> process_typed fails ty (r\<lparr>r_stack := cur\<lparr>t_type := Some ty\<rparr> # st\<rparr>)))))"

text \<open>Every item that is processed consumes at least one byte.\<close>

lemma seek_crlf_bound: "seek_crlf s = Some n \<Longrightarrow> n + 2 \<le> length s"
  by (induction s arbitrary: n rule: seek_crlf.induct) (auto split: if_splits)

lemma seekNewline_bound: "seekNewline s = Some n \<Longrightarrow> n + 2 \<le> length s"
  unfolding seekNewline_def by (drule seek_crlf_bound) simp

lemma create_frame: "create fails ob r = Some (a, r') \<Longrightarrow>
    r_buf r' = r_buf r \<and> r_pos r' = r_pos r \<and> r_stack r' = r_stack r \<and> r_err r' = r_err r \<and> r_reply r' = r_reply r"
  by (auto simp: create_def Let_def bind_eq_Some_conv split: if_splits list.splits)

lemmas create_defs =
  createStringObject_def createArrayObject_def createIntegerObject_def createNilObject_def

lemma createStringObject_Some:
  "createStringObject fails ty str r = Some x \<Longrightarrow> \<exists>ob. create fails ob r = Some x"
  by (auto simp: createStringObject_def split: option.splits if_splits)

lemma finish_item_frame: "finish_item m = Some (True, r') \<Longrightarrow>
    \<exists>a r. m = Some (Some a, r) \<and> r_buf r' = r_buf r \<and> r_pos r' = r_pos r \<and> r_err r' = r_err r"
  by (auto simp: finish_item_def bind_eq_Some_conv split: prod.splits option.splits)

lemma enter_array_frame: "enter_array n m = Some (True, r') \<Longrightarrow>
    \<exists>a r. m = Some (Some a, r) \<and> r_buf r' = r_buf r \<and> r_pos r' = r_pos r \<and> r_err r' = r_err r"
  by (cases m) (auto simp: enter_array_def split: option.splits list.splits if_splits)

lemma readLine_frame: "readLine r = Some (p, n, r') \<Longrightarrow> r' = advance (n + 2) r \<and> n + 2 \<le> length (unread r) \<and> p = unread r"
  by (auto simp: readLine_def split: option.splits dest: seekNewline_bound)

lemma advance_sel [simp]:
  "r_buf (advance n r) = r_buf r" "r_pos (advance n r) = r_pos r + n" "r_stack (advance n r) = r_stack r"
  "r_err (advance n r) = r_err r" "r_reply (advance n r) = r_reply r" "r_heap (advance n r) = r_heap r"
  "r_fresh (advance n r) = r_fresh r"
  by (simp_all add: advance_def)

definition progress :: "redisReader \<Rightarrow> redisReader \<Rightarrow> bool" where
  "progress r r' \<longleftrightarrow> r_buf r' = r_buf r \<and> r_pos r < r_pos r' \<and> r_pos r' \<le> length (r_buf r) \<and> r_err r' = r_err r"

lemma processLineItem_progress: "processLineItem fails ty r = Some (True, r') \<Longrightarrow> progress r r'"
  by (auto simp: processLineItem_def progress_def unread_def create_defs bind_eq_Some_conv
    split: option.splits if_splits dest!: readLine_frame finish_item_frame create_frame)

lemma processBulkItem_progress: "processBulkItem fails r = Some (True, r') \<Longrightarrow> progress r r'"
  by (auto simp: processBulkItem_def progress_def unread_def create_defs bind_eq_Some_conv
    split: option.splits if_splits dest!: seekNewline_bound finish_item_frame create_frame)

lemma processMultiBulkItem_progress: "processMultiBulkItem fails r = Some (True, r') \<Longrightarrow> progress r r'"
  by (auto simp: processMultiBulkItem_def progress_def unread_def create_defs bind_eq_Some_conv
    split: option.splits if_splits dest!: readLine_frame finish_item_frame enter_array_frame create_frame)

lemma process_typed_progress: "process_typed fails ty r = Some (True, r') \<Longrightarrow> progress r r'"
  by (auto simp: process_typed_def split: reply_type.splits
    dest: processLineItem_progress processBulkItem_progress processMultiBulkItem_progress)

lemma processItem_progress: "processItem fails r = Some (True, r') \<Longrightarrow> progress r r'"
  by (auto simp: processItem_def readBytes_def progress_def split: list.splits option.splits if_splits
    simp del: type_byte.simps dest!: process_typed_progress)

function process_items :: "(nat \<Rightarrow> bool) \<Rightarrow> redisReader \<Rightarrow> redisReader option" where
  "process_items fails r =
    (if r_stack r = [] then Some r
     else case processItem fails r of
       None \<Rightarrow> None
     | Some (good, r') \<Rightarrow> if good then process_items fails r' else Some r')"
  by pat_completeness auto
termination
  by (relation "measure (\<lambda>(_, r). length (r_buf r) - r_pos r)")
    (auto dest!: processItem_progress simp: progress_def)

declare process_items.simps [simp del]

subsection \<open>Feeding and reading\<close>

definition redisReaderFeed :: "string \<Rightarrow> redisReader \<Rightarrow> bool \<times> redisReader" where
  "redisReaderFeed buf r = (if r_err r \<noteq> 0 then (False, r) else (True, r\<lparr>r_buf := r_buf r @ buf\<rparr>))"

definition redisReaderGetReply ::
    "(nat \<Rightarrow> bool) \<Rightarrow> redisReader \<Rightarrow> (bool \<times> nat option \<times> redisReader) option" where
  "redisReaderGetReply fails r =
    (if r_err r \<noteq> 0 then Some (False, None, r)
     else if r_buf r = [] then Some (True, None, r)
     else do {
       let r = (if r_stack r = [] then
          r\<lparr>r_stack := [\<lparr>t_type = None, t_elements = - 1, t_idx = - 1, t_obj = None\<rparr>]\<rparr> else r);
       r \<leftarrow> process_items fails r;
       if r_err r \<noteq> 0 then Some (False, None, r)
       else do {
         let r = (if r_pos r \<ge> 1024 then r\<lparr>r_buf := drop (r_pos r) (r_buf r), r_pos := 0\<rparr> else r);
         if r_stack r = [] then Some (True, r_reply r, r\<lparr>r_reply := None\<rparr>)
         else Some (True, None, r)
       }
     })"

end
