(* ===== verification/Reader_Laws.thy ===== *)
theory Reader_Laws
  imports Reader
begin

text \<open>
  The reader does not depend on how its input is cut into pieces. What it computes depends only on the unread
  bytes (\<open>process_items_shift\<close>), and processing what has arrived, then appending more and going on, is the
  same as processing everything at once (\<open>process_items_fed\<close>).
\<close>

abbreviation no_fails :: "nat \<Rightarrow> bool" where
  "no_fails \<equiv> \<lambda>_. False"

subsection \<open>Forgetting bytes that are read\<close>

definition shift :: "nat \<Rightarrow> redisReader \<Rightarrow> redisReader" where
  "shift k r = r\<lparr>r_buf := drop k (r_buf r), r_pos := r_pos r - k\<rparr>"

lemma shift_sel [simp]:
  "r_buf (shift k r) = drop k (r_buf r)" "r_pos (shift k r) = r_pos r - k" "r_stack (shift k r) = r_stack r"
  "r_err (shift k r) = r_err r" "r_reply (shift k r) = r_reply r" "r_heap (shift k r) = r_heap r"
  "r_fresh (shift k r) = r_fresh r"
  by (simp_all add: shift_def)

lemma shift_updates [simp]:
  "k \<le> r_pos r \<Longrightarrow> advance n (shift k r) = shift k (advance n r)"
  "(shift k r)\<lparr>r_stack := st\<rparr> = shift k (r\<lparr>r_stack := st\<rparr>)"
  "(shift k r)\<lparr>r_reply := a\<rparr> = shift k (r\<lparr>r_reply := a\<rparr>)"
  "(shift k r)\<lparr>r_heap := h\<rparr> = shift k (r\<lparr>r_heap := h\<rparr>)"
  "(shift k r)\<lparr>r_fresh := f\<rparr> = shift k (r\<lparr>r_fresh := f\<rparr>)"
  "redisReaderSetError ty str (shift k r) = shift k (redisReaderSetError ty str r)"
  by (simp_all add: shift_def advance_def redisReaderSetError_def)

lemma unread_shift [simp]: "k \<le> r_pos r \<Longrightarrow> unread (shift k r) = unread r"
  by (simp add: unread_def)

lemma create_shift: "create fails ob (shift k r) = map_option (map_prod id (shift k)) (create fails ob r)"
  by (auto simp: create_def Let_def split: list.split bind_split)

lemma create_objects_shift:
  "createStringObject fails ty str (shift k r) = map_option (map_prod id (shift k)) (createStringObject fails ty str r)"
  "createArrayObject fails n (shift k r) = map_option (map_prod id (shift k)) (createArrayObject fails n r)"
  "createIntegerObject fails v (shift k r) = map_option (map_prod id (shift k)) (createIntegerObject fails v r)"
  "createNilObject fails (shift k r) = map_option (map_prod id (shift k)) (createNilObject fails r)"
  by (simp_all add: create_defs create_shift split: option.split)

lemma finish_shift:
  "finish_item (map_option (map_prod id (shift k)) m) = map_option (map_prod id (shift k)) (finish_item m)"
  "enter_array n (map_option (map_prod id (shift k)) m) = map_option (map_prod id (shift k)) (enter_array n m)"
  by (cases m; auto simp: finish_item_def enter_array_def redisReaderSetErrorOOM_def split: option.split list.split bind_split)+

lemma readLine_shift: "k \<le> r_pos r \<Longrightarrow>
    readLine (shift k r) = map_option (\<lambda>(p, n, r). (p, n, shift k r)) (readLine r)"
  by (simp add: readLine_def split: option.split)

lemma advance_created: "create fails ob r = Some (a, r') \<Longrightarrow> r_pos r' = r_pos r"
  by (drule create_frame) simp

lemma process_typed_shift:
  assumes k: "k \<le> r_pos r"
  shows "process_typed fails ty (shift k r) = map_option (map_prod id (shift k)) (process_typed fails ty r)"
proof -
  have "map_option (map_prod id (advance n)) (map_option (map_prod id (shift k)) (create fails ob r)) =
      map_option (map_prod id (shift k)) (map_option (map_prod id (advance n)) (create fails ob r))" for n ob
    using k by (cases "create fails ob r") (auto dest: advance_created)
  note adv = this [of _ "createReplyObject T_NIL"] this [of _ "(createReplyObject T_STRING)\<lparr>o_str := Some _\<rparr>"]
  have line: "processLineItem fails ty (shift k r) = map_option (map_prod id (shift k)) (processLineItem fails ty r)"
    using k by (auto simp: processLineItem_def readLine_shift create_objects_shift finish_shift
      split: option.split prod.split bind_split)
  have bulk: "processBulkItem fails (shift k r) = map_option (map_prod id (shift k)) (processBulkItem fails r)"
    using k by (auto simp: processBulkItem_def create_defs create_shift finish_shift adv
      split: option.split prod.split bind_split)
  have multi: "processMultiBulkItem fails (shift k r) = map_option (map_prod id (shift k)) (processMultiBulkItem fails r)"
    using k by (auto simp: processMultiBulkItem_def readLine_shift create_objects_shift finish_shift
      split: option.split prod.split bind_split)
  show ?thesis using line bulk multi by (auto simp: process_typed_def split: reply_type.split)
qed

lemma processItem_shift:
  "k \<le> r_pos r \<Longrightarrow> processItem fails (shift k r) = map_option (map_prod id (shift k)) (processItem fails r)"
  by (auto simp: processItem_def readBytes_def process_typed_shift redisReaderSetErrorProtocolByte_def
    simp del: type_byte.simps split: list.split option.split)

lemma process_items_shift:
  "k \<le> r_pos r \<Longrightarrow> process_items fails (shift k r) = map_option (shift k) (process_items fails r)"
proof (induction fails r rule: process_items.induct)
  case (1 fails r)
  have "k \<le> r_pos r'" if "processItem fails r = Some (True, r')" for r'
    using that 1(2) by (auto dest!: processItem_progress simp: progress_def)
  with 1 show ?case
    by (subst (1 2) process_items.simps) (auto simp: processItem_shift split: option.split)
qed

subsection \<open>More bytes arrive\<close>

definition fed :: "string \<Rightarrow> redisReader \<Rightarrow> redisReader" where
  "fed b r = r\<lparr>r_buf := r_buf r @ b\<rparr>"

lemma fed_sel [simp]:
  "r_buf (fed b r) = r_buf r @ b" "r_pos (fed b r) = r_pos r" "r_stack (fed b r) = r_stack r"
  "r_err (fed b r) = r_err r" "r_reply (fed b r) = r_reply r" "r_heap (fed b r) = r_heap r"
  "r_fresh (fed b r) = r_fresh r"
  by (simp_all add: fed_def)

lemma fed_updates [simp]:
  "advance n (fed b r) = fed b (advance n r)"
  "(fed b r)\<lparr>r_stack := st\<rparr> = fed b (r\<lparr>r_stack := st\<rparr>)"
  "(fed b r)\<lparr>r_reply := a\<rparr> = fed b (r\<lparr>r_reply := a\<rparr>)"
  "(fed b r)\<lparr>r_heap := h\<rparr> = fed b (r\<lparr>r_heap := h\<rparr>)"
  "(fed b r)\<lparr>r_fresh := f\<rparr> = fed b (r\<lparr>r_fresh := f\<rparr>)"
  "fed b (fed c r) = fed (c @ b) r"
  by (simp_all add: fed_def advance_def)

text \<open>A reader whose cursor is inside the buffer and whose unread bytes, with those to come, an \<open>int\<close> can
  count.\<close>

definition room :: "string \<Rightarrow> redisReader \<Rightarrow> bool" where
  "room b r \<longleftrightarrow> r_pos r \<le> length (r_buf r) \<and> length (unread r @ b) < 2 ^ 31"

lemma unread_fed: "room b r \<Longrightarrow> unread (fed b r) = unread r @ b"
  by (simp add: unread_def room_def)

lemma seekNewline_short: "length s < 2 ^ 31 \<Longrightarrow> seekNewline s = seek_crlf s"
  by (simp add: seekNewline_def wrap32_id nat_add_distrib)

lemma seek_crlf_append: "seek_crlf u = Some n \<Longrightarrow> seek_crlf (u @ b) = Some n"
  by (induction u arbitrary: n rule: seek_crlf.induct) (auto split: if_splits)

lemma seek_crlf_mem: "seek_crlf u = Some n \<Longrightarrow> CHR 0x0D \<in> set u"
  by (induction u arbitrary: n rule: seek_crlf.induct) (auto split: if_splits)

lemma seekNewline_more: "length (u @ b) < 2 ^ 31 \<Longrightarrow> seekNewline u = Some n \<Longrightarrow> seekNewline (u @ b) = Some n"
  by (simp add: seekNewline_short seek_crlf_append)

lemma read_digits_append: "CHR 0x0D \<in> set u \<Longrightarrow> read_digits m v (u @ b) = read_digits m v u"
  by (induction m v u rule: read_digits.induct) auto

lemma readLongLong_more: "length (u @ b) < 2 ^ 31 \<Longrightarrow> seekNewline u = Some n \<Longrightarrow> readLongLong (u @ b) = readLongLong u"
  using read_digits_append [of u _ _ b] read_digits_append [of "tl u" _ _ b]
  by (cases u) (auto simp: readLongLong_def seekNewline_short dest!: seek_crlf_mem)

lemma create_fed: "create fails ob (fed b r) = map_option (map_prod id (fed b)) (create fails ob r)"
  by (auto simp: create_def Let_def split: list.split bind_split)

lemma create_objects_fed:
  "createStringObject fails ty str (fed b r) = map_option (map_prod id (fed b)) (createStringObject fails ty str r)"
  "createArrayObject fails n (fed b r) = map_option (map_prod id (fed b)) (createArrayObject fails n r)"
  "createIntegerObject fails v (fed b r) = map_option (map_prod id (fed b)) (createIntegerObject fails v r)"
  "createNilObject fails (fed b r) = map_option (map_prod id (fed b)) (createNilObject fails r)"
  by (simp_all add: create_defs create_fed split: option.split)

lemma finish_fed:
  "finish_item m = Some (True, r') \<Longrightarrow> finish_item (map_option (map_prod id (fed b)) m) = Some (True, fed b r')"
  "enter_array n m = Some (True, r') \<Longrightarrow> enter_array n (map_option (map_prod id (fed b)) m) = Some (True, fed b r')"
  by (cases m; auto simp: finish_item_def enter_array_def bind_eq_Some_conv split: option.splits list.splits)+

lemma map_advance_fed:
  "map_option (map_prod id (advance n)) (map_option (map_prod id (fed b)) m) =
   map_option (map_prod id (fed b)) (map_option (map_prod id (advance n)) m)"
  by (cases m) auto

lemma readLine_fed: "room b r \<Longrightarrow> readLine r = Some (p, n, r') \<Longrightarrow>
    readLine (fed b r) = Some (p @ b, n, fed b r') \<and> readLongLong (p @ b) = readLongLong p \<and> n \<le> length p"
  by (auto simp: readLine_def unread_fed seekNewline_more readLongLong_more room_def split: option.splits
    dest: seekNewline_bound)

lemma processBulkItem_fed:
  assumes "room b r" "processBulkItem fails r = Some (True, r')"
  shows "processBulkItem fails (fed b r) = Some (True, fed b r')"
proof -
  have len: "length (unread r @ b) < 2 ^ 31" using assms(1) by (simp add: room_def)
  obtain s where s: "seekNewline (unread r) = Some s"
    using assms(2) by (auto simp: processBulkItem_def split: option.splits)
  then obtain n where n: "readLongLong (unread r) = Some n"
    using assms(2) by (auto simp: processBulkItem_def bind_eq_Some_conv)
  have b: "s + 2 \<le> length (unread r)" by (rule seekNewline_bound [OF s])
  have u: "unread (fed b r) = unread r @ b" "seekNewline (unread r @ b) = Some s" "readLongLong (unread r @ b) = Some n"
    using unread_fed [OF assms(1)] seekNewline_more [OF len s] readLongLong_more [OF len s] n by simp_all
  show ?thesis
  proof (cases "n < 0")
    case True
    with assms(2) show ?thesis
      by (simp add: processBulkItem_def u s n create_objects_fed map_advance_fed finish_fed)
  next
    case False
    then have fits: "n + 2 < 2 ^ 63" "s + 2 + (nat n + 2) \<le> length (unread r)"
      using assms(2) by (auto simp: processBulkItem_def s n split: if_splits)
    then have "take (nat n) (drop (s + 2) (unread r @ b)) = take (nat n) (drop (s + 2) (unread r))" by simp
    with assms(2) False fits show ?thesis
      by (simp add: processBulkItem_def u s n create_objects_fed map_advance_fed finish_fed)
  qed
qed

lemma processMultiBulkItem_fed:
  assumes "room b r" "processMultiBulkItem fails r = Some (True, r')"
  shows "processMultiBulkItem fails (fed b r) = Some (True, fed b r')"
proof -
  have depth: "length (r_stack r) \<noteq> 9" using assms(2) by (auto simp: processMultiBulkItem_def)
  then obtain p len q where l: "readLine r = Some (p, len, q)"
    using assms(2) by (auto simp: processMultiBulkItem_def split: option.splits)
  with depth obtain n where n: "readLongLong p = Some n"
    using assms(2) by (auto simp: processMultiBulkItem_def bind_eq_Some_conv)
  note f = readLine_fed [OF assms(1) l]
  from assms(2) depth l n f show ?thesis
    by (cases "n = - 1"; cases "0 < n") (simp_all add: processMultiBulkItem_def create_objects_fed finish_fed)
qed

lemma processLineItem_fed:
  assumes "room b r" "processLineItem fails ty r = Some (True, r')"
  shows "processLineItem fails ty (fed b r) = Some (True, fed b r')"
proof -
  obtain p len q where l: "readLine r = Some (p, len, q)"
    using assms(2) by (auto simp: processLineItem_def split: option.splits)
  note f = readLine_fed [OF assms(1) l]
  from assms(2) l f show ?thesis
    by (cases "readLongLong p"; cases "ty = T_INTEGER") (simp_all add: processLineItem_def create_objects_fed finish_fed)
qed

lemma process_typed_fed:
  assumes "room b r" "process_typed fails ty r = Some (True, r')"
  shows "process_typed fails ty (fed b r) = Some (True, fed b r')"
  using assms processLineItem_fed processBulkItem_fed processMultiBulkItem_fed
  by (auto simp: process_typed_def split: reply_type.splits)

text \<open>An item that is not complete leaves the reader as it is, apart from its type byte.\<close>

lemma redisReaderSetError_err [simp]:
  "r_err (redisReaderSetError ty str r) = ty" "REDIS_ERR_PROTOCOL \<noteq> 0" "REDIS_ERR_OOM \<noteq> 0"
  by (simp_all add: redisReaderSetError_def REDIS_ERR_PROTOCOL_def REDIS_ERR_OOM_def)

lemma finish_waits: "finish_item m = Some (False, r') \<Longrightarrow> r_err r' \<noteq> 0"
  "enter_array n m = Some (False, r') \<Longrightarrow> r_err r' \<noteq> 0"
  by (cases m; auto simp: finish_item_def enter_array_def redisReaderSetErrorOOM_def bind_eq_Some_conv
    split: option.splits list.splits)+

lemma process_typed_waits: "process_typed fails ty r = Some (False, r') \<Longrightarrow> r_err r' = 0 \<Longrightarrow> r' = r"
  by (auto simp: process_typed_def processLineItem_def processBulkItem_def processMultiBulkItem_def bind_eq_Some_conv
    split: reply_type.splits option.splits if_splits dest: finish_waits)


lemma room_advance: "room b r \<Longrightarrow> n \<le> length (unread r) \<Longrightarrow> room b (advance n r)"
  by (auto simp: room_def unread_def)

lemma room_stack [simp]: "room b (r\<lparr>r_stack := st\<rparr>) = room b r" "unread (r\<lparr>r_stack := st\<rparr>) = unread r"
  by (simp_all add: room_def unread_def)

lemma readBytes_fed: "room b r \<Longrightarrow> readBytes 1 r = Some (p, r') \<Longrightarrow>
    readBytes 1 (fed b r) = Some (p @ b, fed b r') \<and> deref (p @ b) = deref p \<and> room b r'"
  by (auto simp: readBytes_def unread_fed room_advance split: if_splits) (cases "unread r"; simp)

lemma processItem_fed:
  assumes "room b r" "processItem fails r = Some (True, r')"
  shows "processItem fails (fed b r) = Some (True, fed b r')"
proof -
  obtain cur st where st: "r_stack r = cur # st" using assms(2) by (auto simp: processItem_def split: list.splits)
  show ?thesis
  proof (cases "t_type cur")
    case (Some ty)
    with assms st show ?thesis by (simp add: processItem_def process_typed_fed)
  next
    case None
    then obtain p q where pq: "readBytes 1 r = Some (p, q)"
      using assms(2) st by (auto simp: processItem_def split: option.splits)
    with None obtain ty where "type_byte (deref p) = Some ty"
      using assms(2) st by (auto simp: processItem_def simp del: type_byte.simps split: option.splits)
    with assms(2) st None pq readBytes_fed [OF assms(1) pq] show ?thesis
      by (simp add: processItem_def process_typed_fed del: type_byte.simps)
  qed
qed

lemma processItem_waits:
  assumes "room b r" "processItem fails r = Some (False, r')" "r_err r' = 0"
  shows "processItem fails (fed b r') = processItem fails (fed b r) \<and> r_stack r' \<noteq> []"
proof -
  obtain cur st where st: "r_stack r = cur # st" using assms(2) by (auto simp: processItem_def split: list.splits)
  show ?thesis
  proof (cases "\<exists>p q ty. t_type cur = None \<and> readBytes 1 r = Some (p, q) \<and> type_byte (deref p) = Some ty")
    case True
    then obtain p q ty where t: "t_type cur = None" "readBytes 1 r = Some (p, q)" "type_byte (deref p) = Some ty" by blast
    then have "process_typed fails ty (q\<lparr>r_stack := cur\<lparr>t_type := Some ty\<rparr> # st\<rparr>) = Some (False, r')"
      using assms(2) st by (simp add: processItem_def del: type_byte.simps)
    then have "r' = q\<lparr>r_stack := cur\<lparr>t_type := Some ty\<rparr> # st\<rparr>"
      using process_typed_waits assms(3) by blast
    with t st readBytes_fed [OF assms(1) t(2)] show ?thesis
      by (simp add: processItem_def del: type_byte.simps)
  next
    case False
    then have "r' = r"
      using assms(2,3) st process_typed_waits
      by (auto simp: processItem_def redisReaderSetErrorProtocolByte_def simp del: type_byte.simps split: option.splits)
    with st show ?thesis by simp
  qed
qed

lemma room_progress: "room b r \<Longrightarrow> progress r r' \<Longrightarrow> room b r'"
  by (auto simp: room_def progress_def unread_def)

text \<open>Processing what is there, then feeding more and going on, is processing everything at once.\<close>

lemma process_items_fed:
  "room b r \<Longrightarrow> process_items fails r = Some r' \<Longrightarrow> r_err r' = 0 \<Longrightarrow>
   process_items fails (fed b r') = process_items fails (fed b r)"
proof (induction fails r rule: process_items.induct)
  case (1 fails r)
  show ?case
  proof (cases "r_stack r = []")
    case True
    with "1.prems" show ?thesis by (simp add: process_items.simps [of fails r])
  next
    case False
    then obtain good q where q: "processItem fails r = Some (good, q)"
      using "1.prems" by (auto simp: process_items.simps [of fails r] split: option.splits)
    show ?thesis
    proof (cases good)
      case True
      have "process_items fails (fed b r) = process_items fails (fed b q)"
        using False q True processItem_fed [OF "1.prems"(1)] by (subst process_items.simps) simp
      moreover have "process_items fails q = Some r'"
        using "1.prems"(2) False q True by (simp add: process_items.simps [of fails r])
      moreover have "room b q" using room_progress [OF "1.prems"(1) processItem_progress] q True by simp
      ultimately show ?thesis using "1.IH" [OF False q refl] True "1.prems"(3) by simp
    next
      case bad: False
      then have "q = r'" using "1.prems"(2) False q by (simp add: process_items.simps [of fails r])
      then show ?thesis
        using processItem_waits [OF "1.prems"(1)] q bad "1.prems"(3) False
        by (subst (1 2) process_items.simps) simp
    qed
  qed
qed

subsection \<open>Failures do not go away\<close>

text \<open>Undefined behaviour or a protocol error on some bytes stays when more bytes follow.\<close>

definition failed :: "redisReader option \<Rightarrow> bool" where
  "failed m \<longleftrightarrow> (case m of None \<Rightarrow> True | Some r \<Rightarrow> r_err r \<noteq> 0)"

definition item_failed :: "(bool \<times> redisReader) option \<Rightarrow> bool" where
  "item_failed m \<longleftrightarrow> (case m of None \<Rightarrow> True | Some (good, r) \<Rightarrow> \<not> good \<and> r_err r \<noteq> 0)"

lemma finish_failed_fed:
  "item_failed (finish_item m) \<Longrightarrow> item_failed (finish_item (map_option (map_prod id (fed b)) m))"
  "item_failed (enter_array n m) \<Longrightarrow> item_failed (enter_array n (map_option (map_prod id (fed b)) m))"
  by (cases m; auto simp: item_failed_def finish_item_def enter_array_def redisReaderSetErrorOOM_def
    split: option.splits list.splits bind_splits)+

lemma waiting_not_failed: "r_err r = 0 \<Longrightarrow> \<not> item_failed (Some (False, r))" "\<not> item_failed (Some (True, r))"
  by (simp_all add: item_failed_def)

lemma processLineItem_failed:
  assumes "room b r" "r_err r = 0" "item_failed (processLineItem fails ty r)"
  shows "item_failed (processLineItem fails ty (fed b r))"
proof -
  obtain p len q where l: "readLine r = Some (p, len, q)"
    using assms(2,3) by (auto simp: processLineItem_def waiting_not_failed split: option.splits)
  note f = readLine_fed [OF assms(1) l]
  show ?thesis
    using assms(3) l f
    by (cases "readLongLong p"; cases "ty = T_INTEGER")
      (simp_all add: processLineItem_def create_objects_fed finish_failed_fed)
qed

lemma processBulkItem_failed:
  assumes "room b r" "r_err r = 0" "item_failed (processBulkItem fails r)"
  shows "item_failed (processBulkItem fails (fed b r))"
proof -
  have len: "length (unread r @ b) < 2 ^ 31" using assms(1) by (simp add: room_def)
  obtain s where s: "seekNewline (unread r) = Some s"
    using assms(2,3) by (auto simp: processBulkItem_def waiting_not_failed split: option.splits)
  have u: "unread (fed b r) = unread r @ b" "seekNewline (unread r @ b) = Some s"
      "readLongLong (unread r @ b) = readLongLong (unread r)"
    using unread_fed [OF assms(1)] seekNewline_more [OF len s] readLongLong_more [OF len s] by simp_all
  show ?thesis
  proof (cases "readLongLong (unread r)")
    case None
    then show ?thesis by (simp add: processBulkItem_def u item_failed_def)
  next
    case (Some n)
    show ?thesis
    proof (cases "0 \<le> n \<and> n + 2 < 2 ^ 63")
      case True
      then have fits: "s + 2 + (nat n + 2) \<le> length (unread r)"
        using assms(2,3) s Some by (auto simp: processBulkItem_def waiting_not_failed split: if_splits)
      then have "take (nat n) (drop (s + 2) (unread r @ b)) = take (nat n) (drop (s + 2) (unread r))" by simp
      with assms(3) True fits show ?thesis
        by (simp add: processBulkItem_def u s Some create_objects_fed map_advance_fed finish_failed_fed)
    next
      case False
      with assms(3) show ?thesis
        by (auto simp: processBulkItem_def u s Some create_objects_fed map_advance_fed finish_failed_fed split: if_splits)
    qed
  qed
qed

lemma processMultiBulkItem_failed:
  assumes "room b r" "r_err r = 0" "item_failed (processMultiBulkItem fails r)"
  shows "item_failed (processMultiBulkItem fails (fed b r))"
proof (cases "length (r_stack r) = 9")
  case True
  then show ?thesis by (simp add: processMultiBulkItem_def item_failed_def)
next
  case False
  then obtain p len q where l: "readLine r = Some (p, len, q)"
    using assms(2,3) by (auto simp: processMultiBulkItem_def waiting_not_failed split: option.splits)
  note f = readLine_fed [OF assms(1) l]
  show ?thesis
  proof (cases "readLongLong p")
    case None
    then show ?thesis using False f by (simp add: processMultiBulkItem_def item_failed_def)
  next
    case (Some n)
    then show ?thesis
      using assms(3) False l f
      by (cases "n = - 1"; cases "0 < n") (simp_all add: processMultiBulkItem_def create_objects_fed finish_failed_fed)
  qed
qed

lemma processItem_failed:
  assumes "room b r" "r_err r = 0" "item_failed (processItem fails r)"
  shows "item_failed (processItem fails (fed b r))"
proof (cases "r_stack r")
  case Nil
  then show ?thesis by (simp add: processItem_def item_failed_def)
next
  case (Cons cur st)
  have ty: "item_failed (process_typed fails ty q) \<Longrightarrow> item_failed (process_typed fails ty (fed b q))"
    if "room b q" "r_err q = 0" for ty q
    using processLineItem_failed [OF that] processBulkItem_failed [OF that] processMultiBulkItem_failed [OF that]
    by (auto simp: process_typed_def item_failed_def split: reply_type.splits)
  show ?thesis
  proof (cases "t_type cur")
    case (Some t)
    with assms Cons ty show ?thesis by (simp add: processItem_def)
  next
    case None
    then obtain p q where pq: "readBytes 1 r = Some (p, q)"
      using assms(2,3) Cons by (auto simp: processItem_def waiting_not_failed split: option.splits)
    then have "r_err q = 0" using assms(2) by (auto simp: readBytes_def split: if_splits)
    with readBytes_fed [OF assms(1) pq] ty [of "q\<lparr>r_stack := _\<rparr>"] assms(3) Cons None pq show ?thesis
      by (cases "type_byte (deref p)")
        (simp_all add: processItem_def redisReaderSetErrorProtocolByte_def item_failed_def del: type_byte.simps)
  qed
qed

lemma process_items_failed:
  "room b r \<Longrightarrow> r_err r = 0 \<Longrightarrow> failed (process_items fails r) \<Longrightarrow> failed (process_items fails (fed b r))"
proof (induction fails r rule: process_items.induct)
  case (1 fails r)
  have st: "r_stack r \<noteq> []" using "1.prems" by (auto simp: process_items.simps [of fails r] failed_def)
  show ?case
  proof (cases "\<exists>q. processItem fails r = Some (True, q)")
    case True
    then obtain q where q: "processItem fails r = Some (True, q)" by blast
    have "room b q" "r_err q = 0"
      using room_progress [OF "1.prems"(1) processItem_progress [OF q]] processItem_progress [OF q] "1.prems"(2)
      by (simp_all add: progress_def)
    moreover have "failed (process_items fails q)"
      using "1.prems"(3) st q by (simp add: process_items.simps [of fails r])
    ultimately have "failed (process_items fails (fed b q))" using "1.IH" [OF st q refl] by simp
    then show ?thesis
      using st processItem_fed [OF "1.prems"(1) q] by (subst process_items.simps) simp
  next
    case False
    then have "item_failed (processItem fails r)"
      using "1.prems"(3) st
      by (auto simp: process_items.simps [of fails r] failed_def item_failed_def split: option.splits if_splits)
    then have "item_failed (processItem fails (fed b r))" using processItem_failed "1.prems"(1,2) by blast
    then show ?thesis
      using st by (subst process_items.simps) (auto simp: failed_def item_failed_def split: option.splits)
  qed
qed

end
