(* ===== verification/Reader_Roundtrip.thy ===== *)
theory Reader_Roundtrip
  imports Reader_Laws
begin

text \<open>
  The reader builds the reply that the server wrote: from the bytes of a reply \<open>v\<close> it makes objects that
  represent \<open>v\<close> (\<open>reply_at\<close>), at any place of an outer reply that is under construction (\<open>item_read\<close>), and
  stops exactly at the end of those bytes (\<open>reply_read\<close>).
\<close>

subsection \<open>Objects that represent a reply\<close>

definition string_object :: "reply_type \<Rightarrow> string \<Rightarrow> reply_object" where
  "string_object ty s = (createReplyObject ty)\<lparr>o_str := Some s\<rparr>"

definition integer_object :: "int \<Rightarrow> reply_object" where
  "integer_object i = (createReplyObject T_INTEGER)\<lparr>o_integer := i\<rparr>"

definition array_object :: "nat \<Rightarrow> nat option list \<Rightarrow> reply_object" where
  "array_object n els = (createReplyObject T_ARRAY)\<lparr>o_elements := n, o_element := els\<rparr>"

text \<open>The object at an address and all below it lie in \<open>D\<close> and spell out the reply.\<close>

fun reply_at :: "(nat \<Rightarrow> reply_object option) \<Rightarrow> nat set \<Rightarrow> nat \<Rightarrow> redisReply \<Rightarrow> bool" where
  "reply_at h D a (R_STRING s) \<longleftrightarrow> a \<in> D \<and> h a = Some (string_object T_STRING s)"
| "reply_at h D a (R_STATUS s) \<longleftrightarrow> a \<in> D \<and> h a = Some (string_object T_STATUS s)"
| "reply_at h D a (R_ERROR s) \<longleftrightarrow> a \<in> D \<and> h a = Some (string_object T_ERROR s)"
| "reply_at h D a (R_INTEGER i) \<longleftrightarrow> a \<in> D \<and> h a = Some (integer_object i)"
| "reply_at h D a R_NIL \<longleftrightarrow> a \<in> D \<and> h a = Some (createReplyObject T_NIL)"
| "reply_at h D a (R_ARRAY rs) \<longleftrightarrow> a \<in> D \<and>
    (case h a of
       None \<Rightarrow> False
     | Some ob \<Rightarrow> ob = array_object (length rs) (o_element ob) \<and>
         list_all2 (\<lambda>e r. case e of None \<Rightarrow> False | Some c \<Rightarrow> reply_at h D c r) (o_element ob) rs)"

lemma reply_at_frame:
  "reply_at h D a v \<Longrightarrow> (\<And>x. x \<in> D \<Longrightarrow> h' x = h x) \<Longrightarrow> D \<subseteq> D' \<Longrightarrow> reply_at h' D' a v"
proof (induction v arbitrary: a)
  case (R_ARRAY rs)
  obtain ob where ob: "h a = Some ob" "ob = array_object (length rs) (o_element ob)"
      "list_all2 (\<lambda>e r. case e of None \<Rightarrow> False | Some c \<Rightarrow> reply_at h D c r) (o_element ob) rs"
    using R_ARRAY.prems(1) by (auto split: option.splits)
  have "list_all2 (\<lambda>e r. case e of None \<Rightarrow> False | Some c \<Rightarrow> reply_at h' D' c r) (o_element ob) rs"
    using ob(3) R_ARRAY.IH [OF _ _ R_ARRAY.prems(2,3)]
    by (auto elim!: list.rel_mono_strong split: option.splits)
  with ob R_ARRAY.prems show ?case by auto
qed auto

lemma reply_at_mono: "reply_at h D a v \<Longrightarrow> D \<subseteq> D' \<Longrightarrow> reply_at h D' a v"
  by (rule reply_at_frame) auto

text \<open>The replies the reader can take: arrays nested at most \<open>n\<close> deep, no carriage return in a status or
  error line, integers whose absolute value a \<open>long long\<close> holds.\<close>

fun readable :: "nat \<Rightarrow> redisReply \<Rightarrow> bool" where
  "readable n (R_STRING s) \<longleftrightarrow> True"
| "readable n (R_ARRAY rs) \<longleftrightarrow> 0 < n \<and> list_all (readable (n - 1)) rs"
| "readable n (R_INTEGER i) \<longleftrightarrow> - (2 ^ 63) < i \<and> i < 2 ^ 63"
| "readable n R_NIL \<longleftrightarrow> True"
| "readable n (R_STATUS s) \<longleftrightarrow> CHR 0x0D \<notin> set s"
| "readable n (R_ERROR s) \<longleftrightarrow> CHR 0x0D \<notin> set s"

subsection \<open>Lines and numbers\<close>

lemma seek_crlf_line: "CHR 0x0D \<notin> set s \<Longrightarrow> seek_crlf (s @ CRLF @ t) = Some (length s)"
proof (induction s)
  case (Cons c s)
  then show ?case by (cases s) (auto simp: CRLF_def)
qed (simp add: CRLF_def)

lemma foldl_digits_mono: "v \<le> foldl (\<lambda>n c. 10 * n + digit_value c) v s" for v :: nat
proof (induction s arbitrary: v)
  case (Cons c s)
  have "v \<le> 10 * v + digit_value c" by simp
  also have "\<dots> \<le> foldl (\<lambda>n c. 10 * n + digit_value c) v (c # s)" using Cons.IH [of "10 * v + digit_value c"] by simp
  finally show ?case .
qed simp

lemma read_digits_line:
  "\<forall>c \<in> set s. isdigit c \<Longrightarrow> foldl (\<lambda>n c. 10 * n + digit_value c) v s < 2 ^ 63 \<Longrightarrow>
   read_digits m (int v) (s @ CRLF @ t) = Some (m * int (foldl (\<lambda>n c. 10 * n + digit_value c) v s))"
proof (induction s arbitrary: v)
  case (Cons c s)
  have "c \<noteq> CHR 0x0D" using Cons.prems(1) by (auto simp: isdigit_def code_def)
  moreover have "10 * v + digit_value c < 2 ^ 63"
    using Cons.prems(2) foldl_digits_mono [of "10 * v + digit_value c" s] by simp
  then have "int (10 * v + digit_value c) < int (2 ^ 63)" by (simp only: of_nat_less_iff)
  then have "int v * 10 + int (digit_value c) < 2 ^ 63" by simp
  ultimately show ?case using Cons.prems Cons.IH [of "10 * v + digit_value c"] by (simp add: mult.commute)
qed (simp add: CRLF_def)

lemma readLongLong_show:
  assumes "- (2 ^ 63) < i" "i < 2 ^ 63"
  shows "readLongLong (show_int i @ CRLF @ t) = Some i"
proof -
  have n: "read_digits m 0 (show_nat n @ CRLF @ t) = Some (m * int n)" if "n < 2 ^ 63" for m n
    using read_digits_line [of "show_nat n" 0 m t] show_nat_digits [of n] read_show_nat [of n] that
    by (simp add: read_nat_def)
  obtain c s where c: "show_nat (nat i) = c # s" "c \<noteq> CHR ''-''" "c \<noteq> CHR ''+''"
    using show_nat_head [of "nat i"] digit_not_special by blast
  show ?thesis
  proof (cases "i < 0")
    case True
    then show ?thesis using assms n [of "nat (- i)" "- 1"] by (simp add: show_int_def readLongLong_def)
  next
    case False
    then show ?thesis using assms n [of "nat i" 1] c by (simp add: show_int_def readLongLong_def)
  qed
qed

lemma show_int_no_CR: "CHR 0x0D \<notin> set (show_int i)" "CHR 0x0D \<notin> set (show_nat n)"
proof -
  have "\<not> isdigit (CHR 0x0D)" by (simp add: isdigit_def code_def)
  then have "CHR 0x0D \<notin> set (show_nat k)" for k using show_nat_digits [of k] by blast
  then show "CHR 0x0D \<notin> set (show_int i)" "CHR 0x0D \<notin> set (show_nat n)" by (auto simp: show_int_def)
qed

lemma readLine_line:
  assumes "room [] r" "unread r = s @ CRLF @ t" "CHR 0x0D \<notin> set s"
  shows "readLine r = Some (s @ CRLF @ t, length s, advance (length s + 2) r)"
    and "seekNewline (unread r) = Some (length s)"
  using assms by (simp_all add: readLine_def seekNewline_short seek_crlf_line room_def)

lemma unread_advance: "unread (advance n r) = drop n (unread r)"
  by (simp add: unread_def add.commute)

subsection \<open>Making one object\<close>

text \<open>The place for the object of the current task exists.\<close>

definition slot_ok :: "redisReader \<Rightarrow> bool" where
  "slot_ok r \<longleftrightarrow>
    (case r_stack r of
       cur # par # _ \<Rightarrow> (\<exists>p ob. t_obj par = Some p \<and> p < r_fresh r \<and> r_heap r p = Some ob \<and> o_type ob = T_ARRAY \<and>
         0 \<le> t_idx cur \<and> nat (t_idx cur) < length (o_element ob))
     | _ \<Rightarrow> True)"

text \<open>The old objects after the next one was linked into its array.\<close>

definition linked :: "redisReader \<Rightarrow> nat \<Rightarrow> reply_object option" where
  "linked r x =
    (case r_stack r of
       cur # par # _ \<Rightarrow>
         if t_obj par = Some x then
           map_option (\<lambda>ob. ob\<lparr>o_element := (o_element ob)[nat (t_idx cur) := Some (r_fresh r)]\<rparr>) (r_heap r x)
         else r_heap r x
     | _ \<Rightarrow> r_heap r x)"

lemma create_made:
  assumes "slot_ok r"
  shows "\<exists>h. create no_fails ob r = Some (Some (r_fresh r), r\<lparr>r_heap := h, r_fresh := Suc (r_fresh r)\<rparr>) \<and>
    h (r_fresh r) = Some ob \<and> (\<forall>x < r_fresh r. h x = linked r x)"
proof (cases "\<exists>cur par st. r_stack r = cur # par # st")
  case True
  then obtain cur par st where st: "r_stack r = cur # par # st" by blast
  with assms obtain p parent where p: "t_obj par = Some p" "p < r_fresh r" "r_heap r p = Some parent"
      "o_type parent = T_ARRAY" "0 \<le> t_idx cur" "nat (t_idx cur) < length (o_element parent)"
    by (auto simp: slot_ok_def)
  show ?thesis
    by (rule exI [of _ "(r_heap r)(r_fresh r \<mapsto> ob,
      p \<mapsto> parent\<lparr>o_element := (o_element parent)[nat (t_idx cur) := Some (r_fresh r)]\<rparr>)"])
      (use p in \<open>simp add: create_def linked_def Let_def st\<close>)
next
  case False
  then have "(case r_stack r of cur # par # _ \<Rightarrow> g cur par | _ \<Rightarrow> b) = b" for g b
    by (auto split: list.split)
  with False show ?thesis by (auto simp: create_def linked_def Let_def split: list.split)
qed

text \<open>A reply was made from the state \<open>r\<close>: its root has the first fresh address.\<close>

definition made :: "redisReader \<Rightarrow> redisReply \<Rightarrow> redisReader \<Rightarrow> bool" where
  "made r v r' \<longleftrightarrow>
    r_fresh r \<le> r_fresh r' \<and> r_err r' = r_err r \<and> room [] r' \<and>
    r_reply r' = (if length (r_stack r) = 1 then Some (r_fresh r) else r_reply r) \<and>
    reply_at (r_heap r') {r_fresh r..<r_fresh r'} (r_fresh r) v \<and>
    (\<forall>x < r_fresh r. r_heap r' x = linked r x)"

definition item_ready :: "redisReader \<Rightarrow> redisReply \<Rightarrow> string \<Rightarrow> bool" where
  "item_ready r v t \<longleftrightarrow>
    r_stack r \<noteq> [] \<and> length (r_stack r) \<le> 9 \<and> t_type (hd (r_stack r)) = None \<and> slot_ok r \<and>
    moveToNextTask (r_stack r) \<noteq> None \<and> unread r = reply_bytes v @ t \<and> room [] r \<and>
    readable (9 - length (r_stack r)) v"

definition item_done :: "redisReader \<Rightarrow> redisReply \<Rightarrow> string \<Rightarrow> bool" where
  "item_done r v t \<longleftrightarrow>
    (\<exists>r' cur. process_items no_fails r = process_items no_fails r' \<and> made r v r' \<and> unread r' = t \<and>
       t_idx cur = t_idx (hd (r_stack r)) \<and> moveToNextTask (cur # tl (r_stack r)) = Some (r_stack r'))"

lemma move_defined: "t_idx cur' = t_idx cur \<Longrightarrow> moveToNextTask (cur # st) \<noteq> None \<Longrightarrow> moveToNextTask (cur' # st) \<noteq> None"
  by (cases st) (auto split: if_splits)

text \<open>Reading the type byte.\<close>

definition typed :: "reply_type \<Rightarrow> redisReader \<Rightarrow> redisReader" where
  "typed ty r = (advance 1 r)\<lparr>r_stack := (hd (r_stack r))\<lparr>t_type := Some ty\<rparr> # tl (r_stack r)\<rparr>"

lemma processItem_type:
  assumes "r_stack r \<noteq> []" "t_type (hd (r_stack r)) = None" "unread r = c # u" "type_byte c = Some ty"
  shows "processItem fails r = process_typed fails ty (typed ty r)"
  using assms by (cases "r_stack r") (simp_all add: processItem_def readBytes_def typed_def del: type_byte.simps)

lemma typed_facts:
  assumes "r_stack r \<noteq> []" "room [] r" "unread r = c # u"
  shows "unread (typed ty r) = u" "room [] (typed ty r)" "slot_ok (typed ty r) = slot_ok r" "linked (typed ty r) = linked r"
    "r_fresh (typed ty r) = r_fresh r" "r_reply (typed ty r) = r_reply r" "r_err (typed ty r) = r_err r"
    "length (r_stack (typed ty r)) = length (r_stack r)"
    "r_stack (typed ty r) = (hd (r_stack r))\<lparr>t_type := Some ty\<rparr> # tl (r_stack r)"
  using assms
  by (cases "r_stack r"; cases "tl (r_stack r)";
      auto simp: typed_def slot_ok_def linked_def unread_advance intro!: room_advance ext)+

text \<open>An object that needs no further items.\<close>

lemma finish_made:
  assumes "slot_ok q" "r_stack q = cur # st" "moveToNextTask (cur # st) \<noteq> None" "room [] q" "n \<le> length (unread q)"
    and "\<And>h x. h (r_fresh q) = Some ob \<Longrightarrow> reply_at h {r_fresh q..<Suc (r_fresh q)} (r_fresh q) v"
  shows "\<exists>r'. finish_item (map_option (map_prod id (advance n)) (create no_fails ob q)) = Some (True, r') \<and> made q v r' \<and>
    unread r' = drop n (unread q) \<and> moveToNextTask (cur # st) = Some (r_stack r')"
proof -
  obtain h where h: "create no_fails ob q = Some (Some (r_fresh q), q\<lparr>r_heap := h, r_fresh := Suc (r_fresh q)\<rparr>)"
      "h (r_fresh q) = Some ob" "\<forall>x < r_fresh q. h x = linked q x"
    using create_made [OF assms(1)] by blast
  obtain st' where st': "moveToNextTask (cur # st) = Some st'" using assms(3) by blast
  have r: "room [] (advance n q)" using assms by (intro room_advance) simp_all
  define r' where "r' = (if length (cur # st) = 1 then (advance n (q\<lparr>r_heap := h, r_fresh := Suc (r_fresh q)\<rparr>))\<lparr>r_reply := Some (r_fresh q)\<rparr>
    else advance n (q\<lparr>r_heap := h, r_fresh := Suc (r_fresh q)\<rparr>))\<lparr>r_stack := st'\<rparr>"
  have "finish_item (map_option (map_prod id (advance n)) (create no_fails ob q)) = Some (True, r')"
    using assms(2) st' by (simp add: h(1) finish_item_def r'_def)
  moreover have "made q v r'"
    using h assms(2,6) r by (auto simp: made_def r'_def room_def unread_def)
  moreover have "unread r' = drop n (unread q)" by (simp add: r'_def unread_def add.commute)
  ultimately show ?thesis using st' by (auto simp: r'_def)
qed

subsection \<open>Items without elements\<close>

lemma create_advance: "create fails ob (advance n r) = map_option (map_prod id (advance n)) (create fails ob r)"
  by (auto simp: create_def Let_def advance_def split: list.split bind_split)

lemma process_items_step: "processItem fails r = Some (True, r') \<Longrightarrow> process_items fails r = process_items fails r'"
  by (subst process_items.simps) (auto simp: processItem_def split: list.splits)

lemma made_typed:
  assumes "r_stack r \<noteq> []" "room [] r" "unread r = c # u"
  shows "made (typed ty r) v r' = made r v r'"
  by (simp add: made_def typed_facts(1-8) [OF assms])

lemma scalar_done:
  assumes "item_ready r v t" "unread r = c # u" "type_byte c = Some ty" "n \<le> length u" "drop n u = t"
    and "process_typed no_fails ty (typed ty r) =
      finish_item (map_option (map_prod id (advance n)) (create no_fails ob (typed ty r)))"
    and "\<And>h a. h a = Some ob \<Longrightarrow> reply_at h {a..<Suc a} a v"
  shows "item_done r v t"
proof -
  have r: "r_stack r \<noteq> []" "room [] r" "slot_ok r" "t_type (hd (r_stack r)) = None"
    using assms(1) by (simp_all add: item_ready_def)
  note q = typed_facts [OF r(1,2) assms(2), of ty]
  have "moveToNextTask ((hd (r_stack r))\<lparr>t_type := Some ty\<rparr> # tl (r_stack r)) \<noteq> None"
    by (rule move_defined [of _ "hd (r_stack r)"]) (use assms(1) r(1) in \<open>simp_all add: item_ready_def\<close>)
  then obtain r' where r': "process_typed no_fails ty (typed ty r) = Some (True, r')" "made (typed ty r) v r'"
      "unread r' = t" "moveToNextTask ((hd (r_stack r))\<lparr>t_type := Some ty\<rparr> # tl (r_stack r)) = Some (r_stack r')"
    using finish_made [of "typed ty r" "(hd (r_stack r))\<lparr>t_type := Some ty\<rparr>" "tl (r_stack r)" n ob v]
      assms(4-7) r(3) q by (auto simp del: moveToNextTask.simps)
  have "process_items no_fails r = process_items no_fails r'"
    using processItem_type [OF r(1,4) assms(2,3)] r'(1) process_items_step by simp
  then show ?thesis
    using r' made_typed [OF r(1,2) assms(2)] unfolding item_done_def
    by (intro exI [of _ r'] exI [of _ "(hd (r_stack r))\<lparr>t_type := Some ty\<rparr>"]) simp
qed

lemma line_done:
  assumes "item_ready r v t" "reply_bytes v = c # s @ CRLF" "type_byte c = Some ty" "CHR 0x0D \<notin> set s"
    and "\<And>q. readLine q = Some (s @ CRLF @ t, length s, advance (length s + 2) q) \<Longrightarrow> r_stack q \<noteq> [] \<Longrightarrow> length (r_stack q) = length (r_stack r) \<Longrightarrow>
      process_typed no_fails ty q = finish_item (create no_fails ob (advance (length s + 2) q))"
    and "\<And>h a. h a = Some ob \<Longrightarrow> reply_at h {a..<Suc a} a v"
  shows "item_done r v t"
proof (rule scalar_done [OF assms(1) _ assms(3)])
  show u: "unread r = c # s @ CRLF @ t" using assms(1,2) by (simp add: item_ready_def)
  have r: "r_stack r \<noteq> []" "room [] r" using assms(1) by (simp_all add: item_ready_def)
  note q = typed_facts [OF r u, of ty]
  show "process_typed no_fails ty (typed ty r) =
      finish_item (map_option (map_prod id (advance (length s + 2))) (create no_fails ob (typed ty r)))"
    using assms(5) [OF readLine_line(1) [OF q(2,1) assms(4)]] q(8,9) by (simp add: create_advance)
  show "length s + 2 \<le> length (s @ CRLF @ t)" "drop (length s + 2) (s @ CRLF @ t) = t" by (simp_all add: CRLF_def)
qed (rule assms(6))

lemma scalar_items:
  "item_ready r (R_STATUS s) t \<Longrightarrow> item_done r (R_STATUS s) t"
  "item_ready r (R_ERROR s) t \<Longrightarrow> item_done r (R_ERROR s) t"
  "item_ready r (R_INTEGER i) t \<Longrightarrow> item_done r (R_INTEGER i) t"
  "item_ready r R_NIL t \<Longrightarrow> item_done r R_NIL t"
  "item_ready r (R_STRING s) t \<Longrightarrow> item_done r (R_STRING s) t"
proof -
  assume a: "item_ready r (R_STATUS s) t"
  show "item_done r (R_STATUS s) t"
    by (rule line_done [OF a, of "CHR ''+''" s T_STATUS "string_object T_STATUS s"])
      (use a in \<open>simp_all add: item_ready_def process_typed_def processLineItem_def create_defs string_object_def\<close>)
next
  assume a: "item_ready r (R_ERROR s) t"
  show "item_done r (R_ERROR s) t"
    by (rule line_done [OF a, of "CHR ''-''" s T_ERROR "string_object T_ERROR s"])
      (use a in \<open>simp_all add: item_ready_def process_typed_def processLineItem_def create_defs string_object_def\<close>)
next
  assume a: "item_ready r (R_INTEGER i) t"
  show "item_done r (R_INTEGER i) t"
    by (rule line_done [OF a, of "CHR '':''" "show_int i" T_INTEGER "integer_object i"])
      (use a in \<open>simp_all add: item_ready_def process_typed_def processLineItem_def create_defs integer_object_def
        show_int_no_CR readLongLong_show\<close>)
next
  assume a: "item_ready r R_NIL t"
  then have u: "unread r = CHR ''$'' # ''-1'' @ CRLF @ t" by (simp add: item_ready_def)
  have r: "r_stack r \<noteq> []" "room [] r" using a by (simp_all add: item_ready_def)
  note q = typed_facts [OF r u, of T_STRING]
  have one: "show_int (- 1) = ''-1''" by (simp add: show_int_def)
  show "item_done r R_NIL t"
    using readLine_line(2) [OF q(2,1)] readLongLong_show [of "- 1" t]
    by (intro scalar_done [OF a u, of T_STRING "Suc (Suc (Suc (Suc 0)))" "createReplyObject T_NIL"])
      (simp_all add: process_typed_def processBulkItem_def create_defs q(1) one CRLF_def)
next
  assume a: "item_ready r (R_STRING s) t"
  define n where "n = show_nat (length s)"
  have u: "unread r = CHR ''$'' # n @ CRLF @ s @ CRLF @ t" using a by (simp add: item_ready_def bulk_def n_def)
  have r: "r_stack r \<noteq> []" "room [] r" using a by (simp_all add: item_ready_def)
  note q = typed_facts [OF r u, of T_STRING]
  have "length s < 2 ^ 31" using r(2) by (simp add: room_def u)
  then have v: "readLongLong (n @ CRLF @ s @ CRLF @ t) = Some (int (length s))"
    using readLongLong_show [of "int (length s)" "s @ CRLF @ t"] by (simp add: show_int_def n_def)
  have seek: "seekNewline (n @ CRLF @ s @ CRLF @ t) = Some (length n)"
    using readLine_line(2) [OF q(2,1)] q(1) by (simp add: n_def show_int_no_CR)
  have d: "drop (length n + 2) (n @ CRLF @ s @ CRLF @ t) = s @ CRLF @ t"
    "drop (length n + 2 + (length s + 2)) (n @ CRLF @ s @ CRLF @ t) = t"
    "length n + 2 + (length s + 2) \<le> length (n @ CRLF @ s @ CRLF @ t)" by (simp_all add: CRLF_length)
  show "item_done r (R_STRING s) t"
  proof (rule scalar_done [OF a u _ d(3,2), of T_STRING "string_object T_STRING s"])
    show "process_typed no_fails T_STRING (typed T_STRING r) = finish_item (map_option
        (map_prod id (advance (length n + 2 + (length s + 2)))) (create no_fails (string_object T_STRING s) (typed T_STRING r)))"
      unfolding process_typed_def processBulkItem_def q(1) seek v reply_type.case option.case bind.bind_lunit d(1)
      using d(3) \<open>length s < 2 ^ 31\<close> by (simp add: create_defs string_object_def)
  qed simp_all
qed

subsection \<open>The elements of an array\<close>

text \<open>The state while an array of \<open>n\<close> elements at the address \<open>p\<close> is filled, of which \<open>els\<close> are there.\<close>

definition filling :: "redisReader \<Rightarrow> redisReadTask \<Rightarrow> redisReadTask list \<Rightarrow> nat \<Rightarrow> nat \<Rightarrow> nat option list \<Rightarrow> bool" where
  "filling r arr st p n els \<longleftrightarrow>
    (\<exists>c. r_stack r = c # arr # st \<and> t_type c = None \<and> t_idx c = int (length els)) \<and> length st \<le> 7 \<and>
    t_type arr = Some T_ARRAY \<and> t_elements arr = int n \<and> t_obj arr = Some p \<and> p < r_fresh r \<and> length els < n \<and>
    r_heap r p = Some (array_object n (els @ replicate (n - length els) None)) \<and> room [] r \<and>
    moveToNextTask (arr # st) \<noteq> None"

definition filled :: "redisReader \<Rightarrow> redisReadTask \<Rightarrow> redisReadTask list \<Rightarrow> nat \<Rightarrow> nat option list \<Rightarrow> redisReply list \<Rightarrow> redisReader \<Rightarrow> bool" where
  "filled r arr st p els vs r' \<longleftrightarrow>
    r_fresh r \<le> r_fresh r' \<and> r_err r' = r_err r \<and> room [] r' \<and> r_reply r' = r_reply r \<and>
    moveToNextTask (arr # st) = Some (r_stack r') \<and>
    (\<exists>as. r_heap r' p = Some (array_object (length els + length vs) (els @ map Some as)) \<and>
      list_all2 (reply_at (r_heap r') {r_fresh r..<r_fresh r'}) as vs) \<and>
    (\<forall>x < r_fresh r. x \<noteq> p \<longrightarrow> r_heap r' x = r_heap r x)"

lemma filling_ready:
  assumes "filling r arr st p n els" "unread r = reply_bytes v @ t" "readable (7 - length st) v"
  shows "item_ready r v t"
  using assms move_defined
  by (auto simp: item_ready_def filling_def slot_ok_def array_object_def createReplyObject_def)

lemma filling_linked:
  assumes "filling r arr st p n els"
  shows "linked r p = Some (array_object n ((els @ [Some (r_fresh r)]) @ replicate (n - Suc (length els)) None))"
    and "x \<noteq> p \<Longrightarrow> linked r x = r_heap r x"
proof -
  have "replicate (n - length els) None = None # replicate (n - Suc (length els)) (None :: nat option)"
    using assms by (simp add: filling_def Suc_diff_Suc flip: replicate_Suc)
  then show "linked r p = Some (array_object n ((els @ [Some (r_fresh r)]) @ replicate (n - Suc (length els)) None))"
    using assms by (auto simp: filling_def linked_def array_object_def)
  show "x \<noteq> p \<Longrightarrow> linked r x = r_heap r x" using assms by (auto simp: filling_def linked_def)
qed

lemma filling_next:
  assumes "filling r arr st p n els" "made r v r'" "Suc (length els) < n"
    "t_idx cur = t_idx (hd (r_stack r))" "moveToNextTask (cur # tl (r_stack r)) = Some (r_stack r')"
  shows "filling r' arr st p n (els @ [Some (r_fresh r)])"
proof -
  have "r_stack r' = cur\<lparr>t_type := None, t_elements := - 1, t_idx := int (length els) + 1\<rparr> # arr # st"
    using assms by (auto simp: filling_def)
  then show ?thesis
    using assms(1-3) filling_linked(1) [OF assms(1)] by (auto simp: filling_def made_def)
qed

lemma filled_last:
  assumes "filling r arr st p n els" "made r v r'" "Suc (length els) = n"
    "t_idx cur = t_idx (hd (r_stack r))" "moveToNextTask (cur # tl (r_stack r)) = Some (r_stack r')"
  shows "filled r arr st p els [v] r'"
proof -
  have "r_heap r' p = Some (array_object n (els @ map Some [r_fresh r]))"
    using assms(1-3) filling_linked(1) [OF assms(1)] by (simp add: made_def filling_def)
  moreover have "reply_at (r_heap r') {r_fresh r..<r_fresh r'} (r_fresh r) v" "r_reply r' = r_reply r"
    "r_fresh r \<le> r_fresh r'" "r_err r' = r_err r" "room [] r'"
    using assms(1,2) by (auto simp: made_def filling_def)
  moreover have "moveToNextTask (arr # st) = Some (r_stack r')"
    using assms by (auto simp: filling_def)
  moreover have "\<forall>x < r_fresh r. x \<noteq> p \<longrightarrow> r_heap r' x = r_heap r x"
    using assms(2) filling_linked(2) [OF assms(1)] by (simp add: made_def)
  ultimately show ?thesis
    using assms(3) unfolding filled_def by (intro conjI exI [of _ "[r_fresh r]"]) simp_all
qed

lemma filled_step:
  assumes "filling r arr st p n els" "made r v r1" "filled r1 arr st p (els @ [Some (r_fresh r)]) vs r'"
  shows "filled r arr st p els (v # vs) r'"
proof -
  have p: "p < r_fresh r" "r_fresh r \<le> r_fresh r1" "r_fresh r1 \<le> r_fresh r'"
    using assms by (auto simp: filling_def made_def filled_def)
  obtain as where as: "r_heap r' p = Some (array_object (length els + length (v # vs)) (els @ map Some (r_fresh r # as)))"
      "list_all2 (reply_at (r_heap r') {r_fresh r1..<r_fresh r'}) as vs"
    using assms(3) by (auto simp: filled_def)
  have "reply_at (r_heap r') {r_fresh r..<r_fresh r'} (r_fresh r) v"
    by (rule reply_at_frame [of "r_heap r1" "{r_fresh r..<r_fresh r1}"])
      (use assms p in \<open>auto simp: made_def filled_def\<close>)
  moreover have "list_all2 (reply_at (r_heap r') {r_fresh r..<r_fresh r'}) as vs"
    using as(2) by (rule list_all2_mono) (erule reply_at_mono; use p in auto)
  ultimately have "list_all2 (reply_at (r_heap r') {r_fresh r..<r_fresh r'}) (r_fresh r # as) (v # vs)" by simp
  moreover have "r_reply r1 = r_reply r" "r_err r1 = r_err r" "\<forall>x < r_fresh r. x \<noteq> p \<longrightarrow> r_heap r1 x = r_heap r x"
    using assms(1,2) filling_linked(2) [OF assms(1)] by (auto simp: made_def filling_def)
  moreover have "r_reply r' = r_reply r1" "r_err r' = r_err r1" "room [] r'" "moveToNextTask (arr # st) = Some (r_stack r')"
    "\<forall>x < r_fresh r1. x \<noteq> p \<longrightarrow> r_heap r' x = r_heap r1 x"
    using assms(3) by (simp_all add: filled_def)
  ultimately show ?thesis
    using as(1) p unfolding filled_def by (intro conjI exI [of _ "r_fresh r # as"]) simp_all
qed

lemma array_elements_read:
  assumes "\<And>v r t. v \<in> set vs \<Longrightarrow> item_ready r v t \<Longrightarrow> item_done r v t"
    and "filling r arr st p (length els + length vs) els" "vs \<noteq> []"
    and "unread r = concat (map reply_bytes vs) @ t" "list_all (readable (7 - length st)) vs"
  shows "\<exists>r'. process_items no_fails r = process_items no_fails r' \<and> unread r' = t \<and> filled r arr st p els vs r'"
  using assms
proof (induction vs arbitrary: r els)
  case (Cons v vs)
  have "item_ready r v (concat (map reply_bytes vs) @ t)"
    using Cons.prems by (intro filling_ready [OF Cons.prems(2)]) simp_all
  then have "item_done r v (concat (map reply_bytes vs) @ t)" by (rule Cons.prems(1) [rotated]) simp
  then obtain r1 cur where r1: "process_items no_fails r = process_items no_fails r1" "made r v r1"
      "unread r1 = concat (map reply_bytes vs) @ t" "t_idx cur = t_idx (hd (r_stack r))"
      "moveToNextTask (cur # tl (r_stack r)) = Some (r_stack r1)"
    unfolding item_done_def by blast
  show ?case
  proof (cases "vs = []")
    case True
    with filled_last [OF Cons.prems(2) r1(2) _ r1(4,5)] r1(1,3) show ?thesis by auto
  next
    case False
    have "filling r1 arr st p (length (els @ [Some (r_fresh r)]) + length vs) (els @ [Some (r_fresh r)])"
      using filling_next [OF Cons.prems(2) r1(2) _ r1(4,5)] False by (simp add: neq_Nil_conv)
    from Cons.IH [OF Cons.prems(1) this False r1(3)] obtain r' where
        "process_items no_fails r1 = process_items no_fails r'" "unread r' = t"
        "filled r1 arr st p (els @ [Some (r_fresh r)]) vs r'"
      using Cons.prems(5) by auto
    with r1(1) filled_step [OF Cons.prems(2) r1(2)] show ?thesis by auto
  qed
qed simp

text \<open>The array object is made and the reader turns to the elements.\<close>

lemma array_entered:
  assumes "slot_ok q" "r_stack q = cur # st" "moveToNextTask (cur # st) \<noteq> None" "room [] q" "t_type cur = Some T_ARRAY"
    "k \<le> length (unread q)" "length st \<le> 7" "0 < n"
  defines "arr \<equiv> cur\<lparr>t_elements := int n, t_obj := Some (r_fresh q)\<rparr>"
  shows "\<exists>r1. enter_array (int n) (create no_fails (array_object n (replicate n None)) (advance k q)) = Some (True, r1) \<and>
    filling r1 arr st (r_fresh q) n [] \<and> unread r1 = drop k (unread q) \<and> r_fresh r1 = Suc (r_fresh q) \<and>
    r_err r1 = r_err q \<and> r_reply r1 = (if length (r_stack q) = 1 then Some (r_fresh q) else r_reply q) \<and>
    (\<forall>x < r_fresh q. r_heap r1 x = linked q x)"
proof -
  obtain h where h: "create no_fails (array_object n (replicate n None)) q =
        Some (Some (r_fresh q), q\<lparr>r_heap := h, r_fresh := Suc (r_fresh q)\<rparr>)"
      "h (r_fresh q) = Some (array_object n (replicate n None))" "\<forall>x < r_fresh q. h x = linked q x"
    using create_made [OF assms(1)] by blast
  define q1 where "q1 = advance k (q\<lparr>r_heap := h, r_fresh := Suc (r_fresh q)\<rparr>)"
  define r1 where "r1 = (if st = [] then q1\<lparr>r_reply := Some (r_fresh q)\<rparr> else q1)\<lparr>r_stack :=
    \<lparr>t_type = None, t_elements = - 1, t_idx = 0, t_obj = None\<rparr> # arr # st\<rparr>"
  have "enter_array (int n) (create no_fails (array_object n (replicate n None)) (advance k q)) = Some (True, r1)"
    using assms(2) by (simp add: create_advance h(1) enter_array_def r1_def q1_def arr_def)
  moreover have "room [] r1" using assms(4,6) by (auto simp: r1_def q1_def room_def unread_def)
  moreover have "moveToNextTask (arr # st) \<noteq> None" by (rule move_defined [OF _ assms(3)]) (simp add: arr_def)
  ultimately show ?thesis
    using assms(2,5,7,8) h(2,3)
    by (intro exI [of _ r1]) (auto simp: filling_def r1_def q1_def arr_def unread_def add.commute)
qed

lemma length_reply_bytes: "length rs \<le> length (concat (map reply_bytes rs))"
proof (induction rs)
  case (Cons v rs)
  have "1 \<le> length (reply_bytes v)" by (cases v) (simp_all add: bulk_def)
  with Cons show ?case by simp
qed simp

lemma array_count:
  assumes "n < 2 ^ 31"
  shows "readLongLong (show_nat n @ CRLF @ x) = Some (int n)" "wrap32 (int n) = int n" "nat (int n mod 2 ^ 64) = n"
  using readLongLong_show [of "int n" x] assms by (simp_all add: show_int_def wrap32_id)

lemma array_header:
  assumes ready: "item_ready r (R_ARRAY rs) t" and "rs \<noteq> []"
  defines "arr \<equiv> (hd (r_stack r))\<lparr>t_type := Some T_ARRAY, t_elements := int (length rs), t_obj := Some (r_fresh r)\<rparr>"
  shows "\<exists>r1. process_items no_fails r = process_items no_fails r1 \<and>
    filling r1 arr (tl (r_stack r)) (r_fresh r) (length rs) [] \<and> unread r1 = concat (map reply_bytes rs) @ t \<and>
    r_fresh r1 = Suc (r_fresh r) \<and> r_err r1 = r_err r \<and>
    r_reply r1 = (if length (r_stack r) = 1 then Some (r_fresh r) else r_reply r) \<and>
    (\<forall>x < r_fresh r. r_heap r1 x = linked r x)"
proof -
  define n where "n = length rs"
  define s where "s = show_nat n"
  have r: "r_stack r \<noteq> []" "room [] r" "slot_ok r" "t_type (hd (r_stack r)) = None" "length (r_stack r) \<le> 8"
    using ready by (auto simp: item_ready_def)
  have u: "unread r = CHR ''*'' # s @ CRLF @ concat (map reply_bytes rs) @ t"
    using ready by (simp add: item_ready_def s_def n_def)
  have small: "n < 2 ^ 31" using r(2) length_reply_bytes [of rs] by (simp add: room_def u n_def)
  note w = array_count [OF small, folded s_def]
  define q where "q = typed T_ARRAY r"
  note f = typed_facts [OF r(1,2) u, of T_ARRAY, folded q_def]
  let ?cur = "(hd (r_stack r))\<lparr>t_type := Some T_ARRAY\<rparr>" and ?st = "tl (r_stack r)"
  have l: "readLine q = Some (s @ CRLF @ concat (map reply_bytes rs) @ t, length s, advance (length s + 2) q)"
    by (rule readLine_line(1) [OF f(2,1)]) (simp add: s_def show_int_no_CR)
  have move: "moveToNextTask (?cur # ?st) \<noteq> None"
    by (rule move_defined [of _ "hd (r_stack r)"]) (use ready r(1) in \<open>simp_all add: item_ready_def\<close>)
  have st7: "length ?st \<le> 7" using r(5) by simp
  obtain r1 where r1: "enter_array (int n) (create no_fails (array_object n (replicate n None)) (advance (length s + 2) q)) = Some (True, r1)"
      "filling r1 arr ?st (r_fresh r) n []" "unread r1 = drop (length s + 2) (unread q)" "r_fresh r1 = Suc (r_fresh r)"
      "r_err r1 = r_err r" "r_reply r1 = (if length (r_stack r) = 1 then Some (r_fresh r) else r_reply r)"
      "\<forall>x < r_fresh r. r_heap r1 x = linked r x"
    using array_entered [of q ?cur ?st "length s + 2" n, unfolded f(4-8), OF _ f(9) move f(2) _ _ st7] r(3) f(1,3) assms(2)
    by (auto simp: CRLF_length n_def arr_def)
  have "process_typed no_fails T_ARRAY q = Some (True, r1)"
    using r(5) f(8) assms(2) l w r1(1)
    by (simp add: process_typed_def processMultiBulkItem_def create_defs array_object_def n_def)
  then have "process_items no_fails r = process_items no_fails r1"
    using processItem_type [OF r(1,4) u] by (intro process_items_step) (simp add: q_def)
  with r1(2-7) f(1) show ?thesis by (intro exI [of _ r1]) (simp add: CRLF_length n_def)
qed

lemma array_made:
  assumes "filled r1 arr st (r_fresh r) [] rs r'" "r_fresh r1 = Suc (r_fresh r)" "r_err r1 = r_err r"
    "r_reply r1 = (if length (r_stack r) = 1 then Some (r_fresh r) else r_reply r)"
    "\<forall>x < r_fresh r. r_heap r1 x = linked r x"
  shows "made r (R_ARRAY rs) r'"
proof -
  obtain as where as: "r_heap r' (r_fresh r) = Some (array_object (length rs) (map Some as))"
      "list_all2 (reply_at (r_heap r') {r_fresh r1..<r_fresh r'}) as rs"
    using assms(1) by (auto simp: filled_def)
  have "list_all2 (reply_at (r_heap r') {r_fresh r..<r_fresh r'}) as rs"
    using as(2) by (rule list_all2_mono) (erule reply_at_mono; simp add: assms(2))
  then have "reply_at (r_heap r') {r_fresh r..<r_fresh r'} (r_fresh r) (R_ARRAY rs)"
    using as(1) assms(1,2) by (simp add: array_object_def list_all2_map1 filled_def)
  then show ?thesis using assms unfolding made_def filled_def by simp
qed

lemma array_item:
  assumes ih: "\<And>v r t. v \<in> set rs \<Longrightarrow> item_ready r v t \<Longrightarrow> item_done r v t"
    and ready: "item_ready r (R_ARRAY rs) t"
  shows "item_done r (R_ARRAY rs) t"
proof (cases "rs = []")
  case True
  have "length (r_stack r) \<le> 8" using ready by (auto simp: item_ready_def)
  then show ?thesis
    by (intro line_done [OF ready, of "CHR ''*''" "show_nat 0" T_ARRAY "array_object 0 []"])
      (use True array_count [of 0] in \<open>simp_all add: process_typed_def processMultiBulkItem_def create_defs
        array_object_def show_int_no_CR del: show_nat_0\<close>)
next
  case False
  let ?arr = "(hd (r_stack r))\<lparr>t_type := Some T_ARRAY, t_elements := int (length rs), t_obj := Some (r_fresh r)\<rparr>"
  obtain r1 where r1: "process_items no_fails r = process_items no_fails r1"
      "filling r1 ?arr (tl (r_stack r)) (r_fresh r) (length rs) []" "unread r1 = concat (map reply_bytes rs) @ t"
      "r_fresh r1 = Suc (r_fresh r)" "r_err r1 = r_err r"
      "r_reply r1 = (if length (r_stack r) = 1 then Some (r_fresh r) else r_reply r)"
      "\<forall>x < r_fresh r. r_heap r1 x = linked r x"
    using array_header [OF ready False] by blast
  have d: "list_all (readable (7 - length (tl (r_stack r)))) rs"
    using ready by (cases "r_stack r") (auto simp: item_ready_def)
  obtain r' where r': "process_items no_fails r1 = process_items no_fails r'" "unread r' = t"
      "filled r1 ?arr (tl (r_stack r)) (r_fresh r) [] rs r'"
    using array_elements_read [OF ih, of rs r1 ?arr "tl (r_stack r)" "r_fresh r" "[]" t] r1(2,3) False d by auto
  with r1 array_made [OF r'(3) r1(4-7)] show ?thesis
    unfolding item_done_def by (intro exI [of _ r'] exI [of _ ?arr]) (simp add: filled_def)
qed

lemma item_read: "item_ready r v t \<Longrightarrow> item_done r v t"
proof (induction v arbitrary: r t)
  case (R_ARRAY rs)
  show ?case by (rule array_item [OF R_ARRAY.IH R_ARRAY.prems])
qed (rule scalar_items, assumption)+

text \<open>A whole reply: the reader stops behind it, and the root object is the reply. Objects made before are
  not touched.\<close>

lemma reply_read:
  assumes "r_stack r = [root]" "t_type root = None" "unread r = reply_bytes v @ t" "room [] r" "readable 8 v"
  shows "\<exists>r'. process_items no_fails r = Some r' \<and> r_stack r' = [] \<and> unread r' = t \<and> r_err r' = r_err r \<and>
    room [] r' \<and> r_reply r' = Some (r_fresh r) \<and> r_fresh r \<le> r_fresh r' \<and>
    reply_at (r_heap r') {r_fresh r..<r_fresh r'} (r_fresh r) v \<and> (\<forall>x < r_fresh r. r_heap r' x = r_heap r x)"
proof -
  have "item_ready r v t" using assms by (simp add: item_ready_def slot_ok_def)
  then obtain r' cur where r': "process_items no_fails r = process_items no_fails r'" "made r v r'" "unread r' = t"
      "moveToNextTask (cur # tl (r_stack r)) = Some (r_stack r')"
    using item_read [OF \<open>item_ready r v t\<close>] by (auto simp: item_done_def)
  have "r_stack r' = []" using r'(4) assms(1) by simp
  then have "process_items no_fails r' = Some r'" by (subst process_items.simps) simp
  with r' \<open>r_stack r' = []\<close> assms(1) show ?thesis
    by (intro exI [of _ r']) (auto simp: made_def linked_def)
qed

end
