(* ===== verification/Redis_Context.thy ===== *)
theory Redis_Context
  imports Reader_Roundtrip
begin

text \<open>
  A blocking connection to Redis (\<^verbatim>\<open>hiredis-master/hiredis.c\<close>): commands are appended to an output buffer,
  \<open>redisGetReply\<close> writes it to the socket, possibly in several pieces, and reads until the reader has a
  reply. What the calls of \<open>read\<close> and \<open>write\<close> will return is part of the state of the socket; a call for
  which nothing is foreseen blocks.

  \<open>redis_call\<close> connects both directions: the server decodes the argument vector that the client encoded, and
  the client gets objects that represent the reply the server wrote, however the network cuts the bytes into
  pieces. This is the behaviour of the function \<open>env_redis\<close> over which the programs are modelled.
  \<open>reply_stream\<close> is the same for the pipelined replies of several commands.
\<close>

text \<open>\<open>Got []\<close> is the end of the stream: \<open>read\<close> returned 0.\<close>

datatype read_result = Got string | Read_retry | Read_failed string

datatype write_result = Took nat | Write_retry | Write_failed string

record socket =
  s_reads :: "read_result list"
  s_writes :: "write_result list"
  s_sent :: string

record redisContext =
  c_err :: int
  c_errstr :: string
  c_obuf :: string
  c_reader :: redisReader

datatype 'a io = Return 'a | Blocked | Undefined

definition REDIS_ERR_IO :: int where "REDIS_ERR_IO = 1"
definition REDIS_ERR_OTHER :: int where "REDIS_ERR_OTHER = 2"
definition REDIS_ERR_EOF :: int where "REDIS_ERR_EOF = 3"

definition redisContextInit :: redisContext where
  "redisContextInit = \<lparr>c_err = 0, c_errstr = [], c_obuf = [], c_reader = redisReaderCreate\<rparr>"

definition redisSetError :: "int \<Rightarrow> string \<Rightarrow> redisContext \<Rightarrow> redisContext" where
  "redisSetError ty str c = c\<lparr>c_err := ty, c_errstr := take 127 str\<rparr>"

subsection \<open>The socket\<close>

definition redisBufferRead :: "read_result \<Rightarrow> redisContext \<Rightarrow> bool \<times> redisContext" where
  "redisBufferRead res c =
    (if c_err c \<noteq> 0 then (False, c)
     else case res of
       Read_failed e \<Rightarrow> (False, redisSetError REDIS_ERR_IO e c)
     | Read_retry \<Rightarrow> (True, c)
     | Got bytes \<Rightarrow>
         if bytes = [] then (False, redisSetError REDIS_ERR_EOF ''Server closed the connection'' c)
         else (case redisReaderFeed bytes (c_reader c) of
            (good, r) \<Rightarrow>
              if good then (True, c\<lparr>c_reader := r\<rparr>)
              else (False, redisSetError (r_err r) (r_errstr r) (c\<lparr>c_reader := r\<rparr>))))"

text \<open>One call of \<open>write\<close>; the last component is what the socket took.\<close>

definition redisBufferWrite :: "write_result \<Rightarrow> redisContext \<Rightarrow> bool \<times> redisContext \<times> string" where
  "redisBufferWrite res c =
    (case res of
       Write_failed e \<Rightarrow> (False, redisSetError REDIS_ERR_IO e c, [])
     | Write_retry \<Rightarrow> (True, c, [])
     | Took n \<Rightarrow> (True, c\<lparr>c_obuf := drop n (c_obuf c)\<rparr>, take n (c_obuf c)))"

text \<open>Write until done. With an empty buffer \<open>redisBufferWrite\<close> does not call \<open>write\<close>.\<close>

fun write_loop :: "redisContext \<Rightarrow> write_result list \<Rightarrow> string \<Rightarrow> (bool \<times> redisContext \<times> write_result list \<times> string) io" where
  "write_loop c ws sent =
    (if c_err c \<noteq> 0 then Return (False, c, ws, sent)
     else if c_obuf c = [] then Return (True, c, ws, sent)
     else case ws of
       [] \<Rightarrow> Blocked
     | w # ws' \<Rightarrow>
         (case redisBufferWrite w c of
            (good, c', bytes) \<Rightarrow>
              if good then write_loop c' ws' (sent @ bytes) else Return (False, c', ws', sent @ bytes)))"

declare write_loop.simps [simp del]

definition redisGetReplyFromReader ::
    "(nat \<Rightarrow> bool) \<Rightarrow> redisContext \<Rightarrow> (bool \<times> nat option \<times> redisContext) option" where
  "redisGetReplyFromReader fails c = do {
     (good, reply, r) \<leftarrow> redisReaderGetReply fails (c_reader c);
     if good then Some (True, reply, c\<lparr>c_reader := r\<rparr>)
     else Some (False, None, redisSetError (r_err r) (r_errstr r) (c\<lparr>c_reader := r\<rparr>))
   }"

text \<open>Read until there is a reply.\<close>

fun read_loop ::
    "(nat \<Rightarrow> bool) \<Rightarrow> redisContext \<Rightarrow> read_result list \<Rightarrow> (nat option \<times> redisContext \<times> read_result list) io" where
  "read_loop fails c xs =
    (if c_err c \<noteq> 0 then Return (None, c, xs)
     else case xs of
       [] \<Rightarrow> Blocked
     | x # xs' \<Rightarrow>
         (case redisBufferRead x c of
            (False, c') \<Rightarrow> Return (None, c', xs')
          | (True, c') \<Rightarrow>
              (case redisGetReplyFromReader fails c' of
                 None \<Rightarrow> Undefined
               | Some (good, reply, c'') \<Rightarrow>
                   if \<not> good then Return (None, c'', xs')
                   else if reply = None then read_loop fails c'' xs'
                   else Return (reply, c'', xs'))))"

declare read_loop.simps [simp del]

definition redisGetReply :: "(nat \<Rightarrow> bool) \<Rightarrow> redisContext \<Rightarrow> socket \<Rightarrow> (nat option \<times> redisContext \<times> socket) io" where
  "redisGetReply fails c sock =
    (case redisGetReplyFromReader fails c of
       None \<Rightarrow> Undefined
     | Some (good, aux, c) \<Rightarrow>
         if \<not> good then Return (None, c, sock)
         else if aux \<noteq> None then Return (aux, c, sock)
         else
           (case write_loop c (s_writes sock) (s_sent sock) of
              Blocked \<Rightarrow> Blocked
            | Undefined \<Rightarrow> Undefined
            | Return (wdone, c, ws, sent) \<Rightarrow>
                (let sock = sock\<lparr>s_writes := ws, s_sent := sent\<rparr> in
                 if \<not> wdone then Return (None, c, sock)
                 else case read_loop fails c (s_reads sock) of
                   Blocked \<Rightarrow> Blocked
                 | Undefined \<Rightarrow> Undefined
                 | Return (reply, c, xs) \<Rightarrow> Return (reply, c, sock\<lparr>s_reads := xs\<rparr>))))"

definition redisAppendFormatted :: "string \<Rightarrow> redisContext \<Rightarrow> redisContext" where
  "redisAppendFormatted cmd c = c\<lparr>c_obuf := c_obuf c @ cmd\<rparr>"

definition redisvAppendCommand :: "string \<Rightarrow> farg list \<Rightarrow> redisContext \<Rightarrow> (bool \<times> redisContext) option" where
  "redisvAppendCommand format args c =
    (case redisFormatCommand format args of
       Missing_argument \<Rightarrow> None
     | Format_error \<Rightarrow> Some (False, redisSetError REDIS_ERR_OTHER ''Invalid format string'' c)
     | Formatted argv \<Rightarrow> Some (True, redisAppendFormatted (resp argv) c))"

text \<open>\<open>redisCommand\<close> of the library: append a command, flush and wait for its reply.\<close>

definition redisvCommand ::
    "(nat \<Rightarrow> bool) \<Rightarrow> string \<Rightarrow> farg list \<Rightarrow> redisContext \<Rightarrow> socket \<Rightarrow> (nat option \<times> redisContext \<times> socket) io" where
  "redisvCommand fails format args c sock =
    (case redisvAppendCommand format args c of
       None \<Rightarrow> Undefined
     | Some (good, c) \<Rightarrow> if good then redisGetReply fails c sock else Return (None, c, sock))"

text \<open>The replies of a pipeline, one call of \<open>redisGetReply\<close> each.\<close>

fun get_replies :: "(nat \<Rightarrow> bool) \<Rightarrow> nat \<Rightarrow> redisContext \<Rightarrow> socket \<Rightarrow> (nat list \<times> redisContext \<times> socket) io" where
  "get_replies fails 0 c sock = Return ([], c, sock)"
| "get_replies fails (Suc n) c sock =
    (case redisGetReply fails c sock of
       Return (Some a, c, sock) \<Rightarrow>
         (case get_replies fails n c sock of
            Return (as, c, sock) \<Rightarrow> Return (a # as, c, sock)
          | Blocked \<Rightarrow> Blocked
          | Undefined \<Rightarrow> Undefined)
     | Return (None, c, sock) \<Rightarrow> Return ([], c, sock)
     | Blocked \<Rightarrow> Blocked
     | Undefined \<Rightarrow> Undefined)"

subsection \<open>Writing\<close>

lemma write_loop_all:
  "c_err c = 0 \<Longrightarrow> length (c_obuf c) \<le> sum_list ks \<Longrightarrow>
   \<exists>ks'. write_loop c (map Took ks) sent = Return (True, c\<lparr>c_obuf := []\<rparr>, map Took ks', sent @ c_obuf c)"
proof (induction ks arbitrary: c sent)
  case Nil
  then show ?case by (subst write_loop.simps) simp
next
  case (Cons k ks)
  show ?case
  proof (cases "c_obuf c = []")
    case True
    then show ?thesis using Cons.prems by (subst write_loop.simps) (auto intro: exI [of _ "k # ks"])
  next
    case False
    have "length (c_obuf (c\<lparr>c_obuf := drop k (c_obuf c)\<rparr>)) \<le> sum_list ks" using Cons.prems(2) by simp
    from Cons.IH [OF _ this, of "sent @ take k (c_obuf c)"] Cons.prems(1) False show ?thesis
      by (subst write_loop.simps) (simp add: redisBufferWrite_def)
  qed
qed

subsection \<open>Reading in pieces\<close>

definition armed :: "redisReader \<Rightarrow> redisReader" where
  "armed r = (if r_stack r = [] then
     r\<lparr>r_stack := [\<lparr>t_type = None, t_elements = - 1, t_idx = - 1, t_obj = None\<rparr>]\<rparr> else r)"

definition view :: "redisReader \<Rightarrow> redisReader" where
  "view r = shift (r_pos r) r"

text \<open>With \<open>rest\<close> still to come, the reader is going to end in the state \<open>F\<close>.\<close>

definition heading :: "string \<Rightarrow> redisReader \<Rightarrow> redisReader \<Rightarrow> bool" where
  "heading rest r F \<longleftrightarrow> r_err r = 0 \<and> room rest r \<and> r_err F = 0 \<and> r_stack F = [] \<and>
     map_option view (process_items no_fails (fed rest (armed r))) = Some F"

lemma armed_sel [simp]:
  "r_buf (armed r) = r_buf r" "r_pos (armed r) = r_pos r" "r_err (armed r) = r_err r" "r_heap (armed r) = r_heap r"
  "r_fresh (armed r) = r_fresh r" "r_stack (armed r) \<noteq> []" "room b (armed r) = room b r" "unread (armed r) = unread r"
  "armed (fed b r) = fed b (armed r)"
  by (simp_all add: armed_def)

lemma fed_Nil [simp]: "fed [] r = r"
  by (simp add: fed_def)

lemma heading_fed: "heading (b @ rest) r F \<Longrightarrow> heading rest (fed b r) F"
  by (auto simp: heading_def room_def unread_def)

lemma processItem_wait_pos: "processItem fails r = Some (False, r') \<Longrightarrow> r_err r' = 0 \<Longrightarrow>
    r_buf r' = r_buf r \<and> r_pos r \<le> r_pos r' \<and> (r_pos r \<le> length (r_buf r) \<longrightarrow> r_pos r' \<le> length (r_buf r))"
  by (auto simp: processItem_def readBytes_def redisReaderSetErrorProtocolByte_def unread_def
    simp del: type_byte.simps split: list.splits option.splits if_splits dest!: process_typed_waits)

lemma process_items_room:
  "room b r \<Longrightarrow> process_items fails r = Some r' \<Longrightarrow> r_err r' = 0 \<Longrightarrow> room b r' \<and> r_pos r \<le> r_pos r'"
proof (induction fails r rule: process_items.induct)
  case (1 fails r)
  show ?case
  proof (cases "r_stack r = []")
    case True
    with "1.prems" show ?thesis by (simp add: process_items.simps [of fails r])
  next
    case False
    then obtain good q where q: "processItem fails r = Some (good, q)"
      using "1.prems" by (auto simp: process_items.simps [of fails r] split: option.splits)
    show ?thesis
    proof (cases good)
      case True
      have "room b q" "r_pos r \<le> r_pos q"
        using room_progress [OF "1.prems"(1) processItem_progress] processItem_progress [of fails r q] q True
        by (simp_all add: progress_def)
      then show ?thesis
        using "1.IH" [OF False q refl] True "1.prems"(2,3) False q by (simp add: process_items.simps [of fails r])
    next
      case bad: False
      then have "q = r'" using "1.prems"(2) False q by (simp add: process_items.simps [of fails r])
      then show ?thesis
        using processItem_wait_pos [of fails r q] q bad "1.prems"(1,3) by (auto simp: room_def unread_def)
    qed
  qed
qed

lemma no_bytes:
  assumes "unread r = []" "room [] r" "r_stack r \<noteq> []" "process_items fails r = Some r'" "r_err r' = 0"
  shows "r_stack r' \<noteq> []"
proof -
  have "\<forall>q. processItem fails r \<noteq> Some (True, q)"
    using assms(1) by (auto dest!: processItem_progress simp: progress_def unread_def)
  then have "processItem fails r = Some (False, r')"
    using assms(3,4) by (auto simp: process_items.simps [of fails r] split: option.splits if_splits)
  with processItem_waits [OF assms(2)] assms(5) show ?thesis by simp
qed

subsection \<open>One reply\<close>

lemma view_shift: "k \<le> r_pos r \<Longrightarrow> view (shift k r) = view r"
  by (simp add: view_def shift_def)

lemma shift_fed: "k \<le> r_pos r \<Longrightarrow> room b r \<Longrightarrow> fed b (shift k r) = shift k (fed b r)"
  by (simp add: fed_def shift_def room_def)

lemma room_shift: "k \<le> r_pos r \<Longrightarrow> room b r \<Longrightarrow> room b (shift k r)"
  by (auto simp: room_def)

text \<open>Forgetting what was read does not change where the reader is heading.\<close>

lemma heading_shift:
  assumes "heading rest r F" "k \<le> r_pos r" "r_stack r \<noteq> []"
  shows "heading rest (shift k r) F"
proof -
  have a: "armed r = r" "armed (shift k r) = shift k r" using assms(3) by (simp_all add: armed_def)
  have room: "room rest r" using assms(1) by (simp add: heading_def)
  obtain q where q: "process_items no_fails (fed rest r) = Some q" "view q = F"
    using assms(1) a by (auto simp: heading_def)
  have "room [] (fed rest r)" using room by (auto simp: room_def unread_def)
  moreover have "r_err q = 0" using q(2) assms(1) by (auto simp: heading_def view_def)
  ultimately have "r_pos r \<le> r_pos q" using process_items_room [OF _ q(1)] by simp
  then have "view (shift k q) = F" using assms(2) q(2) by (simp add: view_shift)
  then show ?thesis
    using assms room_shift [OF assms(2) room] process_items_shift [of k "fed rest r" no_fails] q(1)
    by (simp add: heading_def a shift_fed [OF assms(2) room])
qed

text \<open>The reader after a reply was taken, with \<open>b\<close> unread.\<close>

definition at_rest :: "redisReader \<Rightarrow> bool" where
  "at_rest r \<longleftrightarrow> r_err r = 0 \<and> r_stack r = [] \<and> r_reply r = None \<and> r_pos r \<le> length (r_buf r)"

lemma get_step:
  assumes "heading rest r F"
  shows "(\<exists>r'. redisReaderGetReply no_fails r = Some (True, None, r') \<and> heading rest r' F \<and> rest \<noteq> []) \<or>
    (\<exists>r'. redisReaderGetReply no_fails r = Some (True, r_reply F, r') \<and> at_rest r' \<and> unread r' @ rest = r_buf F \<and>
       r_heap r' = r_heap F \<and> r_fresh r' = r_fresh F)"
proof -
  have h: "r_err r = 0" "room rest r" "room rest (armed r)" using assms by (simp_all add: heading_def)
  obtain q where q: "process_items no_fails (fed rest (armed r)) = Some q" "view q = F" "r_err q = 0" "r_stack q = []"
    using assms by (auto simp: heading_def view_def)
  show ?thesis
  proof (cases "r_buf r = []")
    case True
    then have "rest \<noteq> []"
      using no_bytes [of "armed r" no_fails q] q h by (auto simp: unread_def room_def)
    with True h assms show ?thesis by (simp add: redisReaderGetReply_def)
  next
    case False
    have "\<not> failed (process_items no_fails (armed r))"
      using process_items_failed [OF h(3), of no_fails] q h(1) by (auto simp: failed_def)
    then obtain r1 where r1: "process_items no_fails (armed r) = Some r1" "r_err r1 = 0"
      by (auto simp: failed_def split: option.splits)
    have fed: "process_items no_fails (fed rest r1) = Some q"
      using process_items_fed [OF h(3) r1] q(1) by simp
    have room1: "room rest r1" using process_items_room [OF h(3) r1] by simp
    define k where "k = (if r_pos r1 \<ge> 1024 then r_pos r1 else 0)"
    have k: "k \<le> r_pos r1" "shift k r1 = (if r_pos r1 \<ge> 1024 then r1\<lparr>r_buf := drop (r_pos r1) (r_buf r1), r_pos := 0\<rparr> else r1)"
      by (simp_all add: k_def shift_def)
    have get: "redisReaderGetReply no_fails r = (if r_stack r1 = [] then Some (True, r_reply r1, (shift k r1)\<lparr>r_reply := None\<rparr>)
        else Some (True, None, shift k r1))"
      using False h(1) r1 unfolding redisReaderGetReply_def armed_def [symmetric] Let_def k(2) [symmetric]
      by (simp add: k(2))
    show ?thesis
    proof (cases "r_stack r1 = []")
      case True
      then have "q = fed rest r1" using fed by (simp add: process_items.simps)
      then have "F = shift (r_pos r1) (fed rest r1)" using q(2) by (simp add: view_def)
      with True get k(1) room1 r1(2) show ?thesis
        by (simp add: at_rest_def unread_def room_def) (metis diff_le_mono)
    next
      case busy: False
      have "heading rest r1 F" using busy r1(2) room1 fed q by (auto simp: heading_def armed_def view_def)
      moreover have "rest \<noteq> []" using busy q(4) fed r1(1) q(1) by auto
      ultimately show ?thesis using busy get heading_shift [OF _ k(1) busy] by simp
    qed
  qed
qed

lemma read_loop_reply:
  assumes "c_err c = 0" "heading (concat ps) (c_reader c) F" "r_reply F = Some a" "concat ps \<noteq> []" "[] \<notin> set ps"
  shows "\<exists>r' pre ps'. read_loop no_fails c (map Got ps) = Return (Some a, c\<lparr>c_reader := r'\<rparr>, map Got ps') \<and>
    at_rest r' \<and> unread r' @ concat ps' = r_buf F \<and> r_heap r' = r_heap F \<and> r_fresh r' = r_fresh F \<and>
    ps = pre @ ps'"
  using assms
proof (induction ps arbitrary: c)
  case (Cons b ps)
  let ?r = "fed b (c_reader c)"
  have e: "r_err (c_reader c) = 0" using Cons.prems(2) by (simp add: heading_def)
  have rd: "redisBufferRead (Got b) c = (True, c\<lparr>c_reader := ?r\<rparr>)"
    using Cons.prems(1,5) e by (auto simp: redisBufferRead_def redisReaderFeed_def fed_def)
  have "heading (concat ps) ?r F" using heading_fed Cons.prems(2) by simp
  from get_step [OF this] show ?case
  proof (elim disjE exE conjE)
    fix r' assume r': "redisReaderGetReply no_fails ?r = Some (True, None, r')" "heading (concat ps) r' F" "concat ps \<noteq> []"
    have "read_loop no_fails c (map Got (b # ps)) = read_loop no_fails (c\<lparr>c_reader := r'\<rparr>) (map Got ps)"
      using Cons.prems(1) rd r'(1) by (subst read_loop.simps) (simp add: redisGetReplyFromReader_def)
    moreover have "\<exists>r'' pre ps'. read_loop no_fails (c\<lparr>c_reader := r'\<rparr>) (map Got ps) =
        Return (Some a, c\<lparr>c_reader := r''\<rparr>, map Got ps') \<and> at_rest r'' \<and> unread r'' @ concat ps' = r_buf F \<and>
        r_heap r'' = r_heap F \<and> r_fresh r'' = r_fresh F \<and> ps = pre @ ps'"
      using Cons.IH [of "c\<lparr>c_reader := r'\<rparr>"] Cons.prems r'(2,3) by simp
    ultimately show ?case by (metis append_Cons)
  next
    fix r' assume r': "redisReaderGetReply no_fails ?r = Some (True, r_reply F, r')" "at_rest r'"
      "unread r' @ concat ps = r_buf F" "r_heap r' = r_heap F" "r_fresh r' = r_fresh F"
    have "read_loop no_fails c (map Got (b # ps)) = Return (Some a, c\<lparr>c_reader := r'\<rparr>, map Got ps)"
      using Cons.prems(1,3) rd r'(1) by (subst read_loop.simps) (simp add: redisGetReplyFromReader_def)
    with r'(2-5) show ?case by (intro exI [of _ r'] exI [of _ "[b]"] exI [of _ ps]) simp
  qed
qed simp

lemma heading_reply:
  assumes "at_rest r" "unread r @ rest = reply_bytes v @ t" "readable 8 v" "length (unread r @ rest) < 2 ^ 31"
  shows "\<exists>F. heading rest r F \<and> r_reply F = Some (r_fresh r) \<and> r_buf F = t \<and> r_fresh r \<le> r_fresh F \<and>
    reply_at (r_heap F) {r_fresh r..<r_fresh F} (r_fresh r) v \<and> (\<forall>x < r_fresh r. r_heap F x = r_heap r x)"
proof -
  have room: "room rest r" "room [] (fed rest (armed r))"
    using assms by (auto simp: room_def at_rest_def unread_def)
  have "r_stack (armed r) = [\<lparr>t_type = None, t_elements = - 1, t_idx = - 1, t_obj = None\<rparr>]"
    using assms(1) by (simp add: armed_def at_rest_def)
  then obtain r' where r': "process_items no_fails (fed rest (armed r)) = Some r'" "r_stack r' = []" "unread r' = t"
      "r_err r' = 0" "r_reply r' = Some (r_fresh r)" "r_fresh r \<le> r_fresh r'"
      "reply_at (r_heap r') {r_fresh r..<r_fresh r'} (r_fresh r) v" "\<forall>x < r_fresh r. r_heap r' x = r_heap r x"
    using reply_read [of "fed rest (armed r)" _ v t] assms room unread_fed [of rest "armed r"] by (auto simp: at_rest_def)
  then show ?thesis
    using assms(1) room by (intro exI [of _ "view r'"]) (simp add: heading_def view_def unread_def at_rest_def)
qed

subsection \<open>Calls\<close>

text \<open>A connection between two calls: \<open>stream\<close> is what is unread or will arrive, in whatever pieces, and the
  socket is going to take the output buffer.\<close>

definition between :: "redisContext \<Rightarrow> socket \<Rightarrow> string \<Rightarrow> bool" where
  "between c sock stream \<longleftrightarrow> c_err c = 0 \<and> at_rest (c_reader c) \<and>
    (\<exists>ps ks. s_reads sock = map Got ps \<and> [] \<notin> set ps \<and> unread (c_reader c) @ concat ps = stream \<and>
       s_writes sock = map Took ks \<and> length (c_obuf c) \<le> sum_list ks)"

lemma between_end: "between c sock [] \<Longrightarrow> s_reads sock = [] \<and> unread (c_reader c) = []"
  by (auto simp: between_def) (metis list.set_intros(1) neq_Nil_conv)

text \<open>New objects represent \<open>v\<close>, and the old ones are as before.\<close>

definition delivered :: "redisReader \<Rightarrow> nat \<Rightarrow> redisReply \<Rightarrow> redisReader \<Rightarrow> bool" where
  "delivered r a v r' \<longleftrightarrow> r_fresh r \<le> r_fresh r' \<and> reply_at (r_heap r') {r_fresh r..<r_fresh r'} a v \<and>
     (\<forall>x < r_fresh r. r_heap r' x = r_heap r x)"

lemma reply_bytes_nonempty: "reply_bytes v \<noteq> []"
  by (cases v) (simp_all add: bulk_def)

lemma redisGetReply_reply:
  assumes "between c sock (reply_bytes v @ t)" "readable 8 v" "length (reply_bytes v @ t) < 2 ^ 31"
  shows "\<exists>a c' sock'. redisGetReply no_fails c sock = Return (Some a, c', sock') \<and> between c' sock' t \<and>
    delivered (c_reader c) a v (c_reader c') \<and>
    (unread (c_reader c) = [] \<longrightarrow> c_obuf c' = [] \<and> s_sent sock' = s_sent sock @ c_obuf c)"
proof -
  obtain ps ks where s: "s_reads sock = map Got ps" "[] \<notin> set ps" "unread (c_reader c) @ concat ps = reply_bytes v @ t"
      "s_writes sock = map Took ks" "length (c_obuf c) \<le> sum_list ks" "c_err c = 0" "at_rest (c_reader c)"
    using assms(1) by (auto simp: between_def)
  obtain F where F: "heading (concat ps) (c_reader c) F" "r_reply F = Some (r_fresh (c_reader c))" "r_buf F = t"
      "r_fresh (c_reader c) \<le> r_fresh F" "reply_at (r_heap F) {r_fresh (c_reader c)..<r_fresh F} (r_fresh (c_reader c)) v"
      "\<forall>x < r_fresh (c_reader c). r_heap F x = r_heap (c_reader c) x"
    using heading_reply [OF s(7,3) assms(2)] assms(3) s(3) by auto
  from get_step [OF F(1)] show ?thesis
  proof (elim disjE exE conjE)
    fix r' assume r': "redisReaderGetReply no_fails (c_reader c) = Some (True, None, r')" "heading (concat ps) r' F" "concat ps \<noteq> []"
    let ?c = "c\<lparr>c_reader := r', c_obuf := []\<rparr>"
    obtain ks' where w: "write_loop (c\<lparr>c_reader := r'\<rparr>) (map Took ks) (s_sent sock) =
        Return (True, ?c, map Took ks', s_sent sock @ c_obuf c)"
      using write_loop_all [of "c\<lparr>c_reader := r'\<rparr>" ks "s_sent sock"] s(5,6) by auto
    obtain r'' pre ps' where rd: "read_loop no_fails ?c (map Got ps) =
        Return (Some (r_fresh (c_reader c)), ?c\<lparr>c_reader := r''\<rparr>, map Got ps')"
        "at_rest r''" "unread r'' @ concat ps' = r_buf F" "r_heap r'' = r_heap F" "r_fresh r'' = r_fresh F" "ps = pre @ ps'"
      using read_loop_reply [of ?c ps F "r_fresh (c_reader c)"] s(2,6) r'(2,3) F(2) by auto
    show ?thesis
      using r'(1) w rd s F
      by (intro exI [of _ "r_fresh (c_reader c)"] exI [of _ "?c\<lparr>c_reader := r''\<rparr>"]
          exI [of _ "sock\<lparr>s_reads := map Got ps', s_writes := map Took ks', s_sent := s_sent sock @ c_obuf c\<rparr>"])
        (auto simp: redisGetReply_def redisGetReplyFromReader_def between_def delivered_def)
  next
    fix r' assume r': "redisReaderGetReply no_fails (c_reader c) = Some (True, r_reply F, r')" "at_rest r'"
      "unread r' @ concat ps = r_buf F" "r_heap r' = r_heap F" "r_fresh r' = r_fresh F"
    have "unread (c_reader c) \<noteq> []"
      using r'(3) s(3) F(3) reply_bytes_nonempty [of v] by (metis append_assoc append_self_conv2 append_is_Nil_conv)
    then show ?thesis
      using r' s F
      by (intro exI [of _ "r_fresh (c_reader c)"] exI [of _ "c\<lparr>c_reader := r'\<rparr>"] exI [of _ sock])
        (auto simp: redisGetReply_def redisGetReplyFromReader_def between_def delivered_def)
  qed
qed

lemma get_replies_list:
  assumes "between c sock (concat (map reply_bytes vs) @ t)" "list_all (readable 8) vs"
    "length (concat (map reply_bytes vs) @ t) < 2 ^ 31"
  shows "\<exists>as c' sock'. get_replies no_fails (length vs) c sock = Return (as, c', sock') \<and> between c' sock' t \<and>
    r_fresh (c_reader c) \<le> r_fresh (c_reader c') \<and>
    list_all2 (reply_at (r_heap (c_reader c')) {r_fresh (c_reader c)..<r_fresh (c_reader c')}) as vs \<and>
    (\<forall>x < r_fresh (c_reader c). r_heap (c_reader c') x = r_heap (c_reader c) x)"
  using assms
proof (induction vs arbitrary: c sock)
  case (Cons v vs)
  obtain a c1 sock1 where 1: "redisGetReply no_fails c sock = Return (Some a, c1, sock1)"
      "between c1 sock1 (concat (map reply_bytes vs) @ t)" "delivered (c_reader c) a v (c_reader c1)"
    using redisGetReply_reply [of c sock v "concat (map reply_bytes vs) @ t"] Cons.prems by auto
  obtain as c' sock' where 2: "get_replies no_fails (length vs) c1 sock1 = Return (as, c', sock')" "between c' sock' t"
      "r_fresh (c_reader c1) \<le> r_fresh (c_reader c')"
      "list_all2 (reply_at (r_heap (c_reader c')) {r_fresh (c_reader c1)..<r_fresh (c_reader c')}) as vs"
      "\<forall>x < r_fresh (c_reader c1). r_heap (c_reader c') x = r_heap (c_reader c1) x"
    using Cons.IH [OF 1(2)] Cons.prems(2,3) by auto
  have "reply_at (r_heap (c_reader c')) {r_fresh (c_reader c)..<r_fresh (c_reader c')} a v"
    by (rule reply_at_frame [of "r_heap (c_reader c1)" "{r_fresh (c_reader c)..<r_fresh (c_reader c1)}"])
      (use 1(3) 2(3,5) in \<open>auto simp: delivered_def\<close>)
  moreover have "list_all2 (reply_at (r_heap (c_reader c')) {r_fresh (c_reader c)..<r_fresh (c_reader c')}) as vs"
    using 2(4) by (rule list_all2_mono) (erule reply_at_mono; use 1(3) in \<open>simp add: delivered_def\<close>)
  ultimately show ?case
    using 1 2 by (intro exI [of _ "a # as"] exI [of _ c'] exI [of _ sock']) (auto simp: delivered_def)
qed simp

text \<open>A connection without anything in either direction.\<close>

definition quiet_context :: "redisContext \<Rightarrow> bool" where
  "quiet_context c \<longleftrightarrow> c_err c = 0 \<and> c_obuf c = [] \<and> at_rest (c_reader c) \<and> unread (c_reader c) = []"

text \<open>C11: the call of a Redis command over a socket. The request that \<open>redisvCommand\<close> sends is decoded
  by the server as the argument vector of the command, and nothing else; when the server writes a reply, the
  client returns objects that represent exactly this reply, whatever pieces the network and the two buffers cut
  the bytes into. The connection is ready for the next command afterwards, and replies that were returned
  before are untouched.\<close>

theorem redis_call:
  assumes "quiet_context c" "redisFormatCommand format args = Formatted argv"
    and "argv \<noteq> []" "length argv \<le> 1024 * 1024" "\<forall>a \<in> set argv. int (length a) \<le> proto_max_bulk_len"
    and "sendable_reply v" "readable 8 v" "reply_to [] v = Some stream" "length stream < 2 ^ 31"
    and "concat ps = stream" "[] \<notin> set ps" "length (resp argv) \<le> sum_list ks"
  shows "\<exists>a c' sock'.
    redisvCommand no_fails format args c \<lparr>s_reads = map Got ps, s_writes = map Took ks, s_sent = []\<rparr> = Return (Some a, c', sock') \<and>
    processMultibulkBuffer (s_sent sock') = Complete argv [] \<and> s_reads sock' = [] \<and>
    reply_at (r_heap (c_reader c')) UNIV a v \<and> quiet_context c' \<and>
    (\<forall>x < r_fresh (c_reader c). r_heap (c_reader c') x = r_heap (c_reader c) x)"
proof -
  let ?sock = "\<lparr>s_reads = map Got ps, s_writes = map Took ks, s_sent = []\<rparr>"
  have st: "stream = reply_bytes v" using reply_to_bytes(1) [OF assms(6), of "[]"] assms(8) by simp
  have b: "between (redisAppendFormatted (resp argv) c) ?sock (reply_bytes v @ [])"
    using assms st by (auto simp: between_def quiet_context_def redisAppendFormatted_def)
  obtain a c' sock' where g: "redisGetReply no_fails (redisAppendFormatted (resp argv) c) ?sock = Return (Some a, c', sock')"
      "between c' sock' []" "delivered (c_reader c) a v (c_reader c')" "c_obuf c' = []" "s_sent sock' = resp argv"
    using redisGetReply_reply [OF b assms(7)] assms(1,9) st by (auto simp: redisAppendFormatted_def quiet_context_def)
  have "processMultibulkBuffer (s_sent sock') = Complete argv []"
    using processMultibulkBuffer_resp [OF assms(3-5), of "[]"] g(5) by simp
  moreover have "reply_at (r_heap (c_reader c')) UNIV a v"
    using g(3) by (auto simp: delivered_def intro: reply_at_mono)
  moreover have "s_reads sock' = []" "quiet_context c'"
    using between_end [OF g(2)] g(2,4) by (simp_all add: between_def quiet_context_def)
  ultimately show ?thesis using g(1,3) assms(2) by (auto simp: redisvCommand_def redisvAppendCommand_def delivered_def)
qed

text \<open>C15: pipelined replies. From the bytes that the server wrote for several replies one after the
  other, arriving in any pieces, the same number of calls of \<open>redisGetReply\<close> returns the replies in their
  order; no byte of one reply is taken for another.\<close>

theorem reply_stream:
  assumes "c_err c = 0" "at_rest (c_reader c)" "unread (c_reader c) = []" "length (c_obuf c) \<le> sum_list ks"
    and "list_all sendable_reply vs" "list_all (readable 8) vs" "replies_to [] vs = Some stream" "length stream < 2 ^ 31"
    and "concat ps = stream" "[] \<notin> set ps"
  shows "\<exists>as c' sock'.
    get_replies no_fails (length vs) c \<lparr>s_reads = map Got ps, s_writes = map Took ks, s_sent = sent\<rparr> = Return (as, c', sock') \<and>
    list_all2 (reply_at (r_heap (c_reader c')) UNIV) as vs \<and> s_reads sock' = [] \<and> c_err c' = 0 \<and> at_rest (c_reader c')"
proof -
  let ?sock = "\<lparr>s_reads = map Got ps, s_writes = map Took ks, s_sent = sent\<rparr>"
  have st: "stream = concat (map reply_bytes vs)" using reply_to_bytes(2) [OF assms(5), of "[]"] assms(7) by simp
  have "between c ?sock (concat (map reply_bytes vs) @ [])" using assms st by (auto simp: between_def)
  from get_replies_list [OF this assms(6)] assms(8) st obtain as c' sock' where
      g: "get_replies no_fails (length vs) c ?sock = Return (as, c', sock')" "between c' sock' []"
      "list_all2 (reply_at (r_heap (c_reader c')) {r_fresh (c_reader c)..<r_fresh (c_reader c')}) as vs"
    by auto
  have "list_all2 (reply_at (r_heap (c_reader c')) UNIV) as vs"
    using g(3) by (rule list_all2_mono) (erule reply_at_mono, simp)
  moreover have "s_reads sock' = []" "c_err c' = 0" "at_rest (c_reader c')"
    using between_end [OF g(2)] g(2) by (simp_all add: between_def)
  ultimately show ?thesis using g(1) by blast
qed

text \<open>The number of elements of an array is stored in an \<open>int\<close>: a server that announces \<open>2 ^ 32\<close> elements
  makes the reader enter the first of them into an array that has none.\<close>

lemma array_count_truncated:
  "redisReaderGetReply no_fails (fed (''*4294967296'' @ CRLF @ ''+OK'' @ CRLF) redisReaderCreate) = None"
  by code_simp

text \<open>An array with a text that contains a line end and an integer, arriving byte by byte.\<close>

definition sample_reply :: redisReply where
  "sample_reply = R_ARRAY [R_STRING (''a'' @ CRLF), R_INTEGER (- 42), R_NIL]"

lemma sample_facts:
  "sendable_reply sample_reply" "readable 8 sample_reply" "length (reply_bytes sample_reply) < 2 ^ 31"
  "quiet_context redisContextInit" "redisFormatCommand ''lrange %s 0 2'' [Str ''k''] = Formatted [''lrange'', ''k'', ''0'', ''2'']"
  "length (resp [''lrange'', ''k'', ''0'', ''2'']) \<le> 100"
  by (simp_all add: sample_reply_def bulk_def CRLF_def show_int_def show_nat.simps resp_def redisFormatCommand_def
    quiet_context_def redisContextInit_def redisReaderCreate_def at_rest_def unread_def)

lemma concat_bytes: "concat (map (\<lambda>c. [c]) s) = s" "[] \<notin> (\<lambda>c. [c]) ` set s"
  by (induction s) auto

theorem redis_call_witness:
  "\<exists>a c' sock'.
    redisvCommand no_fails ''lrange %s 0 2'' [Str ''k''] redisContextInit
      \<lparr>s_reads = map Got (map (\<lambda>c. [c]) (reply_bytes sample_reply)), s_writes = map Took [3, 97], s_sent = []\<rparr> =
      Return (Some a, c', sock') \<and>
    processMultibulkBuffer (s_sent sock') = Complete [''lrange'', ''k'', ''0'', ''2''] [] \<and> s_reads sock' = [] \<and>
    reply_at (r_heap (c_reader c')) UNIV a sample_reply \<and> quiet_context c' \<and>
    (\<forall>x < r_fresh (c_reader redisContextInit). r_heap (c_reader c') x = r_heap (c_reader redisContextInit) x)"
  by (rule redis_call [OF sample_facts(4,5) _ _ _ sample_facts(1,2) _ sample_facts(3)])
    (use sample_facts(1,6) reply_to_bytes(1) [of sample_reply "[]"] in
      \<open>simp_all add: proto_max_bulk_len_def concat_bytes\<close>)

theorem reply_stream_witness:
  "\<exists>as c' sock'.
    get_replies no_fails (length [R_STATUS ''OK'', sample_reply]) redisContextInit
      \<lparr>s_reads = map Got [reply_bytes (R_STATUS ''OK'') @ reply_bytes sample_reply], s_writes = map Took [], s_sent = []\<rparr> =
      Return (as, c', sock') \<and>
    list_all2 (reply_at (r_heap (c_reader c')) UNIV) as [R_STATUS ''OK'', sample_reply] \<and> s_reads sock' = [] \<and>
    c_err c' = 0 \<and> at_rest (c_reader c')"
proof (rule reply_stream)
  show "replies_to [] [R_STATUS ''OK'', sample_reply] = Some (reply_bytes (R_STATUS ''OK'') @ reply_bytes sample_reply)"
    using reply_to_bytes(2) [of "[R_STATUS ''OK'', sample_reply]" "[]"] sample_facts(1) by simp
  show "length (reply_bytes (R_STATUS ''OK'') @ reply_bytes sample_reply) < 2 ^ 31"
    by (simp add: sample_reply_def bulk_def CRLF_def show_int_def show_nat.simps)
qed (use sample_facts in \<open>simp_all add: quiet_context_def\<close>)

end
