(* ===== verification/Redis_Wire.thy ===== *)
theory Redis_Wire
  imports Redis_Context Session
begin

text \<open>
  The laws that the programs rely on (locale \<open>redis_server\<close>) hold of the client library and the server working
  together: a command is formatted and written by the client, decoded, executed and answered by the server,
  and the reply is read back in the pieces into which the network cuts it (locale \<open>network\<close>). The
  interpretation \<open>sixteen_k\<close> is the connection whose reads fill the 16 KB array of \<open>redisBufferRead\<close>.
\<close>

subsection \<open>The reply as a value\<close>

fun reify :: "nat \<Rightarrow> (nat \<Rightarrow> reply_object option) \<Rightarrow> nat \<Rightarrow> redisReply option" where
  "reify 0 h a = None"
| "reify (Suc n) h a =
    (case h a of
       None \<Rightarrow> None
     | Some ob \<Rightarrow>
         (case o_type ob of
            T_STRING \<Rightarrow> map_option R_STRING (o_str ob)
          | T_STATUS \<Rightarrow> map_option R_STATUS (o_str ob)
          | T_ERROR \<Rightarrow> map_option R_ERROR (o_str ob)
          | T_INTEGER \<Rightarrow> Some (R_INTEGER (o_integer ob))
          | T_NIL \<Rightarrow> Some R_NIL
          | T_ARRAY \<Rightarrow>
              map_option R_ARRAY (those (map (\<lambda>e. case e of None \<Rightarrow> None | Some c \<Rightarrow> reify n h c) (o_element ob)))))"

lemma those_map: "list_all2 (\<lambda>e r. f e = Some r) es rs \<Longrightarrow> those (map f es) = Some rs"
  by (induction rule: list_all2_induct) auto

lemma reify_reply: "reply_at h D a v \<Longrightarrow> readable n v \<Longrightarrow> reify (Suc n) h a = Some v"
proof (induction v arbitrary: n a)
  case (R_ARRAY rs)
  obtain ob where ob: "h a = Some ob" "ob = array_object (length rs) (o_element ob)"
      "list_all2 (\<lambda>e r. case e of None \<Rightarrow> False | Some c \<Rightarrow> reply_at h D c r) (o_element ob) rs"
    using R_ARRAY.prems(1) by (auto split: option.splits)
  have ty: "o_type ob = T_ARRAY" by (subst ob(2)) (simp add: array_object_def createReplyObject_def)
  have "list_all2 (\<lambda>e r. (case e of None \<Rightarrow> None | Some c \<Rightarrow> reify n h c) = Some r) (o_element ob) rs"
    using ob(3)
  proof (rule list.rel_mono_strong)
    fix e r assume e: "r \<in> set rs" "case e of None \<Rightarrow> False | Some c \<Rightarrow> reply_at h D c r"
    have "0 < n" "readable (n - 1) r" using R_ARRAY.prems(2) e(1) by (simp_all add: list_all_iff)
    with R_ARRAY.IH [OF e(1), of _ "n - 1"] e(2) show "(case e of None \<Rightarrow> None | Some c \<Rightarrow> reify n h c) = Some r"
      by (cases e) simp_all
  qed
  with ob(1) ty show ?case by (simp add: those_map)
qed (auto simp: string_object_def integer_object_def createReplyObject_def)

subsection \<open>The server at the other end\<close>

text \<open>Stored texts are not longer than a request can carry them.\<close>

fun storable :: "redisReply \<Rightarrow> bool" where
  "storable (R_STRING s) \<longleftrightarrow> int (length s) \<le> proto_max_bulk_len"
| "storable _ \<longleftrightarrow> True"

definition serve :: "keys \<Rightarrow> string \<Rightarrow> (string \<times> keys) option" where
  "serve k querybuf =
    (case processMultibulkBuffer querybuf of
       Complete argv _ \<Rightarrow>
         (case redis_exec argv k of (v, k') \<Rightarrow>
            if storable v then map_option (\<lambda>b. (b, k')) (reply_to [] v) else None)
     | _ \<Rightarrow> None)"

definition wire :: "(string \<Rightarrow> string list) \<Rightarrow> string list \<Rightarrow> redisContext \<times> keys \<Rightarrow>
    redisReply option \<times> (redisContext \<times> keys)" where
  "wire pieces argv x =
    (case x of (c, k) \<Rightarrow>
       if \<not> quiet_context c then (None, x)
       else case serve k (resp argv) of
         None \<Rightarrow> (None, x)
       | Some (stream, k') \<Rightarrow>
           (case redisGetReply no_fails (redisAppendFormatted (resp argv) c)
                \<lparr>s_reads = map Got (pieces stream), s_writes = [Took (length (resp argv))], s_sent = []\<rparr> of
              Return (Some a, c', _) \<Rightarrow> (reify 9 (r_heap (c_reader c')) a, (c', k'))
            | _ \<Rightarrow> (None, (c, k'))))"

lemma string2ll_long: "2 ^ 63 \<le> n \<Longrightarrow> string2ll (show_nat n) = None"
proof -
  assume n: "2 ^ 63 \<le> n"
  obtain c r where c: "show_nat n = c # r" "isdigit c" using show_nat_head by blast
  have "c \<noteq> CHR ''-''" using c digit_not_special by simp
  moreover have "show_nat n \<noteq> ''0''" using read_show_nat [of n] n by (auto simp: read_nat_def digit_value_def code_def)
  ultimately show ?thesis using n c read_show_nat [of n] by (auto simp: string2ll_def Let_def)
qed

text \<open>An argument that is too long is refused.\<close>

lemma read_bulks_long:
  assumes "\<not> list_all (\<lambda>a. int (length a) \<le> proto_max_bulk_len) argv"
  shows "read_bulks (length argv) (concat (map bulk argv) @ r) acc = Protocol_error"
  using assms
proof (induction argv arbitrary: acc)
  case (Cons a argv)
  have sp: "split_line (CHR ''$'' # show_nat (length a) @ CRLF @ a @ CRLF @ concat (map bulk argv) @ r) =
      Some (CHR ''$'' # show_nat (length a), a @ CRLF @ concat (map bulk argv) @ r)"
    by (rule split_line_show) simp_all
  have d: "drop 2 (CRLF @ t) = t" for t by (simp add: CRLF_def)
  show ?case
  proof (cases "int (length a) \<le> proto_max_bulk_len")
    case True
    then have "string2ll (show_nat (length a)) = Some (int (length a))"
      by (intro string2ll_show) (simp add: proto_max_bulk_len_def)
    then show ?thesis using Cons True sp d by (simp add: bulk_def [of a] CRLF_length)
  next
    case False
    then have "string2ll (show_nat (length a)) = None \<or>
        (\<exists>ll. string2ll (show_nat (length a)) = Some ll \<and> ll > proto_max_bulk_len)"
      using string2ll_long [of "length a"] string2ll_show [of "length a"] by (cases "length a < 2 ^ 63") auto
    then show ?thesis using sp by (auto simp: bulk_def [of a])
  qed
qed simp

lemma serve_Some:
  assumes "argv \<noteq> []" "length argv \<le> 1024 * 1024"
  shows "serve k (resp argv) = (case redis_exec argv k of (v, k') \<Rightarrow>
    if list_all (\<lambda>a. int (length a) \<le> proto_max_bulk_len) argv \<and> storable v then map_option (\<lambda>b. (b, k')) (reply_to [] v) else None)"
proof (cases "list_all (\<lambda>a. int (length a) \<le> proto_max_bulk_len) argv")
  case True
  then show ?thesis
    using processMultibulkBuffer_resp [OF assms, of "[]"] by (simp add: serve_def list_all_iff)
next
  case False
  have "split_line (CHR ''*'' # show_nat (length argv) @ CRLF @ concat (map bulk argv)) =
      Some (CHR ''*'' # show_nat (length argv), concat (map bulk argv))"
    by (rule split_line_show) simp_all
  moreover have "string2ll (show_nat (length argv)) = Some (int (length argv))"
    using assms(2) by (intro string2ll_show) simp
  ultimately have "processMultibulkBuffer (resp argv) = Protocol_error"
    using read_bulks_long [OF False, of "[]" "[]"] assms by (simp add: processMultibulkBuffer_def resp_def)
  with False show ?thesis by (simp add: serve_def split_beta)
qed

subsection \<open>The laws of the server hold over the wire\<close>

lemma storable_sent:
  assumes "storable v" "v = R_NIL \<or> v = R_STATUS ''OK'' \<or> (\<exists>s. v = R_STRING s)"
  shows "sendable_reply v" "readable 8 v" "length (reply_bytes v) < 2 ^ 31"
proof -
  have "length (show_nat (length s)) + length s < 2 ^ 31 - 5" if "int (length s) \<le> proto_max_bulk_len" for s :: string
    using show_nat_length [of "length s" 9] that by (simp add: proto_max_bulk_len_def)
  then show "sendable_reply v" "readable 8 v" "length (reply_bytes v) < 2 ^ 31"
    using assms by (auto simp: proto_max_bulk_len_def bulk_def CRLF_length)
qed

locale network =
  fixes pieces :: "string \<Rightarrow> string list"
  assumes pieces_concat: "concat (pieces s) = s"
    and pieces_nonempty: "[] \<notin> set (pieces s)"
begin

lemma wire_reply:
  assumes "quiet_context c" "serve k (resp argv) = Some (reply_bytes v, k')" "readable 8 v" "length (reply_bytes v) < 2 ^ 31"
  shows "\<exists>c'. wire pieces argv (c, k) = (Some v, (c', k')) \<and> quiet_context c'"
proof -
  let ?c = "redisAppendFormatted (resp argv) c"
  let ?s = "\<lparr>s_reads = map Got (pieces (reply_bytes v)), s_writes = [Took (length (resp argv))], s_sent = []\<rparr>"
  have "between ?c ?s (reply_bytes v @ [])"
    using assms(1) pieces_concat [of "reply_bytes v"] pieces_nonempty [of "reply_bytes v"]
    by (auto simp: between_def quiet_context_def redisAppendFormatted_def intro!: exI [of _ "[length (resp argv)]"])
  from redisGetReply_reply [OF this assms(3)] assms(1,4) obtain a c' sock' where
      g: "redisGetReply no_fails ?c ?s = Return (Some a, c', sock')" "between c' sock' []"
      "delivered (c_reader c) a v (c_reader c')" "c_obuf c' = []"
    by (auto simp: redisAppendFormatted_def quiet_context_def)
  have "quiet_context c'" using between_end [OF g(2)] g(2,4) by (simp add: between_def quiet_context_def)
  moreover have "reify 9 (r_heap (c_reader c')) a = Some v"
    using reify_reply [OF _ assms(3)] g(3) by (auto simp: delivered_def)
  ultimately show ?thesis using assms(1,2) g(1) by (simp add: wire_def)
qed

end

sublocale network \<subseteq> redis_server "wire pieces" "\<lambda>a x. (Conn_ok, (redisContextInit, snd x))" snd
proof (unfold_locales, goal_cases)
  case (1 argv x)
  obtain c k where x: "x = (c, k)" by (cases x)
  obtain v k' where v: "redis_exec argv k = (v, k')" by (cases "redis_exec argv k")
  have argv: "argv \<noteq> []" "length argv \<le> 1024 * 1024" using 1 by (cases argv rule: described.cases; simp)+
  have shape: "v = R_NIL \<or> v = R_STATUS ''OK'' \<or> (\<exists>s. v = R_STRING s)"
    using 1 v by (cases argv rule: described.cases) (auto simp: redis_exec_def split: option.splits)
  show ?case
  proof (cases "quiet_context c \<and> list_all (\<lambda>a. int (length a) \<le> proto_max_bulk_len) argv \<and> storable v")
    case True
    note s = storable_sent [OF _ shape]
    have "serve k (resp argv) = Some (reply_bytes v, k')"
      using serve_Some [OF argv, of k] v True s(1) reply_to_bytes(1) [of v "[]"] by simp
    with wire_reply [of c k argv v k'] s True show ?thesis by (auto simp: x v)
  next
    case False
    then have "wire pieces argv x = (None, x)"
      using serve_Some [OF argv, of k] by (auto simp: wire_def x v)
    then show ?thesis by simp
  qed
qed simp

text \<open>Reads that fill the array of \<open>redisBufferRead\<close>.\<close>

interpretation sixteen_k: network "chunks (16 * 1024)"
proof
  show "concat (chunks (16 * 1024) s) = s" for s :: string by (rule concat_chunks) simp
  show "[] \<notin> set (chunks (16 * 1024) s)" for s :: string
  proof (induction "16 * 1024 :: nat" s rule: chunks.induct)
    case (1 s)
    then show ?case by (subst chunks.simps) auto
  qed
qed

end
