(* ===== verification/Make_Log.thy ===== *)
theory Make_Log
  imports Util_Cgi
begin

text \<open>
  The log writer \<^verbatim>\<open>common/make_log.c\<close> over a file system of directories and regular files. A path is the list
  of its components (repeated slashes count as one); \<open>mkdir\<close> and \<open>open\<close> need the parent directory and may
  be denied for a path (parameter \<open>deny\<close>). An open file takes every \<open>write\<close> completely. \<open>log_lines\<close> shows
  that each log file ends up with exactly the lines that were logged for it, in order, in directories that the
  writer creates when they are missing.
\<close>

type_synonym path = "string list"

record log_fs =
  fs_dirs :: "path list"
  fs_files :: "path \<Rightarrow> string option"
  fs_stderr :: string

text \<open>\<open>struct tm\<close>, with the year in full and the month counted from one.\<close>

record tm =
  tm_year :: nat
  tm_mon :: nat
  tm_mday :: nat
  tm_hour :: nat
  tm_min :: nat
  tm_sec :: nat

text \<open>\<open>%0kd\<close> of a number that is not negative.\<close>

definition zero_pad :: "nat \<Rightarrow> nat \<Rightarrow> string" where
  "zero_pad k n = replicate (k - length (show_nat n)) (CHR ''0'') @ show_nat n"

subsection \<open>The calls of the file system\<close>

fun split_path :: "string \<Rightarrow> string \<Rightarrow> path" where
  "split_path [] cur = (if cur = [] then [] else [cur])"
| "split_path (c # s) cur =
    (if c = CHR ''/'' then (if cur = [] then [] else [cur]) @ split_path s [] else split_path s (cur @ [c]))"

definition components :: "string \<Rightarrow> path" where
  "components s = split_path s []"

definition exists_path :: "log_fs \<Rightarrow> path \<Rightarrow> bool" where
  "exists_path s p \<longleftrightarrow> p = [] \<or> p \<in> set (fs_dirs s) \<or> fs_files s p \<noteq> None"

definition is_dir :: "log_fs \<Rightarrow> path \<Rightarrow> bool" where
  "is_dir s p \<longleftrightarrow> p = [] \<or> p \<in> set (fs_dirs s)"

definition complain :: "string \<Rightarrow> log_fs \<Rightarrow> log_fs" where
  "complain msg s = s\<lparr>fs_stderr := fs_stderr s @ msg\<rparr>"

definition mkdir :: "(path \<Rightarrow> bool) \<Rightarrow> string \<Rightarrow> log_fs \<Rightarrow> log_fs option" where
  "mkdir deny name s =
    (let p = components name in
     if exists_path s p \<or> \<not> is_dir s (butlast p) \<or> deny p then None
     else Some (s\<lparr>fs_dirs := p # fs_dirs s\<rparr>))"

definition out_put_file :: "(path \<Rightarrow> bool) \<Rightarrow> string \<Rightarrow> string \<Rightarrow> log_fs \<Rightarrow> log_fs" where
  "out_put_file deny name buf s =
    (let p = components name in
     case fs_files s p of
       Some old \<Rightarrow>
         if deny p then complain (''write error!'' @ [CHR 0x0A]) s
         else s\<lparr>fs_files := (fs_files s)(p \<mapsto> old @ buf)\<rparr>
     | None \<Rightarrow>
         if is_dir s p \<or> \<not> is_dir s (butlast p) \<or> deny p then complain (''write error!'' @ [CHR 0x0A]) s
         else s\<lparr>fs_files := (fs_files s)(p \<mapsto> buf)\<rparr>)"

subsection \<open>The directories of a log file\<close>

text \<open>One of the cascades of \<open>mkdir\<close>: it stops at the first directory that cannot be made.\<close>

fun mkdirs :: "(path \<Rightarrow> bool) \<Rightarrow> string \<Rightarrow> string list \<Rightarrow> log_fs \<Rightarrow> log_fs" where
  "mkdirs deny first [] s = s"
| "mkdirs deny first (d # ds) s =
    (case mkdir deny d s of
       None \<Rightarrow> complain (if d = first then sprintf (''create %s failed!'' @ [CHR 0x0A]) [Str d]
                else sprintf (''%s:create %s failed!'' @ [CHR 0x0A]) [Str first, Str d]) s
     | Some s' \<Rightarrow> mkdirs deny first ds s')"

definition top_dir :: string where "top_dir = ''..''"
definition second_dir :: string where "second_dir = ''../logs''"

definition make_path :: "(path \<Rightarrow> bool) \<Rightarrow> tm \<Rightarrow> string \<Rightarrow> string \<Rightarrow> log_fs \<Rightarrow> (string \<times> log_fs) option" where
  "make_path deny now module_name proc_name s = do {
     let path = take 1023 (''../logs/'' @ module_name @ ''/'' @ zero_pad 4 (tm_year now) @ ''/'' @ zero_pad 2 (tm_mon now) @
       ''/'' @ proc_name @ ''-'' @ zero_pad 2 (tm_mday now) @ ''.log'');
     third_dir \<leftarrow> store 1024 (second_dir @ ''/'' @ module_name);
     y_dir \<leftarrow> store 1024 (third_dir @ ''/'' @ zero_pad 4 (tm_year now) @ ''/'');
     m_dir \<leftarrow> store 1024 (y_dir @ ''/'' @ zero_pad 2 (tm_mon now) @ ''/'');
     Some (path,
       if \<not> exists_path s (components top_dir) then
         mkdirs deny top_dir [top_dir, second_dir, third_dir, y_dir, m_dir] s
       else if \<not> exists_path s (components second_dir) then
         mkdirs deny second_dir [second_dir, third_dir, y_dir, m_dir] s
       else if \<not> exists_path s (components third_dir) then mkdirs deny third_dir [third_dir, y_dir, m_dir] s
       else if \<not> exists_path s (components y_dir) then mkdirs deny y_dir [y_dir, m_dir] s
       else if \<not> exists_path s (components m_dir) then mkdirs deny m_dir [m_dir] s
       else s)
   }"

text \<open>A message with the place it comes from. The clock is read twice, for the stamp and for the path.\<close>

record log_call =
  l_module :: string
  l_proc :: string
  l_file :: string
  l_line :: nat
  l_msg :: string
  l_stamp :: tm
  l_now :: tm

definition log_line :: "log_call \<Rightarrow> string" where
  "log_line l =
    take 4095 (''['' @ zero_pad 4 (tm_year (l_stamp l)) @ ''-'' @ zero_pad 2 (tm_mon (l_stamp l)) @ ''-'' @
      zero_pad 2 (tm_mday (l_stamp l)) @ '' '' @ zero_pad 2 (tm_hour (l_stamp l)) @ '':'' @
      zero_pad 2 (tm_min (l_stamp l)) @ '':'' @ zero_pad 2 (tm_sec (l_stamp l)) @ '']--['' @ l_file l @ '':'' @
      show_nat (l_line l) @ '']--'' @ l_msg l)"

definition dumpmsg_to_file :: "(path \<Rightarrow> bool) \<Rightarrow> log_call \<Rightarrow> log_fs \<Rightarrow> log_fs option" where
  "dumpmsg_to_file deny l s = do {
     _ \<leftarrow> LOG (l_msg l);
     (filepath, s) \<leftarrow> make_path deny (l_now l) (l_module l) (l_proc l) s;
     Some (out_put_file deny filepath (log_line l) s)
   }"

fun log_all :: "(path \<Rightarrow> bool) \<Rightarrow> log_call list \<Rightarrow> log_fs \<Rightarrow> log_fs option" where
  "log_all deny [] s = Some s"
| "log_all deny (l # ls) s = dumpmsg_to_file deny l s \<bind> log_all deny ls"

subsection \<open>Paths\<close>

definition plain :: "string \<Rightarrow> bool" where
  "plain n \<longleftrightarrow> n \<noteq> [] \<and> CHR ''/'' \<notin> set n \<and> n \<noteq> ''.'' \<and> n \<noteq> ''..''"

lemma split_path_word: "CHR ''/'' \<notin> set w \<Longrightarrow> split_path w cur = (if cur @ w = [] then [] else [cur @ w])"
  by (induction w arbitrary: cur) auto

lemma split_path_slash:
  "CHR ''/'' \<notin> set w \<Longrightarrow> split_path (w @ CHR ''/'' # s) cur = (if cur @ w = [] then [] else [cur @ w]) @ split_path s []"
  by (induction w arbitrary: cur) auto

lemma components_word: "CHR ''/'' \<notin> set w \<Longrightarrow> w \<noteq> [] \<Longrightarrow> components w = [w]"
  "components [] = []"
  by (simp_all add: components_def split_path_word)

lemma components_slash: "CHR ''/'' \<notin> set w \<Longrightarrow> w \<noteq> [] \<Longrightarrow> components (w @ CHR ''/'' # s) = w # components s"
  "components (CHR ''/'' # s) = components s"
  by (simp_all add: components_def split_path_slash)

lemma zero_pad_word: "CHR ''/'' \<notin> set (zero_pad k n)" "zero_pad k n \<noteq> []"
proof -
  have "\<not> isdigit (CHR ''/'')" by (simp add: isdigit_def code_def)
  then show "CHR ''/'' \<notin> set (zero_pad k n)" using show_nat_digits [of n] by (auto simp: zero_pad_def)
qed (simp add: zero_pad_def)

lemma zero_pad_length: "n < 10 ^ k \<Longrightarrow> 0 < k \<Longrightarrow> length (zero_pad k n) = k"
  using show_nat_length [of n "k - 1"] by (cases k) (simp_all add: zero_pad_def)

definition log_path :: "log_call \<Rightarrow> path" where
  "log_path l = [''..'', ''logs'', l_module l, zero_pad 4 (tm_year (l_now l)), zero_pad 2 (tm_mon (l_now l)),
     l_proc l @ ''-'' @ zero_pad 2 (tm_mday (l_now l)) @ ''.log'']"

definition sane_call :: "log_call \<Rightarrow> bool" where
  "sane_call l \<longleftrightarrow> plain (l_module l) \<and> plain (l_proc l) \<and> length (l_module l) + length (l_proc l) \<le> 900 \<and>
     tm_year (l_now l) < 10000 \<and> tm_mon (l_now l) < 100 \<and> tm_mday (l_now l) < 100 \<and> length (l_msg l) < 4096"

text \<open>The six names that \<open>make_path\<close> computes, and their components.\<close>

definition t_name :: "log_call \<Rightarrow> string" where
  "t_name l = second_dir @ ''/'' @ l_module l"

definition y_name :: "log_call \<Rightarrow> string" where
  "y_name l = t_name l @ ''/'' @ zero_pad 4 (tm_year (l_now l)) @ ''/''"

definition m_name :: "log_call \<Rightarrow> string" where
  "m_name l = y_name l @ ''/'' @ zero_pad 2 (tm_mon (l_now l)) @ ''/''"

definition file_name :: "log_call \<Rightarrow> string" where
  "file_name l = ''../logs/'' @ l_module l @ ''/'' @ zero_pad 4 (tm_year (l_now l)) @ ''/'' @ zero_pad 2 (tm_mon (l_now l)) @
     ''/'' @ l_proc l @ ''-'' @ zero_pad 2 (tm_mday (l_now l)) @ ''.log''"

lemma dotdot: "components (CHR ''.'' # CHR ''.'' # CHR ''/'' # s) = ''..'' # components s"
  "components (CHR ''l'' # CHR ''o'' # CHR ''g'' # CHR ''s'' # CHR ''/'' # s) = ''logs'' # components s"
  using components_slash(1) [of "''..''" s] components_slash(1) [of "''logs''" s] by simp_all

lemma name_components:
  assumes "sane_call l"
  shows "components top_dir = take 1 (log_path l)" "components second_dir = take 2 (log_path l)"
    "components (t_name l) = take 3 (log_path l)"
    "components (y_name l) = take 4 (log_path l)" "components (m_name l) = take 5 (log_path l)"
    "components (file_name l) = log_path l"
  using assms components_word(1) [of "''..''"] components_word(1) [of "''logs''"] zero_pad_word
  by (simp_all add: sane_call_def plain_def top_dir_def second_dir_def t_name_def y_name_def m_name_def file_name_def log_path_def
    dotdot components_slash components_word)

lemma name_lengths:
  assumes "sane_call l"
  shows "length (t_name l) < 1024" "length (y_name l) < 1024" "length (m_name l) < 1024"
    "length (file_name l) \<le> 1023"
  using assms zero_pad_length [of "tm_year (l_now l)" 4] zero_pad_length [of "tm_mon (l_now l)" 2]
    zero_pad_length [of "tm_mday (l_now l)" 2]
  by (simp_all add: sane_call_def second_dir_def t_name_def y_name_def m_name_def file_name_def)

subsection \<open>The directories are made\<close>

text \<open>Below the directory of the logs there are directories down to the months and files below these.\<close>

definition in_logs :: "path \<Rightarrow> bool" where
  "in_logs p \<longleftrightarrow> take 2 p = [''..'', ''logs'']"

definition log_tree :: "log_fs \<Rightarrow> bool" where
  "log_tree s \<longleftrightarrow>
    list_all (\<lambda>p. is_dir s (butlast p) \<and> (in_logs p \<longrightarrow> length p \<le> 5)) (fs_dirs s) \<and>
    fs_files s [''..''] = None \<and> (\<forall>p. in_logs p \<and> length p < 6 \<longrightarrow> fs_files s p = None)"

fun nested :: "path \<Rightarrow> path list \<Rightarrow> bool" where
  "nested p [] \<longleftrightarrow> True"
| "nested p (d # ds) \<longleftrightarrow> d \<noteq> [] \<and> butlast d = p \<and> nested d ds"

lemma nested_longer: "nested p ds \<Longrightarrow> d \<in> set ds \<Longrightarrow> length p < length d"
proof (induction ds arbitrary: p)
  case (Cons x ds)
  then have "length p < length x" by (cases x rule: rev_cases) auto
  then show ?case using Cons.IH [of x] Cons.prems by auto
qed simp

lemma mkdirs_all:
  "nested p (map components ds) \<Longrightarrow> is_dir s p \<Longrightarrow> list_all (\<lambda>d. \<not> exists_path s (components d)) ds \<Longrightarrow>
   mkdirs (\<lambda>_. False) first ds s = s\<lparr>fs_dirs := rev (map components ds) @ fs_dirs s\<rparr>"
proof (induction ds arbitrary: p s)
  case (Cons d ds)
  let ?s = "s\<lparr>fs_dirs := components d # fs_dirs s\<rparr>"
  have "list_all (\<lambda>x. \<not> exists_path ?s (components x)) ds"
    using Cons.prems(1,3) nested_longer [of "components d" "map components ds"]
    by (fastforce simp: list_all_iff exists_path_def)
  moreover have "mkdir (\<lambda>_. False) d s = Some ?s"
    using Cons.prems by (simp add: mkdir_def Let_def)
  ultimately show ?case using Cons.IH [of "components d" ?s] Cons.prems(1) by (simp add: is_dir_def)
qed simp

lemma log_tree_missing:
  assumes "log_tree s" "\<not> exists_path s (butlast q)" "in_logs q" "length q < 6"
  shows "\<not> exists_path s q"
  using assms by (auto simp: log_tree_def exists_path_def is_dir_def list_all_iff in_logs_def)

lemma log_path_length: "length (log_path l) = 6"
  by (simp add: log_path_def)

lemma log_path_prefixes:
  "n < 6 \<Longrightarrow> butlast (take (Suc n) (log_path l)) = take n (log_path l)"
  "2 \<le> n \<Longrightarrow> in_logs (take n (log_path l))" "butlast (log_path l) = take 5 (log_path l)"
  by (simp_all add: butlast_take log_path_length butlast_conv_take) (simp add: in_logs_def log_path_def min_def)

lemma missing_below:
  assumes "log_tree s" "\<not> exists_path s (take k (log_path l))" "1 \<le> k" "k \<le> j" "j \<le> 5"
  shows "\<not> exists_path s (take j (log_path l))"
  using assms(4,5)
proof (induction j rule: dec_induct)
  case (step j)
  then show ?case
    using log_tree_missing [OF assms(1), of "take (Suc j) (log_path l)"] assms(3)
    by (simp add: log_path_prefixes log_path_length)
qed (rule assms(2))

lemma existing_dir:
  assumes "log_tree s" "exists_path s (take k (log_path l))" "k \<le> 5"
  shows "is_dir s (take k (log_path l))"
proof -
  have "fs_files s (take k (log_path l)) = None" if "k \<noteq> 0"
  proof (cases "k = 1")
    case True
    then show ?thesis using assms(1) by (simp add: log_tree_def log_path_def)
  next
    case False
    then show ?thesis
      using assms(1,3) that log_path_prefixes(2) [of k l] by (simp add: log_tree_def log_path_length)
  qed
  then show ?thesis using assms(2) by (auto simp: exists_path_def is_dir_def)
qed

lemma log_tree_add:
  "log_tree s \<Longrightarrow> nested p ps \<Longrightarrow> is_dir s p \<Longrightarrow> \<forall>d \<in> set ps. length d \<le> 5 \<Longrightarrow> log_tree (s\<lparr>fs_dirs := rev ps @ fs_dirs s\<rparr>)"
proof (induction ps arbitrary: p s)
  case (Cons d ps)
  let ?s = "s\<lparr>fs_dirs := d # fs_dirs s\<rparr>"
  have "is_dir ?s q" if "is_dir s q" for q using that by (auto simp: is_dir_def)
  then have "log_tree ?s" using Cons.prems by (auto simp: log_tree_def list_all_iff)
  then show ?case using Cons.IH [of ?s d] Cons.prems by (simp add: is_dir_def)
qed simp

text \<open>One of the cascades, from the first missing level on.\<close>

lemma cascade:
  assumes "log_tree s" "exists_path s (take k (log_path l))" "\<not> exists_path s (take (Suc k) (log_path l))" "k < 5"
    and "map components ds = map (\<lambda>i. take i (log_path l)) [Suc k..<6]"
  shows "\<exists>dirs. mkdirs (\<lambda>_. False) first ds s = s\<lparr>fs_dirs := dirs\<rparr> \<and> log_tree (s\<lparr>fs_dirs := dirs\<rparr>) \<and>
    is_dir (s\<lparr>fs_dirs := dirs\<rparr>) (take 5 (log_path l))"
proof -
  have dir: "is_dir s (take k (log_path l))" using existing_dir assms by simp
  have nested: "nested (take i (log_path l)) (map (\<lambda>i. take i (log_path l)) [Suc i..<6])" if "i \<le> 5" for i
    using that
  proof (induction "5 - i" arbitrary: i)
    case (Suc x)
    then have "[Suc i..<6] = Suc i # [Suc (Suc i)..<6]" by (simp add: upt_conv_Cons)
    then show ?case
      using Suc(1) [of "Suc i"] Suc(2,3) log_path_prefixes(1) [of i l] log_path_length [of l]
      by (auto simp del: upt_Suc)
  qed simp
  have "\<not> exists_path s p" if "p \<in> set (map components ds)" for p
    using that missing_below [OF assms(1,3)] by (auto simp: assms(5) less_Suc_eq_le simp del: upt_Suc)
  then have "list_all (\<lambda>d. \<not> exists_path s (components d)) ds" by (simp add: list_all_iff)
  then have "mkdirs (\<lambda>_. False) first ds s = s\<lparr>fs_dirs := rev (map components ds) @ fs_dirs s\<rparr>"
    using nested [of k] dir assms(4,5) by (intro mkdirs_all) simp_all
  moreover have "log_tree (s\<lparr>fs_dirs := rev (map components ds) @ fs_dirs s\<rparr>)"
    using nested [of k] dir assms(1,4,5) by (intro log_tree_add) (auto simp: log_path_length simp del: upt_Suc)
  moreover have "take 5 (log_path l) \<in> set (map components ds)"
    using assms(4) by (auto simp: assms(5) simp del: upt_Suc)
  ultimately show ?thesis by (intro exI [of _ "rev (map components ds) @ fs_dirs s"]) (auto simp: is_dir_def)
qed

declare mkdirs.simps [simp del]

lemma make_path_made:
  assumes "log_tree s" "sane_call l"
  shows "\<exists>dirs. make_path (\<lambda>_. False) (l_now l) (l_module l) (l_proc l) s = Some (file_name l, s\<lparr>fs_dirs := dirs\<rparr>) \<and>
    log_tree (s\<lparr>fs_dirs := dirs\<rparr>) \<and> is_dir (s\<lparr>fs_dirs := dirs\<rparr>) (take 5 (log_path l))"
proof -
  let ?t = "t_name l"
  let ?e = "\<lambda>k. exists_path s (take k (log_path l))"
  note n = name_components [OF assms(2)] and c = cascade [OF assms(1)]
  have st: "store 1024 (second_dir @ ''/'' @ l_module l) = Some ?t"
      "store 1024 (?t @ ''/'' @ zero_pad 4 (tm_year (l_now l)) @ ''/'') = Some (y_name l)"
      "store 1024 (y_name l @ ''/'' @ zero_pad 2 (tm_mon (l_now l)) @ ''/'') = Some (m_name l)"
    unfolding t_name_def [symmetric] y_name_def [symmetric] m_name_def [symmetric]
    by (rule store_fits, rule name_lengths [OF assms(2)])+
  have path: "make_path (\<lambda>_. False) (l_now l) (l_module l) (l_proc l) s = Some (file_name l,
      if \<not> ?e 1 then mkdirs (\<lambda>_. False) top_dir [top_dir, second_dir, ?t, y_name l, m_name l] s
      else if \<not> ?e 2 then mkdirs (\<lambda>_. False) second_dir [second_dir, ?t, y_name l, m_name l] s
      else if \<not> ?e 3 then mkdirs (\<lambda>_. False) ?t [?t, y_name l, m_name l] s
      else if \<not> ?e 4 then mkdirs (\<lambda>_. False) (y_name l) [y_name l, m_name l] s
      else if \<not> ?e 5 then mkdirs (\<lambda>_. False) (m_name l) [m_name l] s
      else s)"
    unfolding make_path_def Let_def file_name_def [symmetric] st bind.bind_lunit n take_all [OF name_lengths(4) [OF assms(2)]] ..
  have u: "[1..<6] = [1, 2, 3, 4, 5]" "[2..<6] = [2, 3, 4, 5]" "[3..<6] = [3, 4, 5]" "[4..<6] = [4, 5]" "[5..<6] = [5 :: nat]"
    by (simp_all add: upt_rec)
  have "?e 0" by (simp add: exists_path_def)
  then consider "\<not> ?e 1" "?e 0" | "\<not> ?e 2" "?e 1" | "\<not> ?e 3" "?e 2" "?e 1" | "\<not> ?e 4" "?e 3" "?e 2" "?e 1"
    | "\<not> ?e 5" "?e 4" "?e 3" "?e 2" "?e 1" | "?e 5" "?e 4" "?e 3" "?e 2" "?e 1" by blast
  then show ?thesis
  proof cases
    case 1
    with c [of 0 l "[top_dir, second_dir, ?t, y_name l, m_name l]" top_dir] n path u show ?thesis by auto
  next
    case 2
    with c [of 1 l "[second_dir, ?t, y_name l, m_name l]" second_dir] n path u show ?thesis by (auto simp: numeral_2_eq_2)
  next
    case 3
    with c [of 2 l "[?t, y_name l, m_name l]" ?t] n path u show ?thesis by auto
  next
    case 4
    with c [of 3 l "[y_name l, m_name l]" "y_name l"] n path u show ?thesis by auto
  next
    case 5
    with c [of 4 l "[m_name l]" "m_name l"] n path u show ?thesis by auto
  next
    case 6
    then have "is_dir s (take 5 (log_path l))" using existing_dir [OF assms(1)] by simp
    with 6 path assms(1) show ?thesis by (intro exI [of _ "fs_dirs s"]) simp
  qed
qed

subsection \<open>The lines of a log\<close>

text \<open>What a file holds after some calls, given what it held before.\<close>

definition logged_file :: "log_call list \<Rightarrow> path \<Rightarrow> string option \<Rightarrow> string option" where
  "logged_file ls p old =
    (let new = filter (\<lambda>l. log_path l = p) ls in
     if new = [] then old
     else Some ((case old of None \<Rightarrow> [] | Some t \<Rightarrow> t) @ concat (map log_line new)))"

lemma log_tree_file: "log_tree s \<Longrightarrow> log_tree (s\<lparr>fs_files := (fs_files s)(log_path l \<mapsto> t)\<rparr>)"
  by (auto simp: log_tree_def is_dir_def list_all_iff log_path_length dest: arg_cong [where f = length])

lemma dumpmsg_made:
  assumes "log_tree s" "sane_call l"
  shows "\<exists>s'. dumpmsg_to_file (\<lambda>_. False) l s = Some s' \<and> log_tree s' \<and> fs_stderr s' = fs_stderr s \<and>
    fs_files s' = (fs_files s)(log_path l := logged_file [l] (log_path l) (fs_files s (log_path l)))"
proof -
  obtain dirs where d: "make_path (\<lambda>_. False) (l_now l) (l_module l) (l_proc l) s = Some (file_name l, s\<lparr>fs_dirs := dirs\<rparr>)"
      "log_tree (s\<lparr>fs_dirs := dirs\<rparr>)" "is_dir (s\<lparr>fs_dirs := dirs\<rparr>) (take 5 (log_path l))"
    using make_path_made [OF assms] by blast
  let ?s = "s\<lparr>fs_dirs := dirs\<rparr>"
  have "\<not> is_dir ?s (log_path l)"
    using d(2) by (auto simp: log_tree_def is_dir_def list_all_iff log_path_length in_logs_def log_path_def)
  then have "out_put_file (\<lambda>_. False) (file_name l) (log_line l) ?s =
      ?s\<lparr>fs_files := (fs_files ?s)(log_path l \<mapsto> (case fs_files s (log_path l) of None \<Rightarrow> [] | Some t \<Rightarrow> t) @ log_line l)\<rparr>"
    using d(3) name_components(6) [OF assms(2)]
    by (simp add: out_put_file_def Let_def log_path_prefixes split: option.split)
  moreover have "LOG (l_msg l) = Some (l_msg l)" using assms(2) by (simp add: LOG_def store_def sane_call_def)
  ultimately have "dumpmsg_to_file (\<lambda>_. False) l s = Some (?s\<lparr>fs_files := (fs_files ?s)(log_path l \<mapsto>
      (case fs_files s (log_path l) of None \<Rightarrow> [] | Some t \<Rightarrow> t) @ log_line l)\<rparr>)"
    using d(1) by (simp add: dumpmsg_to_file_def)
  with log_tree_file [OF d(2)] show ?thesis by (auto simp: logged_file_def)
qed

lemma logged_file_Cons: "logged_file (l # ls) p old = logged_file ls p (logged_file [l] p old)"
  by (auto simp: logged_file_def Let_def)

text \<open>C28: any sequence of log messages whose names and dates fit runs without overrunning an array. Every
  log file then holds what it held before followed by exactly the lines logged for its module, process and
  day, in order; the directories on the way are made when they are missing, no other file changes, and nothing
  is written to the standard error.\<close>

theorem log_lines:
  assumes "log_tree s" "list_all sane_call ls"
  shows "\<exists>s'. log_all (\<lambda>_. False) ls s = Some s' \<and> log_tree s' \<and> fs_stderr s' = fs_stderr s \<and>
    (\<forall>p. fs_files s' p = logged_file ls p (fs_files s p))"
  using assms
proof (induction ls arbitrary: s)
  case Nil
  then show ?case by (simp add: logged_file_def)
next
  case (Cons l ls)
  obtain s1 where s1: "dumpmsg_to_file (\<lambda>_. False) l s = Some s1" "log_tree s1" "fs_stderr s1 = fs_stderr s"
      "fs_files s1 = (fs_files s)(log_path l := logged_file [l] (log_path l) (fs_files s (log_path l)))"
    using dumpmsg_made [of s l] Cons.prems by auto
  have "fs_files s1 p = logged_file [l] p (fs_files s p)" for p by (simp add: s1(4) logged_file_def)
  with Cons.IH [OF s1(2)] Cons.prems(2) s1(1,3) show ?case by (auto simp: logged_file_Cons [of l ls])
qed

definition sample_call :: "string \<Rightarrow> log_call" where
  "sample_call msg = (let t = \<lparr>tm_year = 2024, tm_mon = 8, tm_mday = 9, tm_hour = 12, tm_min = 0, tm_sec = 0\<rparr> in
     \<lparr>l_module = ''cgi'', l_proc = ''login'', l_file = ''login_cgi.c'', l_line = 40, l_msg = msg, l_stamp = t, l_now = t\<rparr>)"

theorem log_lines_witness:
  "\<exists>s'. log_all (\<lambda>_. False) [sample_call ''a'', sample_call ''b''] \<lparr>fs_dirs = [[''..'']], fs_files = (\<lambda>_. None), fs_stderr = []\<rparr> = Some s' \<and>
    log_tree s' \<and> fs_stderr s' = fs_stderr \<lparr>fs_dirs = [[''..'']], fs_files = (\<lambda>_. None), fs_stderr = []\<rparr> \<and>
    (\<forall>p. fs_files s' p = logged_file [sample_call ''a'', sample_call ''b''] p
      (fs_files \<lparr>fs_dirs = [[''..'']], fs_files = (\<lambda>_. None), fs_stderr = []\<rparr> p))"
  by (rule log_lines) (simp_all add: log_tree_def is_dir_def in_logs_def sane_call_def sample_call_def plain_def Let_def)

end
