(* ===== verification/Spec2Isabelle.thy ===== *)
theory Spec2Isabelle
  imports DES_Width CJSON_Minify Upload_Programs Race Redis_Wire Make_Log
begin

text \<open>
  Verification of the file server HF\_DFS. The server is a set of FastCGI programs in C
  (\<^verbatim>\<open>src/src/cgi\<close>) over common libraries (\<^verbatim>\<open>src/src/common\<close>), with MySQL for accounts and file
  tables, Redis for login tokens and the ranking of shared files, and FastDFS for the contents of files.

  \<^bold>\<open>The parts and how they interact.\<close> A browser sends a request to one of eight programs. Registration and login
  work on the table \<open>user\<close>; a login stores a token in Redis, which the programs \<^verbatim>\<open>md5\<close>, \<^verbatim>\<open>dealfile\<close>
  and \<^verbatim>\<open>myfiles\<close> compare with the token of each request (\<open>verify_token\<close>). An upload is written to a local file,
  handed to the storage system, and entered into \<open>file_info\<close> (one row for each digest, with a reference count),
  \<open>user_file_list\<close> and \<open>user_file_count\<close>; a later upload of the same contents only adds a reference.
  Sharing moves entries into \<open>share_file_list\<close> and into a sorted set and a hash in Redis.

  \<^bold>\<open>Conventions.\<close> A function of the programs that uses the outside is a function from a \<open>world\<close> to
  \<open>(result \<times> world) option\<close>; \<open>None\<close> is undefined behaviour of C (a null pointer, an overrun array, a missing
  argument of a format). The outside is the record \<open>env\<close> of functions on a state of any type. Error codes are
  the integers of the source. Texts are lists of characters, \<open>store n s\<close> writes one into an array of
  \<open>n\<close> characters. Machine integers are words or integers with \<open>wrap32\<close> written out.

  \<^bold>\<open>Theories.\<close>

  \<^item> \<open>HF_Prelude\<close>, \<open>C_Library\<close>, \<open>World\<close>: words, lists, codecs; the C library on strings and numbers; the
    outside and the two ways to speak of an outcome, \<open>ok\<close> (whatever is defined satisfies) and \<open>runs\<close> (is
    defined and satisfies).
  \<^item> \<open>Base64\<close> (\<^verbatim>\<open>common/base64.c\<close>), \<open>MD5_Digest\<close> (\<^verbatim>\<open>common/md5.c\<close>), \<open>DES_Cipher\<close>, \<open>DES_Roundtrip\<close>,
    \<open>DES_Width\<close> (\<^verbatim>\<open>common/des.c\<close>): the algorithms of the token. Decoding undoes encoding, any sequence of
    updates is the digest of the concatenation, decryption undoes encryption with a 32-bit \<open>unsigned long\<close>;
    the tables differ from DES in four entries, and with 64 bits the cipher reads uninitialised memory.
  \<^item> \<open>Float64\<close>, \<open>CJSON\<close>, \<open>CJSON_Laws\<close>, \<open>CJSON_Roundtrip\<close>, \<open>CJSON_Minify\<close> (\<^verbatim>\<open>common/cJSON.c\<close>): parser and
    printers undo each other, the parser ends, a malformed escape overruns a buffer, minifying the
    formatted text gives the unformatted one.
  \<^item> \<open>Util_Strings\<close>, \<open>Util_Cgi\<close> (\<^verbatim>\<open>common/util_cgi.c\<close>, \<^verbatim>\<open>common/config.c\<close>, \<^verbatim>\<open>common/deal_mysql.c\<close>): string
    functions, configuration, statements, the request loop shared by the programs, the token check.
  \<^item> \<open>Make_Log\<close> (\<^verbatim>\<open>common/make_log.c\<close>): log files over a file system; each file gets exactly its lines.
  \<^item> \<open>Hiredis\<close>, \<open>Redis_Reply\<close>, \<open>Reader\<close>, \<open>Reader_Laws\<close>, \<open>Reader_Roundtrip\<close>, \<open>Redis_Context\<close>
    (\<^verbatim>\<open>hiredis-master/hiredis.c\<close>, \<^verbatim>\<open>hiredis-master/read.c\<close>, \<^verbatim>\<open>redis/src/networking.c\<close>, \<^verbatim>\<open>redis/src/util.c\<close>):
    a command from its format to the argument vector of the server, and a reply from the server to the objects
    of the client. The reader is a state machine over a stack of tasks and a store of objects; it does not
    depend on how the bytes are cut into pieces. \<open>Redis_Wire\<close> shows that the two sides together obey the laws of
    \<open>redis_server\<close>, over which the programs are verified.
  \<^item> \<open>Redis_Op\<close> (\<^verbatim>\<open>common/redis_op.c\<close>): the wrapper, function by function; \<open>Redis_Spec\<close>: the locale
    \<open>redis_server\<close> with the documented behaviour of \<open>GET\<close> and \<open>SETEX\<close>.
  \<^item> \<open>Sql_Spec\<close>, \<open>Sql_Texts\<close> (\<^verbatim>\<open>resource/HFDFS.sql\<close> and the formats of the programs): statements on one table,
    their text and effect, the locale \<open>sql_server\<close>; what each format of the programs denotes for texts
    without quotation marks, and that a quotation mark changes the statement.
  \<^item> \<open>Account_Cgi\<close> (\<^verbatim>\<open>cgi/register_cgi.c\<close>, \<^verbatim>\<open>cgi/login_cgi.c\<close>), \<open>File_Cgi\<close> (\<^verbatim>\<open>cgi/md5_cgi.c\<close>,
    \<^verbatim>\<open>cgi/dealfile_cgi.c\<close>), \<open>Share_Cgi\<close> (\<^verbatim>\<open>cgi/dealsharefile_cgi.c\<close>), \<open>List_Cgi\<close> (\<^verbatim>\<open>cgi/myfiles_cgi.c\<close>,
    \<^verbatim>\<open>cgi/sharefiles_cgi.c\<close>), \<open>Upload_Cgi\<close> (\<^verbatim>\<open>cgi/upload_cgi.c\<close>): the programs, one definition for
    each function; \<open>..._serve\<close> is the body of the request loop and \<open>..._main\<close> the loop.
  \<^item> \<open>Answers\<close>, \<open>Handlers\<close>: what a handler writes, in every environment: one status, which belongs to its
    return code, and fields that arrive as they were sent.
  \<^item> \<open>Refcount\<close>, \<open>Database\<close>, \<open>Refcount_Programs\<close>: the invariant that the count of a file is at least the number
    of rows that refer to it, for servers that may fail at any statement (locale \<open>database\<close>).
  \<^item> \<open>Reliable\<close>, \<open>File_Store\<close>: servers that do not fail (locale \<open>reliable\<close>); the abstract store of files and the
    proof that the programs implement its operations.
  \<^item> \<open>Session\<close>, \<open>Site\<close>: tokens (locale \<open>token_store\<close>) and the whole site (locale \<open>site\<close>), with login and
    registration from the bytes of the request to the bytes of the answer.
  \<^item> \<open>Reference_Server\<close>: a server on which the locales are interpreted and the programs run inside the logic.
  \<^item> \<open>File_Programs\<close>, \<open>Account_Programs\<close>, \<open>Request_Programs\<close>, \<open>Upload_Programs\<close>, \<open>Race\<close>: the properties of the
    programs for all servers with the laws of the locales: refinement, safety of removals, sessions, the bounds of
    a request, what happens without a token, uploads as a protocol of external calls, and two interleaved
    processes that lose a reference.

  \<^bold>\<open>Bounds and fuel.\<close> \<open>cJSON_Parse\<close> recurses with fuel \<open>2 * length s + 2\<close>; \<open>cjson_parse_terminates\<close> shows that it
  never runs out. All other recursions are structural or have a termination proof: the items of a reply by the
  unread bytes, formats and printed numbers by their length or value. Sockets are lists of the results of their
  calls; a call beyond the list blocks, and the theorems on replies show that this does not happen when all
  bytes arrive. Reads of more than \<open>2 ^ 31\<close> bytes, texts beyond the arrays, and requests of 4089 and
  more characters are outside of what the programs can handle, and the theorems say so in their hypotheses.

  \<^bold>\<open>Assumptions.\<close> MySQL executes the statements of \<open>Sql_Spec\<close> as described there, with a collation that is an
  equivalence, or reports an error; Redis obeys \<open>GET\<close> and \<open>SETEX\<close> before keys expire; the storage commands
  answer or fail. These are the \<open>assumes\<close> of the locales, or arguments of the theorems.

  \<^bold>\<open>Not modelled.\<close>

  \<^item> FastDFS, nginx with its FastDFS module, the FastCGI library, its launcher, and the parts of Redis and hiredis
    beyond requests and replies (data types, persistence, event loop; making connections, asynchronous use,
    argument arrays): vendored code that the programs see only through the calls that are parameters here.
  \<^item> In \<^verbatim>\<open>common/cJSON.c\<close>: printing into a growing buffer (\<open>cJSON_PrintBuffered\<close>), references to items,
    insertion with a constant key, arrays of \<open>float\<close>, the error pointer and the allocation hooks, which no program uses. Memory is allocated without failure except where a
    parameter says otherwise, and freed objects are not tracked.
  \<^item> In \<^verbatim>\<open>common/redis_op.c\<close>: \<open>rop_disconnect\<close> and \<open>rop_test_reply_type\<close>, which change nothing that is modelled.
  \<^item> What handlers log, apart from messages that overrun the array of the log writer.
  \<^item> The expiry of tokens and the clock, beyond the texts of the time that statements contain.
  \<^item> Start scripts, configuration files and demonstration programs (\<^verbatim>\<open>src/src/sh\<close>, \<^verbatim>\<open>src/src/conf\<close>,
    \<^verbatim>\<open>src/src/demo\<close>): no computation, or not part of the server.
\<close>

end
